(* ===== verification/Holanc_Prelude.thy ===== *)
theory Holanc_Prelude
  imports Main "HOL-Library.Word"
begin

text \<open>
  Shared vocabulary of the development: the type of bytes, results of fallible code as sums
  (\<open>Inl\<close> is the thrown error), reachability over a step relation, the interface of a system with
  an inductive invariant, and list lemmas that several components use.
\<close>

type_synonym byte = "8 word"

named_theorems codec_simps \<open>lengths and inverses of the byte and text encodings\<close>
named_theorems wallet_simps \<open>what the wallet operations leave unchanged\<close>
named_theorems store_simps \<open>what the note table operations return and keep\<close>

section \<open>Results of code that may throw\<close>

text \<open>
  What the language throws on its own, and an explicit \<open>throw new Error(message)\<close>.
\<close>

datatype js_error =
    SyntaxError
  | RangeError
  | TypeError
  | Error string

definition bind_result :: "'e + 'a \<Rightarrow> ('a \<Rightarrow> 'e + 'b) \<Rightarrow> 'e + 'b" where
  "bind_result r f = (case r of Inl e \<Rightarrow> Inl e | Inr x \<Rightarrow> f x)"

lemma bind_result_simps [simp]:
  "bind_result (Inl e) f = Inl e"
  "bind_result (Inr x) f = f x"
  by (simp_all add: bind_result_def)

lemma bind_result_Inr_iff:
  "bind_result r f = Inr y \<longleftrightarrow> (\<exists>x. r = Inr x \<and> f x = Inr y)"
  by (cases r) auto

fun map_result :: "('a \<Rightarrow> 'e + 'b) \<Rightarrow> 'a list \<Rightarrow> 'e + 'b list" where
  "map_result f [] = Inr []"
| "map_result f (x # xs) =
     bind_result (f x) (\<lambda>y. bind_result (map_result f xs) (\<lambda>ys. Inr (y # ys)))"

lemma map_result_Inr: "(\<And>x. x \<in> set xs \<Longrightarrow> f x = Inr (g x)) \<Longrightarrow> map_result f xs = Inr (map g xs)"
  by (induction xs) auto

lemma map_result_length: "map_result f xs = Inr ys \<Longrightarrow> length ys = length xs"
  by (induction xs arbitrary: ys) (auto simp: bind_result_Inr_iff)

text \<open>
  A method that updates its object and may throw: the state reached stays even when it throws.
\<close>

type_synonym ('s, 'a) effect = "'s \<Rightarrow> 's \<times> (js_error + 'a)"

definition eff_bind :: "('s, 'a) effect \<Rightarrow> ('a \<Rightarrow> ('s, 'b) effect) \<Rightarrow> ('s, 'b) effect" where
  "eff_bind m f s = (case m s of (t, Inl e) \<Rightarrow> (t, Inl e) | (t, Inr x) \<Rightarrow> f x t)"

definition eff_return :: "'a \<Rightarrow> ('s, 'a) effect" where
  "eff_return x s = (s, Inr x)"

definition eff_lift :: "js_error + 'a \<Rightarrow> ('s, 'a) effect" where
  "eff_lift r s = (s, r)"

definition eff_modify :: "('s \<Rightarrow> 's) \<Rightarrow> ('s, unit) effect" where
  "eff_modify f s = (f s, Inr ())"

lemma eff_bind_simps [simp]:
  "m s = (t, Inl e) \<Longrightarrow> eff_bind m f s = (t, Inl e)"
  "m s = (t, Inr x) \<Longrightarrow> eff_bind m f s = f x t"
  by (simp_all add: eff_bind_def)

lemma eff_bind_Inr_iff:
  "eff_bind m f s = (u, Inr y) \<longleftrightarrow> (\<exists>t x. m s = (t, Inr x) \<and> f x t = (u, Inr y))"
  by (auto simp: eff_bind_def split: prod.splits sum.splits)

lemmas eff_defs = eff_return_def eff_lift_def eff_modify_def

section \<open>Reachable states of a step relation\<close>

inductive reachable :: "('s \<Rightarrow> bool) \<Rightarrow> ('s \<Rightarrow> 's \<Rightarrow> bool) \<Rightarrow> 's \<Rightarrow> bool"
  for init step where
  reach_init: "init s \<Longrightarrow> reachable init step s"
| reach_step: "reachable init step s \<Longrightarrow> step s t \<Longrightarrow> reachable init step t"

text \<open>
  The interface of a component that is a state machine with an invariant: what holds initially and
  is kept by every step holds in every reachable state.
\<close>

locale invariant_system =
  fixes init :: "'s \<Rightarrow> bool"
    and step :: "'s \<Rightarrow> 's \<Rightarrow> bool"
    and inv :: "'s \<Rightarrow> bool"
  assumes inv_init: "init s \<Longrightarrow> inv s"
    and inv_step: "inv s \<Longrightarrow> step s t \<Longrightarrow> inv t"
begin

lemma reachable_inv: "reachable init step s \<Longrightarrow> inv s"
  by (induction rule: reachable.induct) (auto intro: inv_init inv_step)

lemma steps_inv: "inv s \<Longrightarrow> step\<^sup>*\<^sup>* s t \<Longrightarrow> inv t"
  by (rotate_tac 1, induction rule: rtranclp_induct) (auto intro: inv_step)

lemma reachable_steps: "reachable init step s \<Longrightarrow> step\<^sup>*\<^sup>* s t \<Longrightarrow> reachable init step t"
  by (rotate_tac 1, induction rule: rtranclp_induct) (auto intro: reach_step)

end

section \<open>Lists\<close>

lemma distinct_filter_upt [simp]: "distinct (filter P [0..<n])"
  by (rule distinct_filter) simp

lemma nth_append_left [simp]: "i < length xs \<Longrightarrow> (xs @ ys) ! i = xs ! i"
  by (simp add: nth_append)

lemma nth_update_at: "j < length xs \<Longrightarrow> xs[i := x] ! j = (if i = j then x else xs ! j)"
  by (cases "i = j") auto

lemma sum_filter_as_map:
  "sum_list (map f (filter P xs)) = sum_list (map (\<lambda>x. if P x then f x else (0 :: int)) xs)"
  by (induction xs) auto

lemma sum_list_map_update:
  fixes f :: "'a \<Rightarrow> int"
  assumes "i < length xs"
  shows "sum_list (map f (xs[i := y])) = sum_list (map f xs) - f (xs ! i) + f y"
  using assms
proof (induction xs arbitrary: i)
  case (Cons a xs)
  then show ?case by (cases i) auto
qed simp

lemma sum_list_filter_le:
  fixes f :: "'a \<Rightarrow> int"
  assumes "\<And>x. x \<in> set xs \<Longrightarrow> 0 \<le> f x"
  shows "sum_list (map f (filter P xs)) \<le> sum_list (map f xs)"
  using assms by (induction xs) (auto simp: add_increasing)

lemma sum_list_nonneg_map:
  fixes f :: "'a \<Rightarrow> int"
  assumes "\<And>x. x \<in> set xs \<Longrightarrow> 0 \<le> f x"
  shows "0 \<le> sum_list (map f xs)"
  using assms by (induction xs) auto

lemma concat_replicate_length [simp]:
  "(\<And>x. x \<in> set xs \<Longrightarrow> length (f x) = n) \<Longrightarrow> length (concat (map f xs)) = n * length xs"
  by (induction xs) auto

lemma find_app: "find P (xs @ ys) = (case find P xs of None \<Rightarrow> find P ys | Some x \<Rightarrow> Some x)"
  by (induction xs) auto

section \<open>Ceiling division\<close>

definition ceil_div :: "nat \<Rightarrow> nat \<Rightarrow> nat" where
  "ceil_div a b = (a + b - 1) div b"

lemma ceil_div_bounds:
  assumes "0 < b"
  shows "a \<le> ceil_div a b * b" and "ceil_div a b * b < a + b"
proof -
  have eq: "(a + b - 1) div b * b + (a + b - 1) mod b = a + b - 1"
    by simp
  moreover have "(a + b - 1) mod b < b"
    using assms by simp
  ultimately show "a \<le> ceil_div a b * b"
    using assms unfolding ceil_div_def by linarith
  show "ceil_div a b * b < a + b"
    using eq assms unfolding ceil_div_def by linarith
qed

end
