(* ===== verification/Js_Text.thy ===== *)
theory Js_Text
  imports Holanc_Prelude
begin

text \<open>
  The JavaScript and Node string functions the code uses on numbers and bytes, as the language
  defines them: \<open>toString(16)\<close> and \<open>toString()\<close> of a BigInt, \<open>padStart\<close>, the BigInt constructor on a
  string (\<open>None\<close> is its SyntaxError), \<open>parseInt\<close> (\<open>None\<close> is NaN), and the hexadecimal decoder of
  \<open>Buffer.from\<close>. A string is a list of characters; characters above U+00FF do not occur in the
  values modelled (hexadecimal, decimal, URLs).
\<close>

section \<open>Digits\<close>

definition hex_digit :: "nat \<Rightarrow> char" where
  "hex_digit n = ''0123456789abcdef'' ! n"

definition hex_val :: "char \<Rightarrow> nat option" where
  "hex_val c =
     (let n = (of_char c :: nat) in
      if 48 \<le> n \<and> n \<le> 57 then Some (n - 48)
      else if 97 \<le> n \<and> n \<le> 102 then Some (n - 87)
      else if 65 \<le> n \<and> n \<le> 70 then Some (n - 55)
      else None)"

definition digit_val :: "nat \<Rightarrow> char \<Rightarrow> nat option" where
  "digit_val b c = (case hex_val c of Some v \<Rightarrow> if v < b then Some v else None | None \<Rightarrow> None)"

text \<open>A property of the sixteen digits is checked digit by digit.\<close>

lemma below_16: "n < 16 \<Longrightarrow> list_all P [0..<16] \<Longrightarrow> P n"
  by (simp add: list_all_iff)

lemma hex_val_hex_digit [simp]: "n < 16 \<Longrightarrow> hex_val (hex_digit n) = Some n"
  by (erule below_16) (simp add: upt_conv_Cons hex_val_def hex_digit_def)

lemma hex_val_less: "hex_val c = Some v \<Longrightarrow> v < 16"
  by (auto simp: hex_val_def Let_def split: if_splits)

lemma digit_val_hex_digit [simp]: "n < b \<Longrightarrow> b \<le> 16 \<Longrightarrow> digit_val b (hex_digit n) = Some n"
  by (simp add: digit_val_def)

lemma digit_val_less: "digit_val b c = Some v \<Longrightarrow> v < b"
  by (auto simp: digit_val_def split: option.splits if_splits)

section \<open>Positional notation\<close>

function digits :: "nat \<Rightarrow> nat \<Rightarrow> nat list" where
  "digits b n = (if n < b \<or> b < 2 then [n] else digits b (n div b) @ [n mod b])"
  by pat_completeness auto
termination
  by (relation "measure snd") auto

declare digits.simps [simp del]

definition digits_value :: "nat \<Rightarrow> nat list \<Rightarrow> nat" where
  "digits_value b ds = foldl (\<lambda>a d. a * b + d) 0 ds"

lemma digits_value_append1 [simp]: "digits_value b (ds @ [d]) = digits_value b ds * b + d"
  by (simp add: digits_value_def)

lemma digits_value_Nil [simp]: "digits_value b [] = 0"
  by (simp add: digits_value_def)

lemma digits_value_Cons: "digits_value b (d # ds) = d * b ^ length ds + digits_value b ds"
proof (induction ds rule: rev_induct)
  case Nil
  show ?case by (simp add: digits_value_def)
next
  case (snoc e ds)
  have "digits_value b (d # ds @ [e]) = digits_value b (d # ds) * b + e"
    using digits_value_append1 [of b "d # ds" e] by simp
  with snoc show ?case by (simp add: algebra_simps)
qed

lemma digits_value_digits [simp]: "digits_value b (digits b n) = n"
proof (induction b n rule: digits.induct)
  case (1 b n)
  show ?case
  proof (cases "n < b \<or> b < 2")
    case True
    then show ?thesis
      by (simp add: digits.simps [of b n] digits_value_def)
  next
    case False
    then show ?thesis
      using "1.IH" by (simp add: digits.simps [of b n])
  qed
qed

lemma digits_less: "2 \<le> b \<Longrightarrow> d \<in> set (digits b n) \<Longrightarrow> d < b"
proof (induction b n rule: digits.induct)
  case (1 b n)
  then show ?case
    by (cases "n < b") (auto simp: digits.simps [of b n])
qed

lemma digits_nonempty [simp]: "digits b n \<noteq> []"
  by (subst digits.simps) simp

lemma digits_value_bound: "(\<And>d. d \<in> set ds \<Longrightarrow> d < b) \<Longrightarrow> digits_value b ds < b ^ length ds"
proof (induction ds rule: rev_induct)
  case (snoc d ds)
  then have "digits_value b ds < b ^ length ds" and "d < b"
    by auto
  then have "digits_value b ds * b + d < (digits_value b ds + 1) * b"
    by (simp add: algebra_simps)
  also have "\<dots> \<le> b ^ length ds * b"
    using \<open>digits_value b ds < b ^ length ds\<close> by (intro mult_le_mono1) simp
  finally show ?case by (simp add: mult.commute)
qed simp

lemma length_digits_le: "2 \<le> b \<Longrightarrow> n < b ^ k \<Longrightarrow> 0 < k \<Longrightarrow> length (digits b n) \<le> k"
proof (induction b n arbitrary: k rule: digits.induct)
  case (1 b n)
  show ?case
  proof (cases "n < b")
    case True
    with "1.prems" show ?thesis by (simp add: digits.simps [of b n])
  next
    case False
    from "1.prems" obtain j where j: "k = Suc j"
      by (cases k) auto
    with False "1.prems" have k: "k = Suc j" "0 < j"
      by (auto intro!: gr0I)
    then have "n div b < b ^ j"
      using "1.prems" by (simp add: less_mult_imp_div_less mult.commute)
    then have "length (digits b (n div b)) \<le> j"
      using "1.IH" "1.prems" False k by simp
    with False k "1.prems" show ?thesis by (simp add: digits.simps [of b n])
  qed
qed

text \<open>\<open>Number.prototype.toString(radix)\<close> and \<open>BigInt.prototype.toString(radix)\<close>.\<close>

definition nat_to_string :: "nat \<Rightarrow> nat \<Rightarrow> string" where
  "nat_to_string b n = map hex_digit (digits b n)"

definition bigint_to_string :: "nat \<Rightarrow> int \<Rightarrow> string" where
  "bigint_to_string b i =
     (if i < 0 then CHR ''-'' # nat_to_string b (nat (- i)) else nat_to_string b (nat i))"

text \<open>\<open>s.padStart(n, c)\<close> and \<open>s.padEnd(n, c)\<close> with a single fill character.\<close>

definition pad_start :: "nat \<Rightarrow> char \<Rightarrow> string \<Rightarrow> string" where
  "pad_start n c s = replicate (n - length s) c @ s"

definition pad_end :: "nat \<Rightarrow> char \<Rightarrow> string \<Rightarrow> string" where
  "pad_end n c s = s @ replicate (n - length s) c"

lemma length_pad_start [codec_simps]: "length (pad_start n c s) = max n (length s)"
  by (simp add: pad_start_def)

section \<open>Reading numbers\<close>

fun read_digits :: "nat \<Rightarrow> string \<Rightarrow> nat list option" where
  "read_digits b [] = Some []"
| "read_digits b (c # cs) =
     (case digit_val b c of
        None \<Rightarrow> None
      | Some d \<Rightarrow> map_option ((#) d) (read_digits b cs))"

lemma read_digits_map [simp]:
  "(\<And>d. d \<in> set ds \<Longrightarrow> d < b) \<Longrightarrow> b \<le> 16 \<Longrightarrow> read_digits b (map hex_digit ds) = Some ds"
  by (induction ds) auto

lemma read_digits_append:
  "read_digits b (xs @ ys) =
     (case read_digits b xs of None \<Rightarrow> None
      | Some ds \<Rightarrow> map_option ((@) ds) (read_digits b ys))"
  by (induction xs) (auto split: option.splits simp: map_option_case)

lemma read_digits_length: "read_digits b s = Some ds \<Longrightarrow> length ds = length s"
  by (induction s arbitrary: ds) (auto split: option.splits)

lemma read_digits_less: "read_digits b s = Some ds \<Longrightarrow> d \<in> set ds \<Longrightarrow> d < b"
  by (induction s arbitrary: ds) (auto split: option.splits dest: digit_val_less)

lemma digits_value_zeros [simp]: "digits_value b (replicate k 0 @ ds) = digits_value b ds"
  by (induction k) (simp_all add: digits_value_Cons)

lemma read_digits_zeros [simp]:
  "0 < b \<Longrightarrow> read_digits b (replicate k (CHR ''0'')) = Some (replicate k 0)"
  by (induction k) (auto simp: digit_val_def hex_val_def)

text \<open>White space of the language in the characters modelled.\<close>

definition js_space :: "char \<Rightarrow> bool" where
  "js_space c = ((of_char c :: nat) \<in> {9, 10, 11, 12, 13, 32, 160})"

definition trim_start :: "string \<Rightarrow> string" where
  "trim_start s = dropWhile js_space s"

definition trim_end :: "string \<Rightarrow> string" where
  "trim_end s = rev (dropWhile js_space (rev s))"

definition js_trim :: "string \<Rightarrow> string" where
  "js_trim s = trim_end (trim_start s)"

definition starts_with :: "string \<Rightarrow> string \<Rightarrow> bool" where
  "starts_with p s = (take (length p) s = p)"

definition unsigned_literal :: "nat \<Rightarrow> string \<Rightarrow> int option" where
  "unsigned_literal b s =
     (if s = [] then None else map_option (\<lambda>ds. int (digits_value b ds)) (read_digits b s))"

text \<open>
  \<open>BigInt(s)\<close>: surrounding white space is ignored, the empty string is 0, the radix prefixes
  admit no sign, everything else must be a signed decimal literal.
\<close>

definition bigint_of_string :: "string \<Rightarrow> int option" where
  "bigint_of_string s =
     (let t = js_trim s in
      if t = [] then Some 0
      else if starts_with ''0x'' t \<or> starts_with ''0X'' t then unsigned_literal 16 (drop 2 t)
      else if starts_with ''0o'' t \<or> starts_with ''0O'' t then unsigned_literal 8 (drop 2 t)
      else if starts_with ''0b'' t \<or> starts_with ''0B'' t then unsigned_literal 2 (drop 2 t)
      else if starts_with ''-'' t then map_option uminus (unsigned_literal 10 (tl t))
      else if starts_with ''+'' t then unsigned_literal 10 (tl t)
      else unsigned_literal 10 t)"

fun digit_prefix :: "nat \<Rightarrow> string \<Rightarrow> nat list" where
  "digit_prefix b [] = []"
| "digit_prefix b (c # cs) =
     (case digit_val b c of None \<Rightarrow> [] | Some d \<Rightarrow> d # digit_prefix b cs)"

definition parse_unsigned_prefix :: "nat \<Rightarrow> string \<Rightarrow> int option" where
  "parse_unsigned_prefix b s =
     (let t = (if b = 16 \<and> (starts_with ''0x'' s \<or> starts_with ''0X'' s) then drop 2 s else s);
          ds = digit_prefix b t
      in if ds = [] then None else Some (int (digits_value b ds)))"

definition parse_int :: "nat \<Rightarrow> string \<Rightarrow> int option" where
  "parse_int b s =
     (let t = trim_start s in
      if starts_with ''-'' t then map_option uminus (parse_unsigned_prefix b (tl t))
      else if starts_with ''+'' t then parse_unsigned_prefix b (tl t)
      else parse_unsigned_prefix b t)"

lemma of_char_hex_digit: "n < 16 \<Longrightarrow>
  (of_char (hex_digit n) :: nat) = (if n < 10 then 48 + n else 87 + n)"
  by (erule below_16) (simp add: upt_conv_Cons hex_digit_def)

lemma js_space_hex_digit [simp]: "n < 16 \<Longrightarrow> \<not> js_space (hex_digit n)"
  by (auto simp: js_space_def of_char_hex_digit)

lemma js_trim_id:
  "s \<noteq> [] \<Longrightarrow> \<not> js_space (hd s) \<Longrightarrow> \<not> js_space (last s) \<Longrightarrow> js_trim s = s"
proof -
  assume s: "s \<noteq> []" "\<not> js_space (hd s)" "\<not> js_space (last s)"
  have "dropWhile js_space s = s"
    using s by (cases s) auto
  moreover have "dropWhile js_space (rev s) = rev s"
    using s by (cases s rule: rev_cases) auto
  ultimately show ?thesis
    by (simp add: js_trim_def trim_start_def trim_end_def)
qed

text \<open>Decimal text: \<open>BigInt(x.toString())\<close> is \<open>x\<close>.\<close>

lemma nat_to_string_nonempty [simp]: "nat_to_string b n \<noteq> []"
  by (simp add: nat_to_string_def)

lemma read_digits_nat_to_string:
  "2 \<le> b \<Longrightarrow> b \<le> 16 \<Longrightarrow> read_digits b (nat_to_string b n) = Some (digits b n)"
  unfolding nat_to_string_def by (rule read_digits_map) (auto dest: digits_less)

lemma unsigned_literal_nat_to_string:
  "2 \<le> b \<Longrightarrow> b \<le> 16 \<Longrightarrow> unsigned_literal b (nat_to_string b n) = Some (int n)"
  by (simp add: unsigned_literal_def read_digits_nat_to_string)

lemma set_nat_to_string:
  "2 \<le> b \<Longrightarrow> c \<in> set (nat_to_string b n) \<Longrightarrow> \<exists>d < b. c = hex_digit d"
  by (auto simp: nat_to_string_def dest: digits_less)

lemma decimal_char:
  assumes "c \<in> set (nat_to_string 10 n)"
  shows "48 \<le> (of_char c :: nat) \<and> (of_char c :: nat) \<le> 57"
proof -
  obtain d where "d < 10" "c = hex_digit d"
    using set_nat_to_string [OF _ assms] by auto
  then show ?thesis
    by (simp add: of_char_hex_digit)
qed

lemma decimal_first_two:
  assumes "s = nat_to_string 10 n"
  shows "\<not> starts_with ''0x'' s" "\<not> starts_with ''0X'' s" "\<not> starts_with ''0o'' s"
    "\<not> starts_with ''0O'' s" "\<not> starts_with ''0b'' s" "\<not> starts_with ''0B'' s"
    "\<not> starts_with ''-'' s" "\<not> starts_with ''+'' s"
proof -
  have dec: "\<And>c. c \<in> set s \<Longrightarrow> 48 \<le> (of_char c :: nat) \<and> (of_char c :: nat) \<le> 57"
    using assms decimal_char by blast
  have two: "\<not> starts_with [a, c] s" if "57 < (of_char c :: nat)" for a c
  proof
    assume "starts_with [a, c] s"
    then have "take 2 s = [a, c]"
      by (simp add: starts_with_def numeral_2_eq_2)
    then have "c \<in> set s"
      by (metis in_set_takeD list.set_intros(1) list.set_intros(2))
    with dec that show False
      by fastforce
  qed
  have one: "\<not> starts_with [c] s" if "(of_char c :: nat) < 48" for c
  proof
    assume "starts_with [c] s"
    then have "c \<in> set s"
      by (cases s) (auto simp: starts_with_def)
    with dec that show False
      by fastforce
  qed
  show "\<not> starts_with ''0x'' s" "\<not> starts_with ''0X'' s" "\<not> starts_with ''0o'' s"
    "\<not> starts_with ''0O'' s" "\<not> starts_with ''0b'' s" "\<not> starts_with ''0B'' s"
    "\<not> starts_with ''-'' s" "\<not> starts_with ''+'' s"
    by (rule two one, simp)+
qed

lemma js_trim_digits:
  assumes "\<And>c. c \<in> set s \<Longrightarrow> \<not> js_space c"
  shows "js_trim s = s"
proof (cases "s = []")
  case True
  then show ?thesis by (simp add: js_trim_def trim_start_def trim_end_def)
next
  case False
  with assms show ?thesis by (intro js_trim_id) auto
qed

lemma js_space_decimal: "c \<in> set (nat_to_string 10 n) \<Longrightarrow> \<not> js_space c"
  using set_nat_to_string [of 10 c n] by auto

theorem bigint_of_to_string [simp]: "bigint_of_string (bigint_to_string 10 i) = Some i"
proof (cases "i < 0")
  case True
  let ?s = "nat_to_string 10 (nat (- i))"
  have "js_trim (CHR ''-'' # ?s) = CHR ''-'' # ?s"
    by (rule js_trim_digits) (auto simp: js_space_def dest: js_space_decimal)
  moreover have "\<not> starts_with [CHR ''0'', c] (CHR ''-'' # ?s)" for c
    by (simp add: starts_with_def)
  ultimately show ?thesis
    using True
    by (simp add: bigint_of_string_def bigint_to_string_def Let_def starts_with_def
        unsigned_literal_nat_to_string)
next
  case False
  let ?s = "nat_to_string 10 (nat i)"
  have "js_trim ?s = ?s"
    by (rule js_trim_digits) (auto dest: js_space_decimal)
  then show ?thesis
    using False decimal_first_two [of ?s "nat i"]
    by (simp add: bigint_of_string_def bigint_to_string_def Let_def unsigned_literal_nat_to_string)
qed

section \<open>Hexadecimal bytes\<close>

text \<open>\<open>Buffer.from(s, "hex")\<close> decodes pairs up to the first pair that is not hexadecimal.\<close>

fun buffer_from_hex :: "string \<Rightarrow> byte list" where
  "buffer_from_hex (a # b # cs) =
     (case (hex_val a, hex_val b) of
        (Some x, Some y) \<Rightarrow> word_of_nat (16 * x + y) # buffer_from_hex cs
      | _ \<Rightarrow> [])"
| "buffer_from_hex _ = []"

text \<open>\<open>buf.toString("hex")\<close>.\<close>

definition byte_hex :: "byte \<Rightarrow> string" where
  "byte_hex b = [hex_digit (unat b div 16), hex_digit (unat b mod 16)]"

definition buffer_to_hex :: "byte list \<Rightarrow> string" where
  "buffer_to_hex bs = concat (map byte_hex bs)"

lemma buffer_to_hex_simps [simp]:
  "buffer_to_hex [] = []"
  "buffer_to_hex (b # bs) = byte_hex b @ buffer_to_hex bs"
  by (simp_all add: buffer_to_hex_def)

lemma unat_byte_less [simp]: "unat (b :: byte) < 256"
  by (rule order_less_le_trans [OF unsigned_less]) simp

lemma unat_byte_div [simp]: "unat (b :: byte) div 16 < 16"
  using unat_byte_less [of b] by (simp add: less_mult_imp_div_less)

lemma length_buffer_to_hex [codec_simps]: "length (buffer_to_hex bs) = 2 * length bs"
  by (induction bs) (auto simp: byte_hex_def)

lemma length_buffer_from_hex_le: "2 * length (buffer_from_hex s) \<le> length s"
  by (induction s rule: buffer_from_hex.induct) (auto split: option.splits)

theorem buffer_from_to_hex [codec_simps]: "buffer_from_hex (buffer_to_hex bs) = bs"
proof (induction bs)
  case (Cons b bs)
  have "16 * (unat b div 16) + unat b mod 16 = unat b"
    by (simp add: mult_div_mod_eq)
  with Cons show ?case
    by (simp add: byte_hex_def)
qed simp

lemma buffer_to_hex_append [simp]: "buffer_to_hex (xs @ ys) = buffer_to_hex xs @ buffer_to_hex ys"
  by (simp add: buffer_to_hex_def)

lemma buffer_to_hex_inj: "buffer_to_hex xs = buffer_to_hex ys \<Longrightarrow> xs = ys"
  by (metis buffer_from_to_hex)

definition is_hex_char :: "char \<Rightarrow> bool" where
  "is_hex_char c = (hex_val c \<noteq> None)"

definition is_lower_hex :: "char \<Rightarrow> bool" where
  "is_lower_hex c = (is_hex_char c \<and> \<not> (65 \<le> (of_char c :: nat) \<and> (of_char c :: nat) \<le> 70))"

lemma is_hex_char_digit [simp]: "n < 16 \<Longrightarrow> is_hex_char (hex_digit n)"
  by (simp add: is_hex_char_def)

lemma set_buffer_to_hex: "c \<in> set (buffer_to_hex bs) \<Longrightarrow> is_hex_char c"
  by (induction bs) (auto simp: byte_hex_def)

section \<open>Splitting text\<close>

text \<open>\<open>s.split(c)\<close> at a character; \<open>find_at\<close> cuts at the first occurrence of a text.\<close>

fun split_on :: "'a \<Rightarrow> 'a list \<Rightarrow> 'a list list" where
  "split_on c [] = [[]]"
| "split_on c (x # xs) =
     (if x = c then [] # split_on c xs else (case split_on c xs of [] \<Rightarrow> [[x]] | s # ss \<Rightarrow> (x # s) # ss))"

fun find_at :: "string \<Rightarrow> string \<Rightarrow> (string \<times> string) option" where
  "find_at sep [] = (if sep = [] then Some ([], []) else None)"
| "find_at sep (c # cs) =
     (if starts_with sep (c # cs) then Some ([], drop (length sep) (c # cs))
      else map_option (\<lambda>(b, a). (c # b, a)) (find_at sep cs))"

definition text_includes :: "string \<Rightarrow> string \<Rightarrow> bool" where
  "text_includes s sep = (find_at sep s \<noteq> None)"

lemma split_on_none: "c \<notin> set s \<Longrightarrow> split_on c s = [s]"
  by (induction s) auto

lemma split_on_append: "c \<notin> set s \<Longrightarrow> split_on c (s @ c # r) = s # split_on c r"
  by (induction s) auto

end
