(* ===== verification/Byte_Codec.thy ===== *)
theory Byte_Codec
  imports Js_Text
begin

unbundle bit_operations_syntax

text \<open>
  Fixed-width integer encodings in byte buffers (Node's \<open>Buffer\<close> and the typed arrays), and the
  interface of an encoding that can be read back: a \<open>codec\<close> inverts on the values it is meant
  for; a \<open>fixed_codec\<close> moreover always has the same length, so it can be read from the front of a
  longer buffer. Every encoding of the development interprets one of the two.
\<close>

section \<open>Encodings\<close>

locale codec =
  fixes enc :: "'a \<Rightarrow> 'b list"
    and dec :: "'b list \<Rightarrow> 'a option"
    and ok :: "'a \<Rightarrow> bool"
  assumes dec_enc: "ok x \<Longrightarrow> dec (enc x) = Some x"
begin

lemma enc_inj: "ok x \<Longrightarrow> ok y \<Longrightarrow> enc x = enc y \<Longrightarrow> x = y"
  using dec_enc by (metis option.inject)

lemma enc_inj_on: "inj_on enc {x. ok x}"
  by (rule inj_onI) (auto intro: enc_inj)

lemma dec_enc_list: "(\<And>x. x \<in> set xs \<Longrightarrow> ok x) \<Longrightarrow> map (dec \<circ> enc) xs = map Some xs"
  by (induction xs) (auto simp: dec_enc)

end

locale fixed_codec = codec +
  fixes width :: nat
  assumes enc_length: "ok x \<Longrightarrow> length (enc x) = width"
begin

lemma take_enc: "ok x \<Longrightarrow> take width (enc x @ r) = enc x"
  by (simp add: enc_length)

lemma drop_enc: "ok x \<Longrightarrow> drop width (enc x @ r) = r"
  by (simp add: enc_length)

lemma dec_front: "ok x \<Longrightarrow> dec (take width (enc x @ r)) = Some x"
  by (simp only: take_enc dec_enc)

lemma enc_prefix_inj: "ok x \<Longrightarrow> ok y \<Longrightarrow> enc x @ r = enc y @ s \<Longrightarrow> x = y \<and> r = s"
  using take_enc [of x r] take_enc [of y s] drop_enc [of x r] drop_enc [of y s] enc_inj by metis

end

interpretation decimal_text: codec "bigint_to_string 10" bigint_of_string "\<lambda>_. True"
  by unfold_locales simp

interpretation hex_bytes: codec buffer_to_hex "\<lambda>s. Some (buffer_from_hex s)" "\<lambda>_. True"
  by unfold_locales (simp add: codec_simps)

section \<open>Little-endian integers\<close>

fun le_bytes :: "nat \<Rightarrow> nat \<Rightarrow> byte list" where
  "le_bytes 0 v = []"
| "le_bytes (Suc k) v = word_of_nat (v mod 256) # le_bytes k (v div 256)"

fun le_value :: "byte list \<Rightarrow> nat" where
  "le_value [] = 0"
| "le_value (b # bs) = unat b + 256 * le_value bs"

lemma length_le_bytes [simp]: "length (le_bytes k v) = k"
  by (induction k arbitrary: v) auto

lemma unat_of_nat_byte [simp]: "unat (word_of_nat n :: byte) = n mod 256"
  by (simp add: unsigned_of_nat take_bit_eq_mod)

lemma le_value_le_bytes_mod: "le_value (le_bytes k v) = v mod 256 ^ k"
proof (induction k arbitrary: v)
  case (Suc k)
  have "v mod (256 * 256 ^ k) = 256 * (v div 256 mod 256 ^ k) + v mod 256"
    by (rule mod_mult2_eq)
  then show ?case
    by (simp add: Suc.IH)
qed simp

lemma le_value_less: "le_value bs < 256 ^ length bs"
proof (induction bs)
  case (Cons b bs)
  have "unat b < 256" by simp
  with Cons have "unat b + 256 * le_value bs < 256 * (le_value bs + 1)"
    by simp
  also have "\<dots> \<le> 256 * 256 ^ length bs"
    using Cons by (intro mult_le_mono2) simp
  finally show ?case by simp
qed simp

lemma le_bytes_le_value [simp]: "le_bytes (length bs) (le_value bs) = bs"
proof (induction bs)
  case (Cons b bs)
  have "(unat b + 256 * le_value bs) mod 256 = unat b"
    and "(unat b + 256 * le_value bs) div 256 = le_value bs"
    by (simp_all add: div_add1_eq)
  with Cons show ?case by simp
qed simp

lemma le_value_le_bytes [codec_simps]: "v < 256 ^ k \<Longrightarrow> le_value (le_bytes k v) = v"
  by (simp add: le_value_le_bytes_mod)

lemma le_value_append: "le_value (xs @ ys) = le_value xs + 256 ^ length xs * le_value ys"
  by (induction xs) (auto simp: algebra_simps)

interpretation u64le: fixed_codec "le_bytes 8" "\<lambda>bs. Some (le_value bs)" "\<lambda>v. v < 2 ^ 64" 8
  by unfold_locales (auto simp: le_value_le_bytes_mod)

interpretation u32le: fixed_codec "le_bytes 4" "\<lambda>bs. Some (le_value bs)" "\<lambda>v. v < 2 ^ 32" 4
  by unfold_locales (auto simp: le_value_le_bytes_mod)

section \<open>Buffer operations\<close>

text \<open>
  \<open>buf.writeBigUInt64LE(v)\<close> and \<open>buf.writeUInt32LE(v)\<close> into a fresh buffer of that size throw a
  RangeError (\<open>None\<close>) outside the unsigned range; \<open>DataView.setBigUint64(0, v, true)\<close> reduces
  modulo \<open>2 ^ 64\<close> instead. Reads throw when they leave the buffer.
\<close>

definition write_u64_le :: "int \<Rightarrow> byte list option" where
  "write_u64_le v = (if 0 \<le> v \<and> v < 2 ^ 64 then Some (le_bytes 8 (nat v)) else None)"

definition write_u32_le :: "int \<Rightarrow> byte list option" where
  "write_u32_le v = (if 0 \<le> v \<and> v < 2 ^ 32 then Some (le_bytes 4 (nat v)) else None)"

definition set_big_uint64_le :: "int \<Rightarrow> byte list" where
  "set_big_uint64_le v = le_bytes 8 (nat (v mod 2 ^ 64))"

definition subarray :: "nat \<Rightarrow> nat \<Rightarrow> byte list \<Rightarrow> byte list" where
  "subarray i j bs = take (j - i) (drop i bs)"

definition read_uint_le :: "nat \<Rightarrow> byte list \<Rightarrow> nat \<Rightarrow> nat option" where
  "read_uint_le k bs off =
     (if off + k \<le> length bs then Some (le_value (subarray off (off + k) bs)) else None)"

text \<open>\<open>Buffer.alloc(n)\<close> filled by \<open>src.copy(buf)\<close>.\<close>

definition copy_to_new :: "nat \<Rightarrow> byte list \<Rightarrow> byte list" where
  "copy_to_new n src = take n src @ replicate (n - length src) 0"

lemma length_copy_to_new [simp]: "length (copy_to_new n src) = n"
  by (simp add: copy_to_new_def)

lemma copy_to_new_exact [simp]: "length src = n \<Longrightarrow> copy_to_new n src = src"
  by (simp add: copy_to_new_def)

lemma write_u64_le_Some: "write_u64_le v = Some bs \<Longrightarrow> length bs = 8 \<and> int (le_value bs) = v"
  by (auto simp: write_u64_le_def le_value_le_bytes_mod nat_mod_distrib split: if_splits)

lemma write_u32_le_Some: "write_u32_le v = Some bs \<Longrightarrow> length bs = 4 \<and> int (le_value bs) = v"
  by (auto simp: write_u32_le_def le_value_le_bytes_mod nat_mod_distrib split: if_splits)

lemma length_set_big_uint64_le [simp]: "length (set_big_uint64_le v) = 8"
  by (simp add: set_big_uint64_le_def)

lemma le_value_set_big_uint64_le [codec_simps]:
  "int (le_value (set_big_uint64_le v)) = v mod 2 ^ 64"
  by (simp add: set_big_uint64_le_def le_value_le_bytes_mod nat_mod_distrib)

lemma length_subarray: "length (subarray i j bs) = min (j - i) (length bs - i)"
  by (simp add: subarray_def min.commute)

lemma subarray_append [simp]:
  "length xs = i \<Longrightarrow> length ys = j - i \<Longrightarrow> subarray i j (xs @ ys @ zs) = ys"
  by (simp add: subarray_def)

lemma read_uint_le_append:
  "length xs = off \<Longrightarrow> length ys = k \<Longrightarrow> read_uint_le k (xs @ ys @ zs) off = Some (le_value ys)"
  by (simp add: read_uint_le_def subarray_def)

section \<open>Big-endian 32-byte field elements\<close>

text \<open>
  The loop of \<open>bigintToBeBytes\<close> (sdk/typescript/src/client.ts): from index 31 down to 0, the low
  byte is stored and the value shifted right, so the accumulated suffix grows at its front.
\<close>

fun be_loop :: "nat \<Rightarrow> int \<Rightarrow> byte list \<Rightarrow> byte list" where
  "be_loop 0 bi acc = acc"
| "be_loop (Suc i) bi acc = be_loop i (drop_bit 8 bi) (word_of_int (bi AND 255) # acc)"

definition bigint_to_be_bytes :: "int \<Rightarrow> byte list" where
  "bigint_to_be_bytes bi = be_loop 32 bi []"

definition be_value :: "byte list \<Rightarrow> nat" where
  "be_value bs = le_value (rev bs)"

lemma and_255: "bi AND 255 = bi mod (256 :: int)"
proof -
  have "bi AND 255 = take_bit 8 bi"
    by (simp add: take_bit_eq_mask mask_eq_exp_minus_1)
  then show ?thesis by (simp add: take_bit_eq_mod)
qed

lemma be_loop_le_bytes:
  "be_loop k bi acc = rev (le_bytes k (nat (bi mod 256 ^ k))) @ acc"
proof (induction k arbitrary: bi acc)
  case (Suc k)
  have pos: "0 \<le> bi mod (256 * 256 ^ k)" by simp
  have lo: "nat (bi mod (256 * 256 ^ k)) mod 256 = nat (bi mod 256)"
  proof -
    have "bi mod (256 * 256 ^ k) mod 256 = bi mod 256"
      by (rule mod_mod_cancel) simp
    moreover have "nat (bi mod (256 * 256 ^ k) mod 256) = nat (bi mod (256 * 256 ^ k)) mod 256"
      using pos by (subst nat_mod_distrib) auto
    ultimately show ?thesis by simp
  qed
  have "bi mod (256 * 256 ^ k) = 256 * (bi div 256 mod 256 ^ k) + bi mod 256"
    by (rule zmod_zmult2_eq) simp
  then have hi: "nat (bi mod (256 * 256 ^ k)) div 256 = nat (bi div 256 mod 256 ^ k)"
    by (simp add: nat_div_distrib [symmetric] div_add1_eq)
  have w: "(word_of_nat (nat (bi mod 256)) :: byte) = word_of_int (bi mod 256)"
    by simp
  have "be_loop (Suc k) bi acc =
      rev (le_bytes k (nat (bi div 256 mod 256 ^ k))) @ word_of_int (bi mod 256) # acc"
    by (simp add: Suc.IH and_255 drop_bit_eq_div)
  then show ?case
    by (simp only: le_bytes.simps power_Suc lo hi w rev.simps append_assoc append_Cons append_Nil)
qed simp

lemma length_bigint_to_be_bytes [simp]: "length (bigint_to_be_bytes bi) = 32"
  by (simp add: bigint_to_be_bytes_def be_loop_le_bytes)

lemma be_value_bigint_to_be_bytes:
  "int (be_value (bigint_to_be_bytes bi)) = bi mod 2 ^ 256"
  by (simp add: be_value_def bigint_to_be_bytes_def be_loop_le_bytes le_value_le_bytes_mod
      nat_mod_distrib)

interpretation field_be: fixed_codec bigint_to_be_bytes "\<lambda>bs. Some (int (be_value bs))"
  "\<lambda>v. 0 \<le> v \<and> v < 2 ^ 256" 32
  by unfold_locales (auto simp: be_value_bigint_to_be_bytes)

end
