(* ===== verification/Sdk_Poseidon.thy ===== *)
theory Sdk_Poseidon
  imports Byte_Codec
begin

text \<open>
  sdk/typescript/src/poseidon.ts. The hash itself comes from circomlibjs and is a parameter
  \<open>poseidon\<close>; what the code adds is the conversion between field elements and 32-byte
  hexadecimal strings, which is defined here and proved to be a codec.
\<close>

section \<open>The hash as a parameter\<close>

text \<open>The order of the BN254 scalar field; circomlibjs documents its results as reduced modulo it.\<close>

definition bn254_order :: int where
  "bn254_order = 21888242871839275222246405745257275088548364400416034343698204186575808495617"

definition field_hash :: "(int list \<Rightarrow> int) \<Rightarrow> bool" where
  "field_hash poseidon \<longleftrightarrow> (\<forall>xs. 0 \<le> poseidon xs \<and> poseidon xs < bn254_order)"

lemma bn254_order_less: "bn254_order < 16 ^ 64"
  by (simp add: bn254_order_def)

section \<open>Field elements as text\<close>

definition fieldToHex :: "int \<Rightarrow> string" where
  "fieldToHex field = pad_start 64 (CHR ''0'') (bigint_to_string 16 field)"

definition zero_hash :: string where
  "zero_hash = replicate 64 (CHR ''0'')"

definition hexToField :: "string \<Rightarrow> js_error + int" where
  "hexToField hex =
     (let cleaned = (if starts_with ''0x'' hex then drop 2 hex else hex) in
      if cleaned = zero_hash then Inr 0
      else (case bigint_of_string (''0x'' @ cleaned) of
              None \<Rightarrow> Inl SyntaxError
            | Some v \<Rightarrow> Inr v))"

definition poseidonHash :: "(int list \<Rightarrow> int) \<Rightarrow> int list \<Rightarrow> int" where
  "poseidonHash poseidon inputs = poseidon inputs"

definition poseidonHash2 :: "(int list \<Rightarrow> int) \<Rightarrow> int \<Rightarrow> int \<Rightarrow> int" where
  "poseidonHash2 poseidon a b = poseidonHash poseidon [a, b]"

definition poseidonHashHex :: "(int list \<Rightarrow> int) \<Rightarrow> int list \<Rightarrow> string" where
  "poseidonHashHex poseidon inputs = fieldToHex (poseidonHash poseidon inputs)"

section \<open>Reading a hexadecimal literal\<close>

lemma digit_val_no_space: "digit_val b c = Some d \<Longrightarrow> \<not> js_space c"
  by (auto simp: digit_val_def hex_val_def js_space_def Let_def split: if_splits option.splits)

lemma read_digits_no_space: "read_digits b s = Some ds \<Longrightarrow> c \<in> set s \<Longrightarrow> \<not> js_space c"
  by (induction s arbitrary: ds) (auto split: option.splits dest: digit_val_no_space)

lemma bigint_of_0x:
  assumes "read_digits 16 s = Some ds" "s \<noteq> []"
  shows "bigint_of_string (''0x'' @ s) = Some (int (digits_value 16 ds))"
proof -
  have "js_trim (''0x'' @ s) = ''0x'' @ s"
    by (rule js_trim_digits)
      (use assms(1) read_digits_no_space in \<open>auto simp: js_space_def\<close>)
  then show ?thesis
    using assms by (simp add: bigint_of_string_def Let_def starts_with_def unsigned_literal_def)
qed

lemma read_digits_fieldToHex:
  assumes "0 \<le> f"
  shows "read_digits 16 (fieldToHex f) =
    Some (replicate (64 - length (nat_to_string 16 (nat f))) 0 @ digits 16 (nat f))"
  using assms
  by (simp add: fieldToHex_def pad_start_def bigint_to_string_def read_digits_append
      read_digits_nat_to_string)

lemma length_fieldToHex:
  assumes "0 \<le> f" "f < 16 ^ 64"
  shows "length (fieldToHex f) = 64"
proof -
  have "nat f < 16 ^ 64"
    using assms by (simp add: nat_less_iff)
  then have "length (digits 16 (nat f)) \<le> 64"
    by (intro length_digits_le) auto
  then show ?thesis
    using assms by (simp add: fieldToHex_def length_pad_start bigint_to_string_def nat_to_string_def)
qed

lemma hex_first_char:
  assumes "read_digits 16 s = Some ds"
  shows "\<not> starts_with ''0x'' s"
proof
  assume "starts_with ''0x'' s"
  then obtain t where "s = ''0x'' @ t"
    by (metis append_take_drop_id starts_with_def)
  with assms show False
    by (simp add: digit_val_def hex_val_def split: option.splits)
qed

lemma read_digits_zero_hash: "read_digits 16 zero_hash = Some (replicate 64 0)"
  by (simp add: zero_hash_def)

lemma hexToField_literal:
  assumes "read_digits 16 s = Some ds" "s \<noteq> []"
  shows "hexToField s = Inr (int (digits_value 16 ds))"
proof (cases "s = zero_hash")
  case True
  with assms have "ds = replicate 64 0"
    by (simp add: read_digits_zero_hash)
  then have "digits_value 16 ds = 0"
    using digits_value_zeros [of 16 64 "[]"] by simp
  with True hex_first_char [OF assms(1)] show ?thesis
    by (simp add: hexToField_def)
next
  case False
  with hex_first_char [OF assms(1)] bigint_of_0x [OF assms] show ?thesis
    by (simp add: hexToField_def)
qed

lemma fieldToHex_nonempty [simp]: "fieldToHex f \<noteq> []"
  by (simp add: fieldToHex_def pad_start_def bigint_to_string_def)

lemma hexToField_fieldToHex [codec_simps]:
  "0 \<le> f \<Longrightarrow> hexToField (fieldToHex f) = Inr f"
  by (simp add: hexToField_literal [OF read_digits_fieldToHex])

definition hexToField_opt :: "string \<Rightarrow> int option" where
  "hexToField_opt s = (case hexToField s of Inl e \<Rightarrow> None | Inr v \<Rightarrow> Some v)"

text \<open>The field-element text is a fixed-width codec on the 256-bit range.\<close>

interpretation field_text: fixed_codec fieldToHex hexToField_opt "\<lambda>f. 0 \<le> f \<and> f < 16 ^ 64" 64
  by unfold_locales (auto simp: hexToField_opt_def hexToField_fieldToHex length_fieldToHex)

lemma field_hash_range:
  "field_hash poseidon \<Longrightarrow> 0 \<le> poseidon xs \<and> poseidon xs < 16 ^ 64"
  using bn254_order_less unfolding field_hash_def by (meson less_trans)

lemma poseidonHashHex_length:
  "field_hash poseidon \<Longrightarrow> length (poseidonHashHex poseidon xs) = 64"
  unfolding poseidonHashHex_def poseidonHash_def
  by (rule length_fieldToHex) (simp_all only: field_hash_range)

lemma hexToField_poseidonHashHex:
  "field_hash poseidon \<Longrightarrow> hexToField (poseidonHashHex poseidon xs) = Inr (poseidon xs)"
  by (simp add: poseidonHashHex_def poseidonHash_def codec_simps field_hash_range)

lemma poseidonHashHex_inj:
  assumes "field_hash poseidon" "poseidonHashHex poseidon xs = poseidonHashHex poseidon ys"
  shows "poseidon xs = poseidon ys"
  using assms field_text.enc_inj field_hash_range
  unfolding poseidonHashHex_def poseidonHash_def by blast

section \<open>Keys as hexadecimal text\<close>

lemma read_digits_buffer_to_hex: "\<exists>ds. read_digits 16 (buffer_to_hex bs) = Some ds"
  by (induction bs) (auto simp: byte_hex_def split: option.splits)

lemma hexToField_buffer_to_hex:
  assumes "bs \<noteq> []"
  shows "\<exists>v. hexToField (buffer_to_hex bs) = Inr v \<and> 0 \<le> v"
proof -
  obtain ds where "read_digits 16 (buffer_to_hex bs) = Some ds"
    using read_digits_buffer_to_hex by blast
  moreover have "buffer_to_hex bs \<noteq> []"
    using assms by (cases bs) (auto simp: byte_hex_def)
  ultimately show ?thesis
    using hexToField_literal by force
qed

end
