(* ===== verification/Sdk_Encryption.thy ===== *)
theory Sdk_Encryption
  imports Sdk_Poseidon
begin

text \<open>
  sdk/typescript/src/encryption.ts: encrypted notes. The plaintext layout, the hexadecimal
  conversions and the composition of the steps are the code's and are defined here. The BabyJubJub
  curve and Poseidon (circomlibjs), HKDF and AES-GCM (WebCrypto) are parameters, gathered in the
  records \<open>curve\<close> and \<open>cipher\<close>; what is assumed of them is \<open>curve_ok\<close> and \<open>cipher_ok\<close>.
\<close>

section \<open>Data\<close>

record EncryptedNote =
  ephemeralPubKey :: "string \<times> string"
  ciphertext :: "byte list"

record NotePlaintext =
  pt_value :: int
  pt_blinding :: string
  pt_assetId :: string

section \<open>Hexadecimal helpers\<close>

definition bytesToHex :: "byte list \<Rightarrow> string" where
  "bytesToHex bytes = concat (map (\<lambda>b. pad_start 2 (CHR ''0'') (nat_to_string 16 (unat b))) bytes)"

text \<open>Storing a Number in a \<open>Uint8Array\<close>: NaN becomes 0, an integer is reduced modulo 256.\<close>

definition uint8_of :: "int option \<Rightarrow> byte" where
  "uint8_of v = (case v of None \<Rightarrow> 0 | Some i \<Rightarrow> word_of_int i)"

definition substring :: "nat \<Rightarrow> nat \<Rightarrow> string \<Rightarrow> string" where
  "substring i j s = take (j - i) (drop i s)"

definition hexToBytes32 :: "string \<Rightarrow> byte list" where
  "hexToBytes32 hex = map (\<lambda>i. uint8_of (parse_int 16 (substring (i * 2) (i * 2 + 2) hex))) [0..<32]"

text \<open>\<open>hexToBytes(hex, target, offset)\<close> overwrites 32 bytes of the target.\<close>

definition hexToBytes :: "string \<Rightarrow> byte list \<Rightarrow> nat \<Rightarrow> byte list" where
  "hexToBytes hex target off =
     fold (\<lambda>i t. t[off + i := uint8_of (parse_int 16 (substring (i * 2) (i * 2 + 2) hex))])
       [0..<32] target"

lemma nat_to_string_byte:
  "pad_start 2 (CHR ''0'') (nat_to_string 16 (unat (b :: byte))) = byte_hex b"
proof (cases "unat b < 16")
  case True
  then show ?thesis
    by (simp add: nat_to_string_def digits.simps [of 16 "unat b"] pad_start_def byte_hex_def
        hex_digit_def numeral_2_eq_2)
next
  case False
  then show ?thesis
    by (simp add: nat_to_string_def digits.simps [of 16 "unat b"]
        digits.simps [of 16 "unat b div 16"] pad_start_def byte_hex_def)
qed

lemma bytesToHex_eq [codec_simps]: "bytesToHex bs = buffer_to_hex bs"
  by (simp add: bytesToHex_def nat_to_string_byte buffer_to_hex_def)

lemma hex_digit_no_sign:
  "n < 16 \<Longrightarrow> hex_digit n \<noteq> CHR ''-'' \<and> hex_digit n \<noteq> CHR ''+'' \<and> hex_digit n \<noteq> CHR ''x''
     \<and> hex_digit n \<noteq> CHR ''X''"
  by (erule below_16) (simp add: upt_conv_Cons hex_digit_def)

lemma parse_int_byte_hex: "parse_int 16 (byte_hex b) = Some (int (unat b))"
proof -
  have ns: "hex_digit (unat b div 16) \<noteq> CHR ''-''" "hex_digit (unat b div 16) \<noteq> CHR ''+''"
    "hex_digit (unat b mod 16) \<noteq> CHR ''x''" "hex_digit (unat b mod 16) \<noteq> CHR ''X''"
    using hex_digit_no_sign [of "unat b div 16"] hex_digit_no_sign [of "unat b mod 16"] by auto
  have "digits_value 16 [unat b div 16, unat b mod 16] = unat b"
    by (simp add: digits_value_Cons)
  then show ?thesis
    using ns
    by (simp add: parse_int_def parse_unsigned_prefix_def trim_start_def byte_hex_def
        starts_with_def Let_def)
qed

lemma uint8_of_byte_hex [simp]: "uint8_of (parse_int 16 (byte_hex b)) = b"
  by (simp add: parse_int_byte_hex uint8_of_def)

lemma substring_buffer_to_hex:
  "i < length bs \<Longrightarrow> substring (i * 2) (i * 2 + 2) (buffer_to_hex bs @ r) = byte_hex (bs ! i)"
proof (induction bs arbitrary: i)
  case (Cons b bs)
  then show ?case
    by (cases i) (auto simp: substring_def byte_hex_def)
qed simp

lemma hexToBytes32_buffer_to_hex [codec_simps]:
  assumes "length bs = 32"
  shows "hexToBytes32 (buffer_to_hex bs) = bs"
proof -
  have "hexToBytes32 (buffer_to_hex bs) = map (\<lambda>i. bs ! i) [0..<32]"
    unfolding hexToBytes32_def
    using assms substring_buffer_to_hex [of _ bs "[]"] by (intro map_cong) auto
  with assms show ?thesis
    by (metis map_nth)
qed

lemma fold_list_update:
  "off + n \<le> length t \<Longrightarrow>
     fold (\<lambda>i t. t[off + i := f i]) [0..<n] t = take off t @ map f [0..<n] @ drop (off + n) t"
proof (induction n)
  case (Suc n)
  then have "fold (\<lambda>i t. t[off + i := f i]) [0..<Suc n] t
      = (take off t @ map f [0..<n] @ drop (off + n) t)[off + n := f n]"
    by simp
  also have "\<dots> = take off t @ map f [0..<n] @ (drop (off + n) t)[0 := f n]"
    using Suc.prems by (simp add: list_update_append)
  also have "(drop (off + n) t)[0 := f n] = f n # drop (off + Suc n) t"
    using Suc.prems by (simp add: Cons_nth_drop_Suc [symmetric])
  finally show ?case by simp
qed simp

lemma hexToBytes_eq:
  "off + 32 \<le> length t \<Longrightarrow> hexToBytes hex t off = take off t @ hexToBytes32 hex @ drop (off + 32) t"
  unfolding hexToBytes_def hexToBytes32_def by (rule fold_list_update)

section \<open>Plaintext layout\<close>

definition encodePlaintext :: "NotePlaintext \<Rightarrow> byte list" where
  "encodePlaintext p =
     (let buf = set_big_uint64_le (pt_value p) @ replicate 64 0;
          buf = hexToBytes (pt_blinding p) buf 8
      in hexToBytes (pt_assetId p) buf 40)"

definition decodePlaintext :: "byte list \<Rightarrow> NotePlaintext option" where
  "decodePlaintext buf =
     (case read_uint_le 8 buf 0 of
        None \<Rightarrow> None
      | Some v \<Rightarrow> Some \<lparr>pt_value = int v, pt_blinding = bytesToHex (subarray 8 40 buf),
                      pt_assetId = bytesToHex (subarray 40 72 buf)\<rparr>)"

lemma encodePlaintext_eq:
  "encodePlaintext p =
     set_big_uint64_le (pt_value p) @ hexToBytes32 (pt_blinding p) @ hexToBytes32 (pt_assetId p)"
  by (simp add: encodePlaintext_def hexToBytes_eq hexToBytes32_def)

lemma length_hexToBytes32 [simp]: "length (hexToBytes32 hex) = 32"
  by (simp add: hexToBytes32_def)

text \<open>A plaintext the layout can carry: an unsigned 64-bit value, 32-byte lower-case fields.\<close>

definition hash_text :: "string \<Rightarrow> bool" where
  "hash_text s = (\<exists>bs. length bs = 32 \<and> s = buffer_to_hex bs)"

definition plaintext_ok :: "NotePlaintext \<Rightarrow> bool" where
  "plaintext_ok p \<longleftrightarrow>
     0 \<le> pt_value p \<and> pt_value p < 2 ^ 64 \<and> hash_text (pt_blinding p) \<and> hash_text (pt_assetId p)"

lemma hash_text_bytes: "hash_text s \<Longrightarrow> buffer_to_hex (hexToBytes32 s) = s"
  by (auto simp: hash_text_def codec_simps)

lemma decode_encode_value:
  "decodePlaintext (encodePlaintext p) =
     Some \<lparr>pt_value = pt_value p mod 2 ^ 64,
           pt_blinding = buffer_to_hex (hexToBytes32 (pt_blinding p)),
           pt_assetId = buffer_to_hex (hexToBytes32 (pt_assetId p))\<rparr>"
proof -
  let ?v = "set_big_uint64_le (pt_value p)"
  have "read_uint_le 8 (encodePlaintext p) 0 = Some (le_value ?v)"
    using read_uint_le_append [of "[]" 0 ?v 8] by (simp add: encodePlaintext_eq)
  moreover have "subarray 8 40 (encodePlaintext p) = hexToBytes32 (pt_blinding p)"
    by (simp add: encodePlaintext_eq)
  moreover have "subarray 40 72 (encodePlaintext p) = hexToBytes32 (pt_assetId p)"
    using subarray_append [of "?v @ hexToBytes32 (pt_blinding p)" 40 "hexToBytes32 (pt_assetId p)" 72 "[]"]
    by (simp add: encodePlaintext_eq)
  ultimately show ?thesis
    by (simp add: decodePlaintext_def codec_simps)
qed

interpretation plaintext_layout: fixed_codec encodePlaintext decodePlaintext plaintext_ok 72
proof
  fix p assume "plaintext_ok p"
  then show "decodePlaintext (encodePlaintext p) = Some p"
    by (simp add: decode_encode_value plaintext_ok_def hash_text_bytes)
  show "length (encodePlaintext p) = 72"
    by (simp add: encodePlaintext_eq)
qed

section \<open>Curve and cipher as parameters\<close>

text \<open>
  \<open>mulPoint\<close> is \<open>babyjub.mulPointEscalar\<close>, \<open>base8\<close> is \<open>babyjub.Base8\<close>, \<open>toObject\<close> and \<open>fe\<close>
  are \<open>F.toObject\<close> and \<open>F.e\<close>, \<open>poseidonF\<close> the Poseidon function on field elements. \<open>hkdf\<close> takes
  the input key, the salt and the info string; \<open>aes_decrypt\<close> returns \<open>None\<close> when the tag fails.
\<close>

record 'f curve =
  mulPoint :: "'f \<times> 'f \<Rightarrow> int \<Rightarrow> 'f \<times> 'f"
  base8 :: "'f \<times> 'f"
  subOrder :: int
  toObject :: "'f \<Rightarrow> int"
  fe :: "int \<Rightarrow> 'f"
  poseidonF :: "'f list \<Rightarrow> 'f"

record cipher =
  hkdf :: "byte list \<Rightarrow> byte list \<Rightarrow> string \<Rightarrow> byte list"
  aes_encrypt :: "byte list \<Rightarrow> byte list \<Rightarrow> byte list \<Rightarrow> byte list"
  aes_decrypt :: "byte list \<Rightarrow> byte list \<Rightarrow> byte list \<Rightarrow> byte list option"

definition curve_ok :: "'f curve \<Rightarrow> bool" where
  "curve_ok C \<longleftrightarrow>
     0 < subOrder C \<and>
     (\<forall>x. 0 \<le> toObject C x \<and> toObject C x < 16 ^ 64 \<and> fe C (toObject C x) = x) \<and>
     (\<forall>a b. mulPoint C (mulPoint C (base8 C) a) b = mulPoint C (mulPoint C (base8 C) b) a)"

definition cipher_ok :: "cipher \<Rightarrow> bool" where
  "cipher_ok A \<longleftrightarrow> (\<forall>k iv p. aes_decrypt A k iv (aes_encrypt A k iv p) = Some p)"

definition HKDF_INFO :: string where
  "HKDF_INFO = ''holanc-note-v1''"

definition IV_LENGTH :: nat where
  "IV_LENGTH = 12"

definition hkdfDeriveKey :: "cipher \<Rightarrow> byte list \<Rightarrow> byte list" where
  "hkdfDeriveKey A ikm = hkdf A ikm (replicate 32 0) HKDF_INFO"

definition bigint_of_hex :: "string \<Rightarrow> int option" where
  "bigint_of_hex s = bigint_of_string (''0x'' @ s)"

definition point_hex :: "'f curve \<Rightarrow> 'f \<times> 'f \<Rightarrow> string \<times> string" where
  "point_hex C P = (fieldToHex (toObject C (fst P)), fieldToHex (toObject C (snd P)))"

definition point_of_hex :: "'f curve \<Rightarrow> string \<times> string \<Rightarrow> ('f \<times> 'f) option" where
  "point_of_hex C xy =
     (case (bigint_of_hex (fst xy), bigint_of_hex (snd xy)) of
        (Some x, Some y) \<Rightarrow> Some (fe C x, fe C y)
      | _ \<Rightarrow> None)"

definition shared_key :: "'f curve \<Rightarrow> cipher \<Rightarrow> 'f \<times> 'f \<Rightarrow> byte list" where
  "shared_key C A P =
     hkdfDeriveKey A (hexToBytes32 (fieldToHex (toObject C (poseidonF C [fst P, snd P]))))"

section \<open>Encryption and decryption\<close>

text \<open>
  \<open>encryptNote\<close> draws 32 random bytes until the scalar is not zero; the draws are a list, and
  \<open>None\<close> means that every draw given was rejected. A malformed recipient key throws.
\<close>

fun encryptNote :: "'f curve \<Rightarrow> cipher \<Rightarrow> byte list list \<Rightarrow> byte list \<Rightarrow>
    NotePlaintext \<Rightarrow> string \<times> string \<Rightarrow> (js_error + EncryptedNote) option" where
  "encryptNote C A [] iv plaintext recipientPub = None"
| "encryptNote C A (ephBytes # draws) iv plaintext recipientPub =
     (case bigint_of_hex (bytesToHex ephBytes) of
        None \<Rightarrow> Some (Inl SyntaxError)
      | Some raw \<Rightarrow>
          (let ephScalar = raw mod subOrder C in
           if ephScalar = 0 then encryptNote C A draws iv plaintext recipientPub
           else (case point_of_hex C recipientPub of
                   None \<Rightarrow> Some (Inl SyntaxError)
                 | Some recipPoint \<Rightarrow>
                     (let sharedPoint = mulPoint C recipPoint ephScalar;
                          aesKey = shared_key C A sharedPoint;
                          encrypted = aes_encrypt A aesKey iv (encodePlaintext plaintext)
                      in Some (Inr \<lparr>ephemeralPubKey = point_hex C (mulPoint C (base8 C) ephScalar),
                                   ciphertext = iv @ encrypted\<rparr>)))))"

definition decryptNote :: "'f curve \<Rightarrow> cipher \<Rightarrow> EncryptedNote \<Rightarrow> string \<Rightarrow> NotePlaintext option" where
  "decryptNote C A encrypted recipientKey =
     (case (bigint_of_hex recipientKey, point_of_hex C (ephemeralPubKey encrypted)) of
        (Some key, Some ephPoint) \<Rightarrow>
          (let viewingScalar = key mod subOrder C;
               sharedPoint = mulPoint C ephPoint viewingScalar;
               aesKey = shared_key C A sharedPoint;
               iv = take IV_LENGTH (ciphertext encrypted);
               ct = drop IV_LENGTH (ciphertext encrypted)
           in (case aes_decrypt A aesKey iv ct of
                 None \<Rightarrow> None
               | Some buf \<Rightarrow> decodePlaintext buf))
      | _ \<Rightarrow> None)"

definition scanNotes :: "'f curve \<Rightarrow> cipher \<Rightarrow> EncryptedNote list \<Rightarrow> string \<Rightarrow> NotePlaintext list" where
  "scanNotes C A encryptedNotes recipientKey =
     List.map_filter (\<lambda>enc. decryptNote C A enc recipientKey) encryptedNotes"

lemma bigint_of_hex_fieldToHex [simp]: "0 \<le> f \<Longrightarrow> bigint_of_hex (fieldToHex f) = Some f"
  unfolding bigint_of_hex_def
  by (subst bigint_of_0x [OF read_digits_fieldToHex]) auto

lemma point_of_point_hex [simp]: "curve_ok C \<Longrightarrow> point_of_hex C (point_hex C P) = Some P"
  by (simp add: point_of_hex_def point_hex_def curve_ok_def)

lemma bigint_of_hex_bytes:
  "bs \<noteq> [] \<Longrightarrow> \<exists>v. bigint_of_hex (buffer_to_hex bs) = Some v \<and> 0 \<le> v"
proof -
  assume "bs \<noteq> []"
  then have "buffer_to_hex bs \<noteq> []"
    by (cases bs) (auto simp: byte_hex_def)
  moreover obtain ds where "read_digits 16 (buffer_to_hex bs) = Some ds"
    using read_digits_buffer_to_hex by blast
  ultimately show ?thesis
    unfolding bigint_of_hex_def by (force dest: bigint_of_0x)
qed

text \<open>The public key that belongs to a secret, as \<open>generateBjjKeypair\<close> publishes it.\<close>

definition key_pair :: "'f curve \<Rightarrow> string \<Rightarrow> string \<times> string \<Rightarrow> bool" where
  "key_pair C secret public \<longleftrightarrow>
     (\<exists>k. bigint_of_hex secret = Some k \<and>
          public = point_hex C (mulPoint C (base8 C) (k mod subOrder C)))"

lemma decrypt_of_encrypt:
  assumes "curve_ok C" "cipher_ok A" "key_pair C sk pk" "length iv = IV_LENGTH"
    and "encryptNote C A draws iv p pk = Some (Inr e)"
  shows "decryptNote C A e sk = decodePlaintext (encodePlaintext p)"
  using assms(5)
proof (induction draws)
  case (Cons d draws)
  obtain k where k: "bigint_of_hex sk = Some k"
    and pk: "pk = point_hex C (mulPoint C (base8 C) (k mod subOrder C))"
    using assms(3) by (auto simp: key_pair_def)
  have comm: "mulPoint C (mulPoint C (base8 C) a) b = mulPoint C (mulPoint C (base8 C) b) a" for a b
    using assms(1) by (simp add: curve_ok_def)
  have dec: "aes_decrypt A key iv (aes_encrypt A key iv q) = Some q" for key q
    using assms(2) by (simp add: cipher_ok_def)
  obtain raw where raw: "bigint_of_hex (bytesToHex d) = Some raw"
    using Cons.prems by (auto split: option.splits)
  show ?case
  proof (cases "raw mod subOrder C = 0")
    case True
    with Cons raw show ?thesis by (simp add: Let_def)
  next
    case False
    let ?r = "raw mod subOrder C" and ?s = "k mod subOrder C"
    let ?P = "mulPoint C (mulPoint C (base8 C) ?s) ?r"
    have e: "e = \<lparr>ephemeralPubKey = point_hex C (mulPoint C (base8 C) ?r),
        ciphertext = iv @ aes_encrypt A (shared_key C A ?P) iv (encodePlaintext p)\<rparr>"
      using Cons.prems raw False assms(1) by (simp add: Let_def pk)
    have "mulPoint C (mulPoint C (base8 C) ?r) ?s = ?P"
      by (rule comm)
    then show ?thesis
      using assms(1,4) by (simp add: e decryptNote_def Let_def k dec)
  qed
qed simp

lemma encrypt_returns:
  assumes "curve_ok C" "pk = point_hex C P" "d \<in> set draws" "\<forall>x \<in> set draws. length x = 32"
    and "bigint_of_hex (bytesToHex d) = Some raw" "raw mod subOrder C \<noteq> 0"
  shows "\<exists>e. encryptNote C A draws iv p pk = Some (Inr e)"
  using assms(3,4)
proof (induction draws)
  case (Cons x draws)
  then have "x \<noteq> []"
    by auto
  then obtain v where "bigint_of_hex (buffer_to_hex x) = Some v"
    using bigint_of_hex_bytes by blast
  with Cons assms show ?case
    by (auto simp: Let_def codec_simps)
qed simp

end
