(* ===== verification/Sdk_Wallet.thy ===== *)
theory Sdk_Wallet
  imports Sdk_Encryption
begin

text \<open>
  sdk/typescript/src/wallet.ts: the note wallet. The object is the record \<open>Wallet\<close>; a method is an
  \<open>effect\<close> on it. The wallet hands out references to its own note objects, so a note is named by
  its position in \<open>wnotes\<close> (the array is only ever appended to). The Poseidon hash, the BIP-39
  functions, the clock, the random draws, the decryption of an incoming note and the HTTP
  transport are arguments.
\<close>

section \<open>Data\<close>

record Note =
  owner :: string
  noteValue :: int
  assetId :: string
  blinding :: string
  commitment :: string
  nullifier :: string
  leafIndex :: "int option"
  spent :: bool
  pending :: "bool option"

record TxRecord =
  kind :: string
  tx_amount :: int
  timestamp :: int

record Wallet =
  spendingKey :: "byte list"
  viewingKey :: string
  wnotes :: "Note list"
  txHistory :: "TxRecord list"
  nextBlinding :: int
  lastSyncedLeaf :: int

definition newWallet :: "byte list \<Rightarrow> Wallet" where
  "newWallet key = \<lparr>spendingKey = key, viewingKey = zero_hash, wnotes = [], txHistory = [],
     nextBlinding = 0, lastSyncedLeaf = -1\<rparr>"

section \<open>Keys\<close>

definition spendingKeyHex :: "Wallet \<Rightarrow> string" where
  "spendingKeyHex w = buffer_to_hex (spendingKey w)"

definition initViewingKey :: "(int list \<Rightarrow> int) \<Rightarrow> Wallet \<Rightarrow> js_error + Wallet" where
  "initViewingKey poseidon w =
     bind_result (hexToField (spendingKeyHex w))
       (\<lambda>k. Inr (w\<lparr>viewingKey := poseidonHashHex poseidon [k]\<rparr>))"

definition fromKey :: "(int list \<Rightarrow> int) \<Rightarrow> byte list \<Rightarrow> js_error + Wallet" where
  "fromKey poseidon key =
     (if length key \<noteq> 32 then Inl (Error ''Spending key must be 32 bytes'')
      else initViewingKey poseidon (newWallet key))"

definition fromMnemonic :: "(int list \<Rightarrow> int) \<Rightarrow> (string \<Rightarrow> bool) \<Rightarrow> (string \<Rightarrow> byte list) \<Rightarrow>
    string \<Rightarrow> js_error + Wallet" where
  "fromMnemonic poseidon validateMnemonic mnemonicToSeed mnemonic =
     (if \<not> validateMnemonic mnemonic then Inl (Error ''Invalid mnemonic'')
      else initViewingKey poseidon (newWallet (take 32 (mnemonicToSeed mnemonic))))"

text \<open>\<open>generate\<close> with the mnemonic drawn by bip39, \<open>random\<close> with the 32 bytes drawn.\<close>

definition generate :: "(int list \<Rightarrow> int) \<Rightarrow> (string \<Rightarrow> bool) \<Rightarrow> (string \<Rightarrow> byte list) \<Rightarrow>
    string \<Rightarrow> js_error + (Wallet \<times> string)" where
  "generate poseidon validateMnemonic mnemonicToSeed mnemonic =
     bind_result (fromMnemonic poseidon validateMnemonic mnemonicToSeed mnemonic)
       (\<lambda>w. Inr (w, mnemonic))"

definition random_wallet :: "(int list \<Rightarrow> int) \<Rightarrow> byte list \<Rightarrow> js_error + Wallet" where
  "random_wallet poseidon key = initViewingKey poseidon (newWallet key)"

section \<open>Balance and spendable notes\<close>

definition balance :: "Wallet \<Rightarrow> int" where
  "balance w = sum_list (map noteValue (filter (\<lambda>n. \<not> spent n) (wnotes w)))"

definition spendable :: "Note \<Rightarrow> bool" where
  "spendable n = (\<not> spent n \<and> pending n \<noteq> Some True)"

definition unspent_ix :: "Wallet \<Rightarrow> nat list" where
  "unspent_ix w = filter (\<lambda>i. spendable (wnotes w ! i)) [0..<length (wnotes w)]"

definition unspentNotes :: "Wallet \<Rightarrow> Note list" where
  "unspentNotes w = map (\<lambda>i. wnotes w ! i) (unspent_ix w)"

definition history :: "Wallet \<Rightarrow> TxRecord list" where
  "history w = txHistory w"

section \<open>Note construction\<close>

definition computeCommitment :: "(int list \<Rightarrow> int) \<Rightarrow> Note \<Rightarrow> js_error + string" where
  "computeCommitment poseidon n =
     bind_result (hexToField (owner n)) (\<lambda>o'.
     bind_result (hexToField (assetId n)) (\<lambda>a.
     bind_result (hexToField (blinding n)) (\<lambda>b.
       Inr (poseidonHashHex poseidon [o', noteValue n, a, b]))))"

definition computeNullifier :: "(int list \<Rightarrow> int) \<Rightarrow> Wallet \<Rightarrow> Note \<Rightarrow> js_error + string" where
  "computeNullifier poseidon w n =
     bind_result (hexToField (spendingKeyHex w)) (\<lambda>k.
     bind_result (hexToField (commitment n)) (\<lambda>c.
       Inr (poseidonHashHex poseidon [k, c])))"

definition deriveBlinding :: "(int list \<Rightarrow> int) \<Rightarrow> (Wallet, string) effect" where
  "deriveBlinding poseidon w =
     (let idx = nextBlinding w; w' = w\<lparr>nextBlinding := idx + 1\<rparr> in
      (w', bind_result (hexToField (spendingKeyHex w'))
             (\<lambda>k. Inr (poseidonHashHex poseidon [k, idx]))))"

definition createDepositNote :: "(int list \<Rightarrow> int) \<Rightarrow> int \<Rightarrow> int \<Rightarrow> (Wallet, Note) effect" where
  "createDepositNote poseidon now amount =
     eff_bind (deriveBlinding poseidon) (\<lambda>bl w.
       let n = \<lparr>owner = spendingKeyHex w, noteValue = amount, assetId = zero_hash, blinding = bl,
                commitment = '''', nullifier = '''', leafIndex = None, spent = False,
                pending = None\<rparr>
       in case computeCommitment poseidon n of
            Inl e \<Rightarrow> (w, Inl e)
          | Inr c \<Rightarrow>
              (case computeNullifier poseidon w (n\<lparr>commitment := c\<rparr>) of
                 Inl e \<Rightarrow> (w, Inl e)
               | Inr nf \<Rightarrow>
                   (let n' = n\<lparr>commitment := c, nullifier := nf\<rparr> in
                    (w\<lparr>wnotes := wnotes w @ [n'],
                       txHistory := txHistory w @
                         [\<lparr>kind = ''deposit'', tx_amount = amount, timestamp = now\<rparr>]\<rparr>,
                     Inr n'))))"

section \<open>Coin selection\<close>

definition cryptoRandomIndex :: "32 word \<Rightarrow> nat \<Rightarrow> nat" where
  "cryptoRandomIndex r m = unat r mod m"

text \<open>The nested loops over \<open>i\<close> and \<open>j > i\<close>.\<close>

fun pairs_of :: "'a list \<Rightarrow> ('a \<times> 'a) list" where
  "pairs_of [] = []"
| "pairs_of (x # xs) = map (Pair x) xs @ pairs_of xs"

definition insufficient :: "int \<Rightarrow> Wallet \<Rightarrow> js_error" where
  "insufficient amount w =
     Error (''Insufficient balance: need '' @ bigint_to_string 10 amount @ '', have ''
            @ bigint_to_string 10 (balance w))"

definition selectNotes :: "32 word \<Rightarrow> int \<Rightarrow> Wallet \<Rightarrow> js_error + nat list" where
  "selectNotes r amount w =
     (let unspent = unspent_ix w;
          val = (\<lambda>i. noteValue (wnotes w ! i));
          singles = filter (\<lambda>i. val i \<ge> amount) unspent;
          pairs = filter (\<lambda>(i, j). val i + val j \<ge> amount) (pairs_of unspent)
      in if 0 < length singles then Inr [singles ! cryptoRandomIndex r (length singles)]
         else if 0 < length pairs
           then (case pairs ! cryptoRandomIndex r (length pairs) of (a, b) \<Rightarrow> Inr [a, b])
         else Inl (insufficient amount w))"

definition lockNotes :: "nat list \<Rightarrow> Wallet \<Rightarrow> Wallet" where
  "lockNotes ix w =
     w\<lparr>wnotes := fold (\<lambda>i ns. ns[i := (ns ! i)\<lparr>pending := Some True\<rparr>]) ix (wnotes w)\<rparr>"

section \<open>Transfers and withdrawals\<close>

definition output_note :: "string \<Rightarrow> int \<Rightarrow> string \<Rightarrow> string \<Rightarrow> Note" where
  "output_note own v asset bl =
     \<lparr>owner = own, noteValue = v, assetId = asset, blinding = bl, commitment = '''',
      nullifier = '''', leafIndex = None, spent = False, pending = None\<rparr>"

definition change_notes :: "(int list \<Rightarrow> int) \<Rightarrow> int \<Rightarrow> string \<Rightarrow> (Wallet, Note list) effect" where
  "change_notes poseidon change asset =
     (if change > 0
      then eff_bind (deriveBlinding poseidon)
             (\<lambda>bl w. (w, Inr [output_note (spendingKeyHex w) change asset bl]))
      else eff_return [])"

definition push_history :: "string \<Rightarrow> int \<Rightarrow> int \<Rightarrow> Wallet \<Rightarrow> Wallet" where
  "push_history k amount now w =
     w\<lparr>txHistory := txHistory w @ [\<lparr>kind = k, tx_amount = amount, timestamp = now\<rparr>]\<rparr>"

definition prepareTransfer :: "(int list \<Rightarrow> int) \<Rightarrow> int \<Rightarrow> 32 word \<Rightarrow> string \<Rightarrow> int \<Rightarrow> int \<Rightarrow>
    (Wallet, Note list \<times> Note list) effect" where
  "prepareTransfer poseidon now r recipientOwner amount fee w =
     (let total = amount + fee in
      case selectNotes r total w of
        Inl e \<Rightarrow> (w, Inl e)
      | Inr ix \<Rightarrow>
          (let w1 = lockNotes ix w;
               inputNotes = map (\<lambda>i. wnotes w1 ! i) ix;
               change = sum_list (map noteValue inputNotes) - total;
               asset = assetId (hd inputNotes)
           in eff_bind (deriveBlinding poseidon) (\<lambda>bl.
              eff_bind (change_notes poseidon change asset) (\<lambda>chg w.
                (push_history ''send'' amount now w,
                 Inr (inputNotes, output_note recipientOwner amount asset bl # chg)))) w1))"

definition prepareWithdraw :: "(int list \<Rightarrow> int) \<Rightarrow> int \<Rightarrow> 32 word \<Rightarrow> int \<Rightarrow> int \<Rightarrow>
    (Wallet, Note list \<times> Note list) effect" where
  "prepareWithdraw poseidon now r amount fee w =
     (let total = amount + fee in
      case selectNotes r total w of
        Inl e \<Rightarrow> (w, Inl e)
      | Inr ix \<Rightarrow>
          (let w1 = lockNotes ix w;
               inputNotes = map (\<lambda>i. wnotes w1 ! i) ix;
               change = sum_list (map noteValue inputNotes) - total;
               asset = assetId (hd inputNotes)
           in eff_bind (change_notes poseidon change asset) (\<lambda>chg w.
                (push_history ''withdraw'' amount now w, Inr (inputNotes, chg))) w1))"

definition markSpent :: "Note list \<Rightarrow> Wallet \<Rightarrow> Wallet" where
  "markSpent ns w =
     (let commitments = set (map commitment ns) in
      w\<lparr>wnotes := map (\<lambda>n. if commitment n \<in> commitments
                          then n\<lparr>spent := True, pending := Some False\<rparr> else n) (wnotes w)\<rparr>)"

definition unlockNotes :: "Note list \<Rightarrow> Wallet \<Rightarrow> Wallet" where
  "unlockNotes ns w =
     (let commitments = set (map commitment ns) in
      w\<lparr>wnotes := map (\<lambda>n. if commitment n \<in> commitments
                          then n\<lparr>pending := Some False\<rparr> else n) (wnotes w)\<rparr>)"

section \<open>Indexer sync\<close>

record IndexedJson =
  js_commitment :: string
  js_leafIndex :: int
  js_encryptedNote :: string

text \<open>The response of \<open>fetch\<close>: an error status with its text, or the parsed body's \<open>notes\<close>.\<close>

datatype http_response = HttpError int string | HttpOk "IndexedJson list option"

definition fetch_path :: "Wallet \<Rightarrow> string" where
  "fetch_path w = ''/notes?after='' @ bigint_to_string 10 (lastSyncedLeaf w) @ ''&limit=500''"

definition parse_bundle :: "string \<Rightarrow> EncryptedNote option" where
  "parse_bundle hex =
     (let cipherBytes = buffer_from_hex hex in
      if length cipherBytes < 65 then None
      else Some \<lparr>ephemeralPubKey =
                   (pad_start 64 (CHR ''0'') (buffer_to_hex (subarray 0 32 cipherBytes)),
                    pad_start 64 (CHR ''0'') (buffer_to_hex (subarray 32 64 cipherBytes))),
                 ciphertext = drop 64 cipherBytes\<rparr>)"

definition incoming_note :: "(int list \<Rightarrow> int) \<Rightarrow> Wallet \<Rightarrow> int \<Rightarrow> NotePlaintext \<Rightarrow> js_error + Note" where
  "incoming_note poseidon w leaf pt =
     (let n = \<lparr>owner = spendingKeyHex w, noteValue = pt_value pt, assetId = pt_assetId pt,
               blinding = pt_blinding pt, commitment = '''', nullifier = '''',
               leafIndex = Some leaf, spent = False, pending = None\<rparr>
      in bind_result (computeCommitment poseidon n) (\<lambda>c.
         bind_result (computeNullifier poseidon w (n\<lparr>commitment := c\<rparr>)) (\<lambda>nf.
           Inr (n\<lparr>commitment := c, nullifier := nf\<rparr>))))"

definition advance_watermark :: "IndexedJson \<Rightarrow> Wallet \<Rightarrow> Wallet" where
  "advance_watermark it w =
     (if js_leafIndex it > lastSyncedLeaf w then w\<lparr>lastSyncedLeaf := js_leafIndex it\<rparr> else w)"

fun fetch_loop :: "(int list \<Rightarrow> int) \<Rightarrow> (EncryptedNote \<Rightarrow> string \<Rightarrow> NotePlaintext option) \<Rightarrow>
    IndexedJson list \<Rightarrow> string list \<Rightarrow> nat \<Rightarrow> (Wallet, nat) effect" where
  "fetch_loop poseidon decrypt [] existing discovered w = (w, Inr discovered)"
| "fetch_loop poseidon decrypt (it # its) existing discovered w =
     (let w1 = advance_watermark it w in
      if js_commitment it \<in> set existing then fetch_loop poseidon decrypt its existing discovered w1
      else case parse_bundle (js_encryptedNote it) of
        None \<Rightarrow> fetch_loop poseidon decrypt its existing discovered w1
      | Some enc \<Rightarrow>
          (case decrypt enc (spendingKeyHex w1) of
             None \<Rightarrow> fetch_loop poseidon decrypt its existing discovered w1
           | Some pt \<Rightarrow>
               (case incoming_note poseidon w1 (js_leafIndex it) pt of
                  Inl e \<Rightarrow> (w1, Inl e)
                | Inr n \<Rightarrow>
                    fetch_loop poseidon decrypt its (commitment n # existing) (discovered + 1)
                      (w1\<lparr>wnotes := wnotes w1 @ [n]\<rparr>))))"

definition fetchIncomingNotes :: "(int list \<Rightarrow> int) \<Rightarrow>
    (EncryptedNote \<Rightarrow> string \<Rightarrow> NotePlaintext option) \<Rightarrow> (string \<Rightarrow> http_response) \<Rightarrow>
    (Wallet, nat) effect" where
  "fetchIncomingNotes poseidon decrypt http w =
     (case http (fetch_path w) of
        HttpError status text \<Rightarrow>
          (w, Inl (Error (''Indexer returned '' @ bigint_to_string 10 status @ '': '' @ text)))
      | HttpOk None \<Rightarrow> (w, Inr 0)
      | HttpOk (Some ns) \<Rightarrow>
          (if length ns = 0 then (w, Inr 0)
           else fetch_loop poseidon decrypt ns (map commitment (wnotes w)) 0 w))"

section \<open>Persistence\<close>

record NoteSnapshot =
  s_owner :: string
  s_value :: string
  s_assetId :: string
  s_blinding :: string
  s_commitment :: string
  s_nullifier :: string
  s_spent :: bool
  s_pending :: bool
  s_leafIndex :: "int option"

record TxRecordSnapshot =
  s_kind :: string
  s_amount :: string
  s_timestamp :: int

record WalletSnapshot =
  s_version :: int
  s_spendingKey :: string
  s_nextBlinding :: int
  s_lastSyncedLeaf :: "int option"
  s_notes :: "NoteSnapshot list"
  s_txHistory :: "TxRecordSnapshot list"

text \<open>
  \<open>save\<close> and \<open>load\<close> over the snapshot value; writing it as JSON and reading it back is the
  identity on values built from strings, booleans, integers and null.
\<close>

definition save :: "Wallet \<Rightarrow> WalletSnapshot" where
  "save w =
     \<lparr>s_version = 1, s_spendingKey = buffer_to_hex (spendingKey w),
      s_nextBlinding = nextBlinding w, s_lastSyncedLeaf = Some (lastSyncedLeaf w),
      s_notes = map (\<lambda>n. \<lparr>s_owner = owner n, s_value = bigint_to_string 10 (noteValue n),
                         s_assetId = assetId n, s_blinding = blinding n,
                         s_commitment = commitment n, s_nullifier = nullifier n,
                         s_spent = spent n,
                         s_pending = (case pending n of None \<Rightarrow> False | Some b \<Rightarrow> b),
                         s_leafIndex = leafIndex n\<rparr>) (wnotes w),
      s_txHistory = map (\<lambda>r. \<lparr>s_kind = kind r, s_amount = bigint_to_string 10 (tx_amount r),
                             s_timestamp = timestamp r\<rparr>) (txHistory w)\<rparr>"

definition load_note :: "NoteSnapshot \<Rightarrow> js_error + Note" where
  "load_note n =
     (case bigint_of_string (s_value n) of
        None \<Rightarrow> Inl SyntaxError
      | Some v \<Rightarrow> Inr \<lparr>owner = s_owner n, noteValue = v, assetId = s_assetId n,
                      blinding = s_blinding n, commitment = s_commitment n,
                      nullifier = s_nullifier n, leafIndex = s_leafIndex n,
                      spent = s_spent n, pending = Some (s_pending n)\<rparr>)"

definition load_record :: "TxRecordSnapshot \<Rightarrow> js_error + TxRecord" where
  "load_record r =
     (case bigint_of_string (s_amount r) of
        None \<Rightarrow> Inl SyntaxError
      | Some v \<Rightarrow> Inr \<lparr>kind = s_kind r, tx_amount = v, timestamp = s_timestamp r\<rparr>)"

definition load :: "(int list \<Rightarrow> int) \<Rightarrow> WalletSnapshot \<Rightarrow> js_error + Wallet" where
  "load poseidon data =
     (if s_version data \<noteq> 1
      then Inl (Error (''Unsupported wallet snapshot version '' @ bigint_to_string 10 (s_version data)
                       @ ''. Expected 1.''))
      else
        bind_result (initViewingKey poseidon (newWallet (buffer_from_hex (s_spendingKey data)))) (\<lambda>w.
        bind_result (map_result load_note (s_notes data)) (\<lambda>ns.
        bind_result (map_result load_record (s_txHistory data)) (\<lambda>h.
          Inr (w\<lparr>nextBlinding := s_nextBlinding data,
                lastSyncedLeaf := (case s_lastSyncedLeaf data of None \<Rightarrow> -1 | Some l \<Rightarrow> l),
                wnotes := ns, txHistory := h\<rparr>)))))"

section \<open>Spendable notes and coin selection\<close>

lemma set_unspent_ix:
  "i \<in> set (unspent_ix w) \<longleftrightarrow> i < length (wnotes w) \<and> spendable (wnotes w ! i)"
  by (auto simp: unspent_ix_def)

lemma distinct_unspent_ix [simp]: "distinct (unspent_ix w)"
  by (simp add: unspent_ix_def)

lemma cryptoRandomIndex_less: "0 < m \<Longrightarrow> cryptoRandomIndex r m < m"
  by (simp add: cryptoRandomIndex_def)

lemma pairs_of_sound:
  "distinct xs \<Longrightarrow> (a, b) \<in> set (pairs_of xs) \<Longrightarrow> a \<noteq> b \<and> a \<in> set xs \<and> b \<in> set xs"
  by (induction xs) auto

lemma pairs_of_complete:
  "a \<in> set xs \<Longrightarrow> b \<in> set xs \<Longrightarrow> a \<noteq> b \<Longrightarrow> (a, b) \<in> set (pairs_of xs) \<or> (b, a) \<in> set (pairs_of xs)"
  by (induction xs) auto

definition note_sum :: "Wallet \<Rightarrow> nat list \<Rightarrow> int" where
  "note_sum w ix = sum_list (map (\<lambda>i. noteValue (wnotes w ! i)) ix)"

text \<open>What a selection must be: one or two different spendable notes that cover the amount.\<close>

definition covers :: "Wallet \<Rightarrow> int \<Rightarrow> nat list \<Rightarrow> bool" where
  "covers w amount ix \<longleftrightarrow>
     distinct ix \<and> (length ix = 1 \<or> length ix = 2) \<and>
     (\<forall>i \<in> set ix. i < length (wnotes w) \<and> spendable (wnotes w ! i)) \<and>
     amount \<le> note_sum w ix"

lemma select_pick:
  assumes "0 < length xs"
  shows "xs ! cryptoRandomIndex r (length xs) \<in> set xs"
  using assms by (simp add: cryptoRandomIndex_less)

lemma selectNotes_covers:
  assumes "selectNotes r amount w = Inr ix"
  shows "covers w amount ix"
proof -
  let ?v = "\<lambda>i. noteValue (wnotes w ! i)"
  let ?singles = "filter (\<lambda>i. ?v i \<ge> amount) (unspent_ix w)"
  let ?pairs = "filter (\<lambda>(i, j). ?v i + ?v j \<ge> amount) (pairs_of (unspent_ix w))"
  show ?thesis
  proof (cases "0 < length ?singles")
    case True
    define i where "i = ?singles ! cryptoRandomIndex r (length ?singles)"
    have "i \<in> set ?singles"
      unfolding i_def using True by (rule select_pick)
    moreover have "ix = [i]"
      using assms True by (simp add: selectNotes_def Let_def i_def)
    ultimately show ?thesis
      by (simp add: covers_def note_sum_def set_unspent_ix)
  next
    case False
    then have pos: "0 < length ?pairs"
      using assms by (auto simp: selectNotes_def Let_def split: if_splits)
    obtain a b where ab: "?pairs ! cryptoRandomIndex r (length ?pairs) = (a, b)"
      by fastforce
    then have "(a, b) \<in> set ?pairs"
      using select_pick [OF pos, of r] by simp
    then have "(a, b) \<in> set (pairs_of (unspent_ix w))" "?v a + ?v b \<ge> amount"
      by auto
    moreover have "ix = [a, b]"
      using assms False pos ab by (simp add: selectNotes_def Let_def)
    ultimately show ?thesis
      using pairs_of_sound [of "unspent_ix w" a b]
      by (auto simp: covers_def note_sum_def set_unspent_ix)
  qed
qed

lemma selectNotes_complete:
  assumes "covers w amount ix"
  shows "\<exists>ix'. selectNotes r amount w = Inr ix'"
proof -
  let ?v = "\<lambda>i. noteValue (wnotes w ! i)"
  let ?singles = "filter (\<lambda>i. ?v i \<ge> amount) (unspent_ix w)"
  let ?pairs = "filter (\<lambda>(i, j). ?v i + ?v j \<ge> amount) (pairs_of (unspent_ix w))"
  have "0 < length ?singles \<or> 0 < length ?pairs"
  proof (cases "length ix = 1")
    case True
    then obtain i where "ix = [i]"
      by (auto simp: length_Suc_conv)
    with assms have "i \<in> set ?singles"
      by (auto simp: covers_def note_sum_def set_unspent_ix)
    then have "?singles \<noteq> []"
      by (metis empty_iff empty_set)
    then show ?thesis by blast
  next
    case False
    then obtain a b where ix: "ix = [a, b]"
      using assms by (auto simp: covers_def length_Suc_conv numeral_2_eq_2)
    with assms have "a \<in> set (unspent_ix w)" "b \<in> set (unspent_ix w)" "a \<noteq> b"
      "amount \<le> ?v a + ?v b"
      by (auto simp: covers_def note_sum_def set_unspent_ix)
    then have "(a, b) \<in> set ?pairs \<or> (b, a) \<in> set ?pairs"
      using pairs_of_complete [of a "unspent_ix w" b] by (auto simp: add.commute)
    then have "?pairs \<noteq> []"
      by (metis empty_iff empty_set)
    then show ?thesis by blast
  qed
  then show ?thesis
    unfolding selectNotes_def Let_def by (simp split: prod.split)
qed

lemma selectNotes_error:
  "selectNotes r amount w = Inl e \<longleftrightarrow> e = insufficient amount w \<and> (\<nexists>ix. covers w amount ix)"
proof
  assume "selectNotes r amount w = Inl e"
  then show "e = insufficient amount w \<and> (\<nexists>ix. covers w amount ix)"
    using selectNotes_complete [of w amount _ r]
    by (auto simp: selectNotes_def Let_def split: if_splits prod.splits)
next
  assume e: "e = insufficient amount w \<and> (\<nexists>ix. covers w amount ix)"
  show "selectNotes r amount w = Inl e"
  proof (cases "selectNotes r amount w")
    case (Inl e')
    then show ?thesis
      using e by (auto simp: selectNotes_def Let_def split: if_splits prod.splits)
  next
    case (Inr ix)
    with e show ?thesis by (auto dest: selectNotes_covers)
  qed
qed

section \<open>Locking\<close>

lemma length_lock_fold [simp]:
  "length (fold (\<lambda>i ns. ns[i := (ns ! i)\<lparr>pending := Some True\<rparr>]) ix ns) = length ns"
  by (induction ix arbitrary: ns) auto

lemma nth_lock_fold:
  "j < length ns \<Longrightarrow>
     fold (\<lambda>i ns. ns[i := (ns ! i)\<lparr>pending := Some True\<rparr>]) ix ns ! j
       = (if j \<in> set ix then (ns ! j)\<lparr>pending := Some True\<rparr> else ns ! j)"
  by (induction ix arbitrary: ns) (auto simp: nth_update_at)

lemma length_lockNotes [wallet_simps]: "length (wnotes (lockNotes ix w)) = length (wnotes w)"
  by (simp add: lockNotes_def)

lemma nth_lockNotes [wallet_simps]:
  "j < length (wnotes w) \<Longrightarrow>
     wnotes (lockNotes ix w) ! j
       = (if j \<in> set ix then (wnotes w ! j)\<lparr>pending := Some True\<rparr> else wnotes w ! j)"
  by (simp add: lockNotes_def nth_lock_fold)

lemma lockNotes_frame [wallet_simps]:
  "spendingKey (lockNotes ix w) = spendingKey w"
  "nextBlinding (lockNotes ix w) = nextBlinding w"
  "txHistory (lockNotes ix w) = txHistory w"
  "lastSyncedLeaf (lockNotes ix w) = lastSyncedLeaf w"
  "viewingKey (lockNotes ix w) = viewingKey w"
  by (simp_all add: lockNotes_def)

lemma map_lockNotes:
  assumes "\<And>n. f (n\<lparr>pending := Some True\<rparr>) = f n"
  shows "map f (wnotes (lockNotes ix w)) = map f (wnotes w)"
  using assms by (intro nth_equalityI) (auto simp: wallet_simps)

lemma balance_as_map:
  "balance w = sum_list (map (\<lambda>n. if spent n then 0 else noteValue n) (wnotes w))"
  unfolding balance_def sum_filter_as_map by (rule arg_cong [of _ _ sum_list]) auto

lemma balance_lockNotes [wallet_simps]: "balance (lockNotes ix w) = balance w"
  unfolding balance_as_map by (subst map_lockNotes) auto

lemma sum_inputs_lock:
  "(\<And>i. i \<in> set ix \<Longrightarrow> i < length (wnotes w)) \<Longrightarrow>
     sum_list (map noteValue (map (\<lambda>i. wnotes (lockNotes js w) ! i) ix)) = note_sum w ix"
  unfolding note_sum_def map_map comp_def
  by (rule arg_cong [of _ _ sum_list], rule map_cong) (auto simp: wallet_simps)

section \<open>Blindings and change\<close>

definition key_field :: "Wallet \<Rightarrow> int" where
  "key_field w = (case hexToField (spendingKeyHex w) of Inl e \<Rightarrow> 0 | Inr k \<Rightarrow> k)"

lemma hexToField_key:
  "spendingKey w \<noteq> [] \<Longrightarrow> hexToField (spendingKeyHex w) = Inr (key_field w)"
  using hexToField_buffer_to_hex [of "spendingKey w"]
  by (auto simp: key_field_def spendingKeyHex_def)

lemma key_frame [simp]:
  "spendingKeyHex (w\<lparr>nextBlinding := b\<rparr>) = spendingKeyHex w"
  "spendingKeyHex (w\<lparr>wnotes := ns\<rparr>) = spendingKeyHex w"
  "spendingKeyHex (w\<lparr>txHistory := h\<rparr>) = spendingKeyHex w"
  "spendingKeyHex (w\<lparr>lastSyncedLeaf := l\<rparr>) = spendingKeyHex w"
  "spendingKeyHex (w\<lparr>viewingKey := v\<rparr>) = spendingKeyHex w"
  by (simp_all add: spendingKeyHex_def)

lemma deriveBlinding_eq:
  "spendingKey w \<noteq> [] \<Longrightarrow>
     deriveBlinding poseidon w =
       (w\<lparr>nextBlinding := nextBlinding w + 1\<rparr>,
        Inr (poseidonHashHex poseidon [key_field w, nextBlinding w]))"
  by (simp add: deriveBlinding_def Let_def hexToField_key)

lemma change_notes_eq:
  "spendingKey w \<noteq> [] \<Longrightarrow>
     change_notes poseidon change asset w =
       (if change > 0
        then (w\<lparr>nextBlinding := nextBlinding w + 1\<rparr>,
              Inr [output_note (spendingKeyHex w) change asset
                     (poseidonHashHex poseidon [key_field w, nextBlinding w])])
        else (w, Inr []))"
  by (simp add: change_notes_def deriveBlinding_eq eff_defs)

lemma sum_change_notes:
  "change_notes poseidon change asset w = (w', Inr ns) \<Longrightarrow> 0 \<le> change \<Longrightarrow>
     sum_list (map noteValue ns) = change"
  by (auto simp: change_notes_def eff_bind_Inr_iff eff_defs output_note_def split: if_splits)

lemma change_notes_asset:
  "change_notes poseidon change asset w = (w', Inr ns) \<Longrightarrow> n \<in> set ns \<Longrightarrow>
     assetId n = asset \<and> 0 < noteValue n \<and> owner n = spendingKeyHex w' \<and> spent n = False"
  by (auto simp: change_notes_def eff_bind_Inr_iff eff_defs output_note_def split: if_splits)

lemma change_notes_frame:
  "change_notes poseidon change asset w = (w', res) \<Longrightarrow>
     wnotes w' = wnotes w \<and> spendingKey w' = spendingKey w \<and> txHistory w' = txHistory w
     \<and> lastSyncedLeaf w' = lastSyncedLeaf w \<and> nextBlinding w \<le> nextBlinding w'"
  by (auto simp: change_notes_def eff_defs eff_bind_def deriveBlinding_def Let_def
      split: if_splits sum.splits)

end
