(* ===== verification/Sdk_Wallet_Session.thy ===== *)
theory Sdk_Wallet_Session
  imports Sdk_Wallet
begin

text \<open>
  What the wallet's operations do to its note set, and the wallet as a state machine: transfers and
  withdrawals in flight hold reservations of note positions, and the invariant \<open>session_inv\<close> says
  that reservations are locked, unspent and never overlap.
\<close>

section \<open>Results of the prepare operations\<close>

lemma prepareTransfer_cases:
  assumes "prepareTransfer poseidon now r rcp amount fee w = (w', Inr (ins, outs))"
  obtains ix where "selectNotes r (amount + fee) w = Inr ix" "covers w (amount + fee) ix"
    and "wnotes w' = wnotes (lockNotes ix w)" "spendingKey w' = spendingKey w"
    and "ins = map (\<lambda>i. wnotes (lockNotes ix w) ! i) ix"
    and "sum_list (map noteValue ins) = note_sum w ix"
    and "sum_list (map noteValue outs) = note_sum w ix - fee"
    and "\<forall>n \<in> set outs. assetId n = assetId (hd ins)"
    and "outs \<noteq> []" "owner (hd outs) = rcp" "noteValue (hd outs) = amount"
    and "\<forall>n \<in> set (tl outs). 0 < noteValue n \<and> owner n = spendingKeyHex w"
    and "nextBlinding w < nextBlinding w'"
proof -
  obtain ix where sel: "selectNotes r (amount + fee) w = Inr ix"
    using assms by (auto simp: prepareTransfer_def Let_def split: sum.splits)
  let ?w1 = "lockNotes ix w" and ?ins = "map (\<lambda>i. wnotes (lockNotes ix w) ! i) ix"
  let ?change = "sum_list (map noteValue ?ins) - (amount + fee)"
  have cov: "covers w (amount + fee) ix"
    by (rule selectNotes_covers [OF sel])
  have sum: "sum_list (map noteValue ?ins) = note_sum w ix"
    using cov by (intro sum_inputs_lock) (auto simp: covers_def)
  obtain bl w2 chg w3 where
    bl: "deriveBlinding poseidon ?w1 = (w2, Inr bl)"
    and chg: "change_notes poseidon ?change (assetId (hd ?ins)) w2 = (w3, Inr chg)"
    and w': "w' = push_history ''send'' amount now w3"
    and io: "ins = ?ins" "outs = output_note rcp amount (assetId (hd ?ins)) bl # chg"
    using assms by (auto simp: prepareTransfer_def Let_def sel eff_bind_Inr_iff)
  have w2: "w2 = ?w1\<lparr>nextBlinding := nextBlinding ?w1 + 1\<rparr>"
    using bl by (auto simp: deriveBlinding_def Let_def)
  have w3: "wnotes w3 = wnotes ?w1" "spendingKey w3 = spendingKey w"
    "nextBlinding w < nextBlinding w3"
    using change_notes_frame [OF chg] by (auto simp: w2 wallet_simps)
  have "0 \<le> ?change"
    using cov sum by (simp add: covers_def)
  then have "sum_list (map noteValue chg) = ?change"
    by (rule sum_change_notes [OF chg])
  then have outs: "sum_list (map noteValue outs) = note_sum w ix - fee"
    using sum by (simp add: io output_note_def)
  have key: "spendingKeyHex w3 = spendingKeyHex w"
    by (simp add: spendingKeyHex_def w3)
  have asset: "\<forall>n \<in> set outs. assetId n = assetId (hd ins)"
    using change_notes_asset [OF chg] by (auto simp only: io set_simps output_note_def Note.select_convs)
  have tl: "\<forall>n \<in> set (tl outs). 0 < noteValue n \<and> owner n = spendingKeyHex w"
    using change_notes_asset [OF chg] by (simp only: io list.sel key) blast
  show thesis
  proof (rule that [OF sel cov])
    show "wnotes w' = wnotes ?w1" "spendingKey w' = spendingKey w"
      "nextBlinding w < nextBlinding w'"
      using w3 by (simp_all add: w' push_history_def)
    show "ins = ?ins" by (rule io)
    show "sum_list (map noteValue ins) = note_sum w ix" unfolding io(1) by (rule sum)
    show "outs \<noteq> []" "owner (hd outs) = rcp" "noteValue (hd outs) = amount"
      by (simp_all add: io output_note_def)
  qed (fact outs asset tl)+
qed

lemma prepareWithdraw_cases:
  assumes "prepareWithdraw poseidon now r amount fee w = (w', Inr (ins, outs))"
  obtains ix where "selectNotes r (amount + fee) w = Inr ix" "covers w (amount + fee) ix"
    and "wnotes w' = wnotes (lockNotes ix w)" "spendingKey w' = spendingKey w"
    and "ins = map (\<lambda>i. wnotes (lockNotes ix w) ! i) ix"
    and "sum_list (map noteValue ins) = note_sum w ix"
    and "sum_list (map noteValue outs) = note_sum w ix - (amount + fee)"
    and "\<forall>n \<in> set outs. assetId n = assetId (hd ins) \<and> 0 < noteValue n \<and> owner n = spendingKeyHex w"
    and "nextBlinding w \<le> nextBlinding w'"
proof -
  obtain ix where sel: "selectNotes r (amount + fee) w = Inr ix"
    using assms by (auto simp: prepareWithdraw_def Let_def split: sum.splits)
  let ?w1 = "lockNotes ix w" and ?ins = "map (\<lambda>i. wnotes (lockNotes ix w) ! i) ix"
  let ?change = "sum_list (map noteValue ?ins) - (amount + fee)"
  have cov: "covers w (amount + fee) ix"
    by (rule selectNotes_covers [OF sel])
  have sum: "sum_list (map noteValue ?ins) = note_sum w ix"
    using cov by (intro sum_inputs_lock) (auto simp: covers_def)
  obtain chg w3 where
    chg: "change_notes poseidon ?change (assetId (hd ?ins)) ?w1 = (w3, Inr chg)"
    and w': "w' = push_history ''withdraw'' amount now w3"
    and io: "ins = ?ins" "outs = chg"
    using assms by (auto simp: prepareWithdraw_def Let_def sel eff_bind_Inr_iff)
  have w3: "wnotes w3 = wnotes ?w1" "spendingKey w3 = spendingKey w"
    "nextBlinding w \<le> nextBlinding w3"
    using change_notes_frame [OF chg] by (auto simp: wallet_simps)
  have "0 \<le> ?change"
    using cov sum by (simp add: covers_def)
  then have "sum_list (map noteValue chg) = ?change"
    by (rule sum_change_notes [OF chg])
  then have outs: "sum_list (map noteValue outs) = note_sum w ix - (amount + fee)"
    using sum by (simp add: io)
  have key: "spendingKeyHex w3 = spendingKeyHex w"
    by (simp add: spendingKeyHex_def w3)
  have chgs: "\<forall>n \<in> set outs. assetId n = assetId (hd ins) \<and> 0 < noteValue n
      \<and> owner n = spendingKeyHex w"
    using change_notes_asset [OF chg] by (simp only: io key) blast
  show thesis
  proof (rule that [OF sel cov])
    show "wnotes w' = wnotes ?w1" "spendingKey w' = spendingKey w"
      "nextBlinding w \<le> nextBlinding w'"
      using w3 by (simp_all add: w' push_history_def)
    show "ins = ?ins" by (rule io)
    show "sum_list (map noteValue ins) = note_sum w ix" unfolding io(1) by (rule sum)
  qed (fact outs chgs)+
qed

lemma prepareTransfer_outputs:
  assumes "prepareTransfer poseidon now r rcp amount fee w = (w', Inr (ins, outs))"
  shows "length outs \<le> 2"
proof -
  have "length ns \<le> 1" if "change_notes poseidon change asset v = (v', Inr ns)" for change asset v v' ns
    using that by (auto simp: change_notes_def eff_bind_Inr_iff eff_defs split: if_splits)
  with assms show ?thesis
    by (auto simp: prepareTransfer_def Let_def eff_bind_Inr_iff split: sum.splits)
qed

lemma prepareTransfer_returns:
  assumes "spendingKey w \<noteq> []" "covers w (amount + fee) ix"
  shows "\<exists>w' res. prepareTransfer poseidon now r rcp amount fee w = (w', Inr res)"
proof -
  obtain jx where "selectNotes r (amount + fee) w = Inr jx"
    using selectNotes_complete [OF assms(2)] by blast
  then show ?thesis
    using assms(1)
    by (simp add: prepareTransfer_def Let_def eff_bind_def deriveBlinding_eq change_notes_eq
        wallet_simps split: prod.split sum.split)
qed

lemma prepareWithdraw_returns:
  assumes "spendingKey w \<noteq> []" "covers w (amount + fee) ix"
  shows "\<exists>w' res. prepareWithdraw poseidon now r amount fee w = (w', Inr res)"
proof -
  obtain jx where "selectNotes r (amount + fee) w = Inr jx"
    using selectNotes_complete [OF assms(2)] by blast
  then show ?thesis
    using assms(1)
    by (simp add: prepareWithdraw_def Let_def eff_bind_def change_notes_eq
        wallet_simps split: prod.split sum.split)
qed

section \<open>Deposits\<close>

lemma createDepositNote_form:
  assumes "createDepositNote poseidon now amount w = (w', Inr n)"
  obtains bl c nf where
    "n = \<lparr>owner = spendingKeyHex w, noteValue = amount, assetId = zero_hash, blinding = bl,
          commitment = c, nullifier = nf, leafIndex = None, spent = False, pending = None\<rparr>"
    "w' = w\<lparr>nextBlinding := nextBlinding w + 1, wnotes := wnotes w @ [n],
            txHistory := txHistory w @ [\<lparr>kind = ''deposit'', tx_amount = amount, timestamp = now\<rparr>]\<rparr>"
    "computeCommitment poseidon n = Inr c" "computeNullifier poseidon w n = Inr nf"
proof -
  obtain bl w1 where bl: "deriveBlinding poseidon w = (w1, Inr bl)"
    using assms by (auto simp: createDepositNote_def eff_bind_Inr_iff)
  then have w1: "w1 = w\<lparr>nextBlinding := nextBlinding w + 1\<rparr>"
    by (auto simp: deriveBlinding_def Let_def)
  let ?n = "\<lparr>owner = spendingKeyHex w, noteValue = amount, assetId = zero_hash, blinding = bl,
          commitment = '''', nullifier = '''', leafIndex = None, spent = False, pending = None\<rparr>"
  obtain c where c: "computeCommitment poseidon ?n = Inr c"
    using assms by (simp add: createDepositNote_def bl w1 Let_def split: sum.splits)
  obtain nf where nf: "computeNullifier poseidon w1 (?n\<lparr>commitment := c\<rparr>) = Inr nf"
    using assms c by (simp add: createDepositNote_def bl w1 Let_def split: sum.splits)
  have "computeCommitment poseidon (?n\<lparr>commitment := c, nullifier := nf\<rparr>) = Inr c"
    using c by (simp add: computeCommitment_def)
  moreover have "computeNullifier poseidon w (?n\<lparr>commitment := c, nullifier := nf\<rparr>) = Inr nf"
    using nf by (simp add: computeNullifier_def spendingKeyHex_def w1)
  moreover have "n = ?n\<lparr>commitment := c, nullifier := nf\<rparr>"
    and "w' = w1\<lparr>wnotes := wnotes w @ [n], txHistory := txHistory w @
           [\<lparr>kind = ''deposit'', tx_amount = amount, timestamp = now\<rparr>]\<rparr>"
    using assms c nf by (auto simp: createDepositNote_def bl w1 Let_def)
  ultimately show thesis
    by (intro that [of bl c nf]) (simp_all add: w1)
qed

lemma createDepositNote_cases:
  assumes "createDepositNote poseidon now amount w = (w', Inr n)"
  shows "wnotes w' = wnotes w @ [n]" "spendingKey w' = spendingKey w"
    "nextBlinding w' = nextBlinding w + 1" "noteValue n = amount" "\<not> spent n" "pending n = None"
    "owner n = spendingKeyHex w" "leafIndex n = None" "viewingKey w' = viewingKey w"
    "lastSyncedLeaf w' = lastSyncedLeaf w"
  by (rule createDepositNote_form [OF assms], simp)+

lemma createDepositNote_returns:
  assumes "spendingKey w \<noteq> []" "field_hash poseidon"
  shows "\<exists>w' n. createDepositNote poseidon now amount w = (w', Inr n)"
proof -
  have "hexToField zero_hash = Inr 0"
    using hexToField_literal [OF read_digits_zero_hash] digits_value_zeros [of 16 64 "[]"]
    by (simp add: zero_hash_def)
  then show ?thesis
    using assms
    by (simp add: createDepositNote_def eff_bind_def deriveBlinding_eq Let_def computeCommitment_def
        computeNullifier_def hexToField_key hexToField_poseidonHashHex)
qed

section \<open>Spending and unlocking\<close>

lemma markSpent_frame [wallet_simps]:
  "length (wnotes (markSpent ns w)) = length (wnotes w)"
  "map commitment (wnotes (markSpent ns w)) = map commitment (wnotes w)"
  "spendingKey (markSpent ns w) = spendingKey w"
  by (simp_all add: markSpent_def Let_def)

lemma unlockNotes_frame [wallet_simps]:
  "length (wnotes (unlockNotes ns w)) = length (wnotes w)"
  "map commitment (wnotes (unlockNotes ns w)) = map commitment (wnotes w)"
  "spendingKey (unlockNotes ns w) = spendingKey w"
  by (simp_all add: unlockNotes_def Let_def)

lemma nth_markSpent:
  "i < length (wnotes w) \<Longrightarrow>
     wnotes (markSpent ns w) ! i =
       (if commitment (wnotes w ! i) \<in> commitment ` set ns
        then (wnotes w ! i)\<lparr>spent := True, pending := Some False\<rparr> else wnotes w ! i)"
  by (simp add: markSpent_def Let_def)

lemma nth_unlockNotes:
  "i < length (wnotes w) \<Longrightarrow>
     wnotes (unlockNotes ns w) ! i =
       (if commitment (wnotes w ! i) \<in> commitment ` set ns
        then (wnotes w ! i)\<lparr>pending := Some False\<rparr> else wnotes w ! i)"
  by (simp add: unlockNotes_def Let_def)

definition distinct_commitments :: "Wallet \<Rightarrow> bool" where
  "distinct_commitments w = distinct (map commitment (wnotes w))"

lemma commitment_position:
  assumes "distinct_commitments w" "i < length (wnotes w)" "\<forall>j \<in> set ix. j < length (wnotes w)"
  shows "commitment (wnotes w ! i) \<in> commitment ` set (map (\<lambda>j. wnotes w ! j) ix) \<longleftrightarrow> i \<in> set ix"
  using assms unfolding distinct_commitments_def
  by (auto simp: distinct_conv_nth image_iff)

lemma balance_markSpent:
  assumes "distinct_commitments w" "distinct ix"
    and "\<forall>i \<in> set ix. i < length (wnotes w) \<and> \<not> spent (wnotes w ! i)"
  shows "balance (markSpent (map (\<lambda>i. wnotes w ! i) ix) w) = balance w - note_sum w ix"
proof -
  let ?n = "length (wnotes w)" and ?v = "\<lambda>i. noteValue (wnotes w ! i)"
  let ?w = "markSpent (map (\<lambda>i. wnotes w ! i) ix) w"
  let ?f = "\<lambda>n. if spent n then 0 else noteValue n"
  have len: "length (wnotes ?w) = ?n"
    by (simp add: wallet_simps)
  have as_sum: "balance u = (\<Sum>i < length (wnotes u). ?f (wnotes u ! i))" for u
    unfolding balance_as_map by (simp add: sum_list_sum_nth atLeast0LessThan)
  have step: "?f (wnotes ?w ! i) = ?f (wnotes w ! i) - (if i \<in> set ix then ?v i else 0)"
    if "i < ?n" for i
    using that assms commitment_position [OF assms(1) that, of ix]
    by (subst (1 2) nth_markSpent) auto
  have "balance ?w = (\<Sum>i < ?n. ?f (wnotes w ! i) - (if i \<in> set ix then ?v i else 0))"
    unfolding as_sum len by (rule sum.cong) (use step in auto)
  also have "\<dots> = balance w - (\<Sum>i < ?n. if i \<in> set ix then ?v i else 0)"
    by (simp add: as_sum sum_subtractf)
  also have "(\<Sum>i < ?n. if i \<in> set ix then ?v i else 0) = (\<Sum>i \<in> {..<?n} \<inter> set ix. ?v i)"
    by (simp add: sum.inter_restrict)
  also have "{..<?n} \<inter> set ix = set ix"
    using assms(3) by auto
  also have "(\<Sum>i \<in> set ix. ?v i) = note_sum w ix"
    using assms(2) by (simp add: note_sum_def sum_list_distinct_conv_sum_set)
  finally show ?thesis .
qed

section \<open>Incoming notes\<close>

lemma advance_watermark_frame [wallet_simps]:
  "wnotes (advance_watermark it w) = wnotes w"
  "spendingKey (advance_watermark it w) = spendingKey w"
  "nextBlinding (advance_watermark it w) = nextBlinding w"
  "lastSyncedLeaf (advance_watermark it w) = max (lastSyncedLeaf w) (js_leafIndex it)"
  "spendingKeyHex (advance_watermark it w) = spendingKeyHex w"
  by (auto simp: advance_watermark_def spendingKeyHex_def)

lemma incoming_note_form:
  assumes "incoming_note poseidon w leaf pt = Inr n"
  shows "owner n = spendingKeyHex w \<and> noteValue n = pt_value pt \<and> assetId n = pt_assetId pt
    \<and> blinding n = pt_blinding pt \<and> leafIndex n = Some leaf \<and> \<not> spent n \<and> pending n = None
    \<and> computeCommitment poseidon n = Inr (commitment n)"
proof -
  let ?n = "\<lparr>owner = spendingKeyHex w, noteValue = pt_value pt, assetId = pt_assetId pt,
      blinding = pt_blinding pt, commitment = '''', nullifier = '''', leafIndex = Some leaf,
      spent = False, pending = None\<rparr>"
  obtain c nf where c: "computeCommitment poseidon ?n = Inr c"
    and n: "n = ?n\<lparr>commitment := c, nullifier := nf\<rparr>"
    using assms by (auto simp: incoming_note_def Let_def bind_result_Inr_iff)
  have "computeCommitment poseidon n = computeCommitment poseidon ?n"
    by (simp add: n computeCommitment_def)
  with c show ?thesis by (simp add: n)
qed

lemma fetch_loop_appends:
  assumes "fetch_loop poseidon decrypt its ex d w = (w', res)"
  shows "\<exists>new. wnotes w' = wnotes w @ new
    \<and> (\<forall>n \<in> set new. \<not> spent n \<and> pending n = None \<and> owner n = spendingKeyHex w)
    \<and> spendingKey w' = spendingKey w \<and> nextBlinding w' = nextBlinding w
    \<and> lastSyncedLeaf w \<le> lastSyncedLeaf w'
    \<and> (\<forall>k. res = Inr k \<longrightarrow>
          k = d + length new \<and> (\<forall>it \<in> set its. js_leafIndex it \<le> lastSyncedLeaf w'))"
  using assms
proof (induction its arbitrary: ex d w)
  case Nil
  then show ?case by auto
next
  case (Cons it its)
  let ?w1 = "advance_watermark it w"
  have skip: ?case if run: "fetch_loop poseidon decrypt its ex d ?w1 = (w', res)"
  proof -
    obtain new where "wnotes w' = wnotes ?w1 @ new"
      "\<forall>n \<in> set new. \<not> spent n \<and> pending n = None \<and> owner n = spendingKeyHex ?w1"
      "spendingKey w' = spendingKey ?w1" "nextBlinding w' = nextBlinding ?w1"
      "lastSyncedLeaf ?w1 \<le> lastSyncedLeaf w'"
      "\<forall>k. res = Inr k \<longrightarrow>
          k = d + length new \<and> (\<forall>it \<in> set its. js_leafIndex it \<le> lastSyncedLeaf w')"
      using Cons.IH [OF run] by blast
    then show ?thesis
      by (intro exI [of _ new]) (auto simp: wallet_simps)
  qed
  show ?case
  proof (cases "js_commitment it \<in> set ex \<or> parse_bundle (js_encryptedNote it) = None")
    case True
    then show ?thesis
      using Cons.prems by (intro skip) (auto simp: Let_def split: if_splits)
  next
    case False
    then obtain enc where enc: "parse_bundle (js_encryptedNote it) = Some enc"
      by auto
    show ?thesis
    proof (cases "decrypt enc (spendingKeyHex ?w1)")
      case None
      then show ?thesis
        using Cons.prems False enc by (intro skip) (auto simp: Let_def)
    next
      case (Some pt)
      show ?thesis
      proof (cases "incoming_note poseidon ?w1 (js_leafIndex it) pt")
        case (Inl e)
        then have "w' = ?w1" "res = Inl e"
          using Cons.prems False enc Some by (auto simp: Let_def)
        then show ?thesis
          by (intro exI [of _ "[]"]) (auto simp: wallet_simps)
      next
        case (Inr n)
        let ?w2 = "?w1\<lparr>wnotes := wnotes ?w1 @ [n]\<rparr>"
        have run: "fetch_loop poseidon decrypt its (commitment n # ex) (d + 1) ?w2 = (w', res)"
          using Cons.prems False enc Some Inr by (auto simp: Let_def)
        obtain new where "wnotes w' = wnotes ?w2 @ new"
          "\<forall>n \<in> set new. \<not> spent n \<and> pending n = None \<and> owner n = spendingKeyHex ?w2"
          "spendingKey w' = spendingKey ?w2" "nextBlinding w' = nextBlinding ?w2"
          "lastSyncedLeaf ?w2 \<le> lastSyncedLeaf w'"
          "\<forall>k. res = Inr k \<longrightarrow>
             k = d + 1 + length new \<and> (\<forall>it \<in> set its. js_leafIndex it \<le> lastSyncedLeaf w')"
          using Cons.IH [OF run] by blast
        then show ?thesis
          using incoming_note_form [OF Inr]
          by (intro exI [of _ "n # new"]) (auto simp: wallet_simps)
      qed
    qed
  qed
qed

lemma fetch_appends:
  assumes "fetchIncomingNotes poseidon decrypt http w = (w', res)"
  shows "\<exists>new. wnotes w' = wnotes w @ new
    \<and> (\<forall>n \<in> set new. \<not> spent n \<and> pending n = None \<and> owner n = spendingKeyHex w)
    \<and> spendingKey w' = spendingKey w \<and> nextBlinding w' = nextBlinding w
    \<and> lastSyncedLeaf w \<le> lastSyncedLeaf w' \<and> (\<forall>k. res = Inr k \<longrightarrow> k = length new)"
proof (cases "\<exists>ns. http (fetch_path w) = HttpOk (Some ns) \<and> ns \<noteq> []")
  case True
  then show ?thesis
    using assms fetch_loop_appends [of poseidon decrypt _ "map commitment (wnotes w)" 0 w w' res]
    by (fastforce simp: fetchIncomingNotes_def)
next
  case False
  then have "w' = w \<and> (\<forall>k. res = Inr k \<longrightarrow> k = 0)"
    using assms
    by (auto simp: fetchIncomingNotes_def split: http_response.splits option.splits if_splits)
  then show ?thesis by (intro exI [of _ "[]"]) auto
qed

text \<open>An item whose commitment is already held adds nothing; notes are matched by commitment only.\<close>

lemma fetch_loop_known:
  assumes "\<forall>it \<in> set its. js_commitment it \<in> set ex"
  shows "\<exists>l. fetch_loop poseidon decrypt its ex d w = (w\<lparr>lastSyncedLeaf := l\<rparr>, Inr d)"
  using assms
proof (induction its arbitrary: w)
  case Nil
  show ?case by (intro exI [of _ "lastSyncedLeaf w"]) simp
next
  case (Cons it its)
  then obtain l where
    "fetch_loop poseidon decrypt its ex d (advance_watermark it w)
       = ((advance_watermark it w)\<lparr>lastSyncedLeaf := l\<rparr>, Inr d)"
    by auto
  moreover have "(advance_watermark it w)\<lparr>lastSyncedLeaf := l\<rparr> = w\<lparr>lastSyncedLeaf := l\<rparr>"
    by (simp add: advance_watermark_def)
  ultimately show ?case
    using Cons.prems by (auto simp: Let_def)
qed

lemma fetch_loop_accepts:
  assumes "js_commitment it \<notin> set ex" "parse_bundle (js_encryptedNote it) = Some enc"
    and "decrypt enc (spendingKeyHex w) = Some pt"
    and "incoming_note poseidon (advance_watermark it w) (js_leafIndex it) pt = Inr n"
  shows "fetch_loop poseidon decrypt [it] ex d w
    = ((advance_watermark it w)\<lparr>wnotes := wnotes w @ [n]\<rparr>, Inr (d + 1))"
  using assms by (simp add: Let_def wallet_simps)

section \<open>Transactions in flight\<close>

record Session =
  wal :: Wallet
  inflight :: "nat list list"

definition session_init :: "Session \<Rightarrow> bool" where
  "session_init s \<longleftrightarrow> wnotes (wal s) = [] \<and> inflight s = []"

text \<open>
  A run of the wallet: deposits and syncs add notes (with commitments the wallet does not hold yet,
  as a collision-free hash gives), a prepared transaction reserves its inputs, and ends by being
  marked spent or unlocked.
\<close>

inductive wallet_step :: "(int list \<Rightarrow> int) \<Rightarrow> Session \<Rightarrow> Session \<Rightarrow> bool" for poseidon where
  deposit: "createDepositNote poseidon now amount (wal s) = (w', Inr n) \<Longrightarrow>
     commitment n \<notin> commitment ` set (wnotes (wal s)) \<Longrightarrow>
     wallet_step poseidon s (s\<lparr>wal := w'\<rparr>)"
| sync: "fetchIncomingNotes poseidon decrypt http (wal s) = (w', res) \<Longrightarrow>
     distinct_commitments w' \<Longrightarrow> wallet_step poseidon s (s\<lparr>wal := w'\<rparr>)"
| transfer: "selectNotes r (amount + fee) (wal s) = Inr ix \<Longrightarrow>
     prepareTransfer poseidon now r rcp amount fee (wal s) = (w', Inr res) \<Longrightarrow>
     wallet_step poseidon s (s\<lparr>wal := w', inflight := ix # inflight s\<rparr>)"
| withdraw: "selectNotes r (amount + fee) (wal s) = Inr ix \<Longrightarrow>
     prepareWithdraw poseidon now r amount fee (wal s) = (w', Inr res) \<Longrightarrow>
     wallet_step poseidon s (s\<lparr>wal := w', inflight := ix # inflight s\<rparr>)"
| commit: "ix \<in> set (inflight s) \<Longrightarrow>
     wallet_step poseidon s
       (s\<lparr>wal := markSpent (map (\<lambda>i. wnotes (wal s) ! i) ix) (wal s),
         inflight := remove1 ix (inflight s)\<rparr>)"
| abort: "ix \<in> set (inflight s) \<Longrightarrow>
     wallet_step poseidon s
       (s\<lparr>wal := unlockNotes (map (\<lambda>i. wnotes (wal s) ! i) ix) (wal s),
         inflight := remove1 ix (inflight s)\<rparr>)"

definition reserved_ok :: "Wallet \<Rightarrow> nat \<Rightarrow> bool" where
  "reserved_ok w i \<longleftrightarrow>
     i < length (wnotes w) \<and> \<not> spent (wnotes w ! i) \<and> pending (wnotes w ! i) = Some True"

definition session_inv :: "Session \<Rightarrow> bool" where
  "session_inv s \<longleftrightarrow>
     distinct_commitments (wal s) \<and> distinct (concat (inflight s)) \<and>
     (\<forall>i \<in> set (concat (inflight s)). reserved_ok (wal s) i)"

lemma concat_remove1:
  assumes "distinct (concat xss)" "ys \<in> set xss"
  shows "distinct (concat (remove1 ys xss))"
    and "set (concat (remove1 ys xss)) = set (concat xss) - set ys"
  using assms by (induction xss) (auto simp: disjoint_iff)

lemma reserved_append: "reserved_ok w i \<Longrightarrow> wnotes w' = wnotes w @ new \<Longrightarrow> reserved_ok w' i"
  by (auto simp: reserved_ok_def)

lemma session_reserve:
  assumes inv: "session_inv s" and cov: "covers (wal s) amount ix"
    and w': "wnotes w' = wnotes (lockNotes ix (wal s))"
  shows "session_inv (s\<lparr>wal := w', inflight := ix # inflight s\<rparr>)"
proof -
  have "set ix \<inter> set (concat (inflight s)) = {}"
    using inv cov by (auto simp: session_inv_def covers_def reserved_ok_def spendable_def)
  moreover have "map commitment (wnotes w') = map commitment (wnotes (wal s))"
    unfolding w' by (rule map_lockNotes) simp
  moreover have "reserved_ok w' i" if "i \<in> set ix" for i
    using that cov by (auto simp: reserved_ok_def covers_def spendable_def w' wallet_simps)
  moreover have "reserved_ok w' i" if "reserved_ok (wal s) i" for i
    using that by (auto simp: reserved_ok_def w' wallet_simps)
  ultimately show ?thesis
    using inv cov by (auto simp: session_inv_def distinct_commitments_def covers_def)
qed

lemma session_release:
  assumes inv: "session_inv s" and ix: "ix \<in> set (inflight s)"
    and comm: "map commitment (wnotes w') = map commitment (wnotes (wal s))"
    and keep: "\<And>i. i < length (wnotes (wal s)) \<Longrightarrow> i \<notin> set ix \<Longrightarrow> wnotes w' ! i = wnotes (wal s) ! i"
  shows "session_inv (s\<lparr>wal := w', inflight := remove1 ix (inflight s)\<rparr>)"
proof -
  have len: "length (wnotes w') = length (wnotes (wal s))"
    using comm by (metis length_map)
  have d: "distinct (concat (inflight s))"
    using inv by (simp only: session_inv_def)
  have "reserved_ok w' i" if i: "i \<in> set (concat (remove1 ix (inflight s)))" for i
  proof -
    have "i \<notin> set ix" "i \<in> set (concat (inflight s))"
      using i concat_remove1(2) [OF d ix] by blast+
    moreover from this have "reserved_ok (wal s) i"
      using inv unfolding session_inv_def by blast
    ultimately show ?thesis
      using keep [of i] len by (simp add: reserved_ok_def)
  qed
  moreover have "distinct (concat (remove1 ix (inflight s)))"
    by (rule concat_remove1(1) [OF d ix])
  ultimately show ?thesis
    using inv comm by (simp add: session_inv_def distinct_commitments_def)
qed

lemma reserved_positions:
  "session_inv s \<Longrightarrow> ix \<in> set (inflight s) \<Longrightarrow> \<forall>j \<in> set ix. j < length (wnotes (wal s))"
  by (auto simp: session_inv_def reserved_ok_def)

lemma session_step:
  assumes "wallet_step poseidon s t" "session_inv s"
  shows "session_inv t"
  using assms
proof (induction rule: wallet_step.induct)
  case (deposit now amount s w' n)
  then show ?case
    using createDepositNote_cases(1) [OF deposit.hyps(1)]
    by (auto simp: session_inv_def distinct_commitments_def intro: reserved_append)
next
  case (sync decrypt http s w' res)
  then show ?case
    using fetch_appends [OF sync.hyps(1)]
    by (auto simp: session_inv_def intro: reserved_append)
next
  case (transfer r amount fee s ix now rcp w' res)
  obtain ins outs where "res = (ins, outs)" by (cases res)
  then have "prepareTransfer poseidon now r rcp amount fee (wal s) = (w', Inr (ins, outs))"
    using transfer.hyps by simp
  then show ?case
  proof (rule prepareTransfer_cases)
    fix jx assume "selectNotes r (amount + fee) (wal s) = Inr jx"
      "covers (wal s) (amount + fee) jx" "wnotes w' = wnotes (lockNotes jx (wal s))"
    with transfer show ?case by (auto intro: session_reserve)
  qed
next
  case (withdraw r amount fee s ix now w' res)
  obtain ins outs where "res = (ins, outs)" by (cases res)
  then have "prepareWithdraw poseidon now r amount fee (wal s) = (w', Inr (ins, outs))"
    using withdraw.hyps by simp
  then show ?case
  proof (rule prepareWithdraw_cases)
    fix jx assume "selectNotes r (amount + fee) (wal s) = Inr jx"
      "covers (wal s) (amount + fee) jx" "wnotes w' = wnotes (lockNotes jx (wal s))"
    with withdraw show ?case by (auto intro: session_reserve)
  qed
next
  case (commit ix s)
  let ?w = "wal s"
  have "wnotes (markSpent (map ((!) (wnotes ?w)) ix) ?w) ! i = wnotes ?w ! i"
    if "i < length (wnotes ?w)" "i \<notin> set ix" for i
    using that commit commitment_position [of ?w i ix] reserved_positions [of s ix]
    by (subst nth_markSpent) (auto simp: session_inv_def)
  with commit show ?case by (intro session_release) (auto simp: wallet_simps)
next
  case (abort ix s)
  let ?w = "wal s"
  have "wnotes (unlockNotes (map ((!) (wnotes ?w)) ix) ?w) ! i = wnotes ?w ! i"
    if "i < length (wnotes ?w)" "i \<notin> set ix" for i
    using that abort commitment_position [of ?w i ix] reserved_positions [of s ix]
    by (subst nth_unlockNotes) (auto simp: session_inv_def)
  with abort show ?case by (intro session_release) (auto simp: wallet_simps)
qed

interpretation wallet_session: invariant_system session_init "wallet_step poseidon" session_inv
  for poseidon
proof
  show "session_inv s" if "session_init s" for s
    using that by (simp add: session_init_def session_inv_def distinct_commitments_def)
  show "session_inv t" if "session_inv s" "wallet_step poseidon s t" for s t
    using session_step that by blast
qed

section \<open>Persistence\<close>

definition settle :: "Note \<Rightarrow> Note" where
  "settle n = n\<lparr>pending := Some (pending n = Some True)\<rparr>"

lemma spendable_settle [simp]: "spendable (settle n) = spendable n"
  by (auto simp: spendable_def settle_def)

lemma load_save:
  assumes "spendingKey w \<noteq> []"
  shows "load poseidon (save w) =
    Inr (w\<lparr>viewingKey := poseidonHashHex poseidon [key_field w], wnotes := map settle (wnotes w)\<rparr>)"
proof -
  let ?snap = "\<lambda>n. \<lparr>s_owner = owner n, s_value = bigint_to_string 10 (noteValue n),
      s_assetId = assetId n, s_blinding = blinding n, s_commitment = commitment n,
      s_nullifier = nullifier n, s_spent = spent n,
      s_pending = (case pending n of None \<Rightarrow> False | Some b \<Rightarrow> b), s_leafIndex = leafIndex n\<rparr>"
  let ?rec = "\<lambda>r. \<lparr>s_kind = kind r, s_amount = bigint_to_string 10 (tx_amount r),
      s_timestamp = timestamp r\<rparr>"
  have n: "load_note (?snap n) = Inr (settle n)" for n :: Note
    by (auto simp: load_note_def settle_def split: option.split)
  have r: "load_record (?rec r) = Inr r" for r :: TxRecord
    by (simp add: load_record_def)
  have "map_result load_note (map ?snap ns) = Inr (map settle ns)" for ns
    by (induction ns) (simp_all add: n)
  moreover have "map_result load_record (map ?rec h) = Inr h" for h
    by (induction h) (simp_all add: r)
  moreover have "hexToField (spendingKeyHex (newWallet (spendingKey w))) = Inr (key_field w)"
    using hexToField_key [OF assms] by (simp add: spendingKeyHex_def newWallet_def)
  ultimately show ?thesis
    by (simp add: load_def save_def initViewingKey_def codec_simps newWallet_def)
qed


section \<open>Properties of the wallet\<close>

text \<open>A hash and a wallet to evaluate the properties on.\<close>

definition sample_hash :: "int list \<Rightarrow> int" where
  "sample_hash xs = foldl (\<lambda>a x. (31 * a + x) mod bn254_order) 7 xs"

definition sample_note :: "int \<Rightarrow> string \<Rightarrow> Note" where
  "sample_note v c = \<lparr>owner = ''01'', noteValue = v, assetId = ''00'', blinding = ''02'',
     commitment = c, nullifier = ''03'', leafIndex = None, spent = False, pending = None\<rparr>"

definition sample_wallet :: Wallet where
  "sample_wallet = (newWallet [1])\<lparr>wnotes := [sample_note 5 ''0a'', sample_note 7 ''0b'']\<rparr>"

lemma field_hash_sample: "field_hash sample_hash"
proof -
  have "0 \<le> foldl (\<lambda>a x. (31 * a + x) mod bn254_order) a xs \<and>
      foldl (\<lambda>a x. (31 * a + x) mod bn254_order) a xs < bn254_order"
    if "0 \<le> a" "a < bn254_order" for a xs
    using that by (induction xs arbitrary: a) (auto simp: bn254_order_def)
  then show ?thesis
    by (simp add: field_hash_def sample_hash_def bn254_order_def)
qed

lemma sample_wallet_key [simp]: "spendingKey sample_wallet \<noteq> []"
  by (simp add: sample_wallet_def newWallet_def)

lemma sample_wallet_covers: "covers sample_wallet 10 [0, 1]"
  by (simp add: covers_def note_sum_def spendable_def sample_wallet_def newWallet_def sample_note_def)

lemma sample_wallet_distinct: "distinct_commitments sample_wallet"
  by (simp add: distinct_commitments_def sample_wallet_def newWallet_def sample_note_def)

text \<open>The inputs of a prepared transaction are the wallet's own notes, now reserved.\<close>

definition reserved_inputs :: "Wallet \<Rightarrow> Wallet \<Rightarrow> int \<Rightarrow> Note list \<Rightarrow> bool" where
  "reserved_inputs w w' amount ins \<longleftrightarrow>
     (\<exists>ix. covers w amount ix \<and> ins = map (\<lambda>i. wnotes w' ! i) ix \<and>
        length (wnotes w') = length (wnotes w) \<and>
        (\<forall>j < length (wnotes w). wnotes w' ! j =
           (if j \<in> set ix then (wnotes w ! j)\<lparr>pending := Some True\<rparr> else wnotes w ! j)))"

lemma reserved_inputs_lock:
  assumes "covers w amount ix" "wnotes w' = wnotes (lockNotes ix w)"
    and "ins = map (\<lambda>i. wnotes (lockNotes ix w) ! i) ix"
  shows "reserved_inputs w w' amount ins"
  unfolding reserved_inputs_def using assms
  by (intro exI [of _ ix]) (auto simp: wallet_simps)

lemma balance_same_notes: "wnotes w' = wnotes w \<Longrightarrow> balance w' = balance w"
  by (simp add: balance_def)





text \<open>
  C12. Coin selection is sound and complete: whatever random word is drawn, \<open>selectNotes\<close> returns one
  or two different spendable notes that cover the amount, and it throws (the insufficient-balance
  message) exactly when no one or two spendable notes cover it, even if three would.
\<close>

theorem selectNotes_correct:
  "case selectNotes r amount w of
     Inr ix \<Rightarrow> covers w amount ix
   | Inl e \<Rightarrow> e = insufficient amount w \<and> \<not> (\<exists>ix. covers w amount ix)"
  using selectNotes_covers [of r amount w] selectNotes_error [of r amount w]
  by (auto split: sum.split)



definition fresh_session :: Session where
  "fresh_session = \<lparr>wal = newWallet [1], inflight = []\<rparr>"

lemma fresh_session_key: "spendingKey (wal fresh_session) \<noteq> []"
  by (simp add: fresh_session_def newWallet_def)

lemma session_with_transfer:
  "\<exists>s. reachable session_init (wallet_step sample_hash) s \<and> length (inflight s) = 1"
proof -
  have init: "reachable session_init (wallet_step sample_hash) fresh_session"
    by (rule reach_init) (simp add: session_init_def fresh_session_def newWallet_def)
  obtain w n where w: "createDepositNote sample_hash 0 12 (wal fresh_session) = (w, Inr n)"
    using createDepositNote_returns [OF fresh_session_key field_hash_sample] by blast
  note dep = createDepositNote_cases [OF w]
  have "wallet_step sample_hash fresh_session (fresh_session\<lparr>wal := w\<rparr>)"
    by (rule wallet_step.deposit [OF w]) (simp add: fresh_session_def newWallet_def)
  then have r1: "reachable session_init (wallet_step sample_hash) (fresh_session\<lparr>wal := w\<rparr>)"
    using init by (rule reach_step [rotated])
  have cov: "covers w (10 + 2) [0]"
    using dep by (simp add: covers_def note_sum_def spendable_def fresh_session_def newWallet_def)
  obtain ix where ix: "selectNotes 0 (10 + 2) w = Inr ix"
    using selectNotes_complete [OF cov] by blast
  have "spendingKey w \<noteq> []"
    using dep by (simp add: fresh_session_def newWallet_def)
  then obtain w' res where "prepareTransfer sample_hash 0 0 ''05'' 10 2 w = (w', Inr res)"
    using prepareTransfer_returns [OF _ cov] by blast
  then have "wallet_step sample_hash (fresh_session\<lparr>wal := w\<rparr>)
      (fresh_session\<lparr>wal := w', inflight := [ix]\<rparr>)"
    using wallet_step.transfer [of 0 10 2 "fresh_session\<lparr>wal := w\<rparr>" ix sample_hash 0 "''05''" w' res] ix
    by (simp add: fresh_session_def)
  then show ?thesis
    using reach_step [OF r1] by fastforce
qed


text \<open>A selection's notes are found by their commitments in the set they came from.\<close>

lemma reserved_inputs_nth:
  assumes "reserved_inputs w w' amount ins" "distinct_commitments w"
  obtains ix where "covers w amount ix" "ins = map (\<lambda>i. wnotes w' ! i) ix"
    and "distinct_commitments w'" "length (wnotes w') = length (wnotes w)"
    and "\<And>j. j < length (wnotes w) \<Longrightarrow>
       wnotes w' ! j = (if j \<in> set ix then (wnotes w ! j)\<lparr>pending := Some True\<rparr> else wnotes w ! j)"
    and "note_sum w' ix = note_sum w ix"
proof -
  obtain ix where ix: "covers w amount ix" "ins = map (\<lambda>i. wnotes w' ! i) ix"
    "length (wnotes w') = length (wnotes w)"
    "\<forall>j < length (wnotes w). wnotes w' ! j
       = (if j \<in> set ix then (wnotes w ! j)\<lparr>pending := Some True\<rparr> else wnotes w ! j)"
    using assms(1) by (auto simp: reserved_inputs_def)
  then have "map commitment (wnotes w') = map commitment (wnotes w)"
    by (intro nth_equalityI) auto
  then have d: "distinct_commitments w'"
    using assms(2) by (simp add: distinct_commitments_def)
  have "note_sum w' ix = note_sum w ix"
    using ix by (auto simp: note_sum_def covers_def intro!: arg_cong [of _ _ sum_list])
  with ix d show thesis
    by (intro that) auto
qed

lemma prepareTransfer_reserved:
  assumes "prepareTransfer poseidon now r rcp amount fee w = (w', Inr (ins, outs))"
  shows "reserved_inputs w w' (amount + fee) ins \<and> balance w' = balance w"
  using assms
proof (rule prepareTransfer_cases)
  fix ix
  assume "covers w (amount + fee) ix" "wnotes w' = wnotes (lockNotes ix w)"
    "ins = map (\<lambda>i. wnotes (lockNotes ix w) ! i) ix"
  then show ?thesis
    using reserved_inputs_lock balance_same_notes [of w' "lockNotes ix w"]
    by (auto simp: wallet_simps)
qed

lemma prepareWithdraw_reserved:
  assumes "prepareWithdraw poseidon now r amount fee w = (w', Inr (ins, outs))"
  shows "reserved_inputs w w' (amount + fee) ins \<and> balance w' = balance w"
  using assms
proof (rule prepareWithdraw_cases)
  fix ix
  assume "covers w (amount + fee) ix" "wnotes w' = wnotes (lockNotes ix w)"
    "ins = map (\<lambda>i. wnotes (lockNotes ix w) ! i) ix"
  then show ?thesis
    using reserved_inputs_lock balance_same_notes [of w' "lockNotes ix w"]
    by (auto simp: wallet_simps)
qed

text \<open>How a reservation ends: the inputs are marked spent, or unlocked.\<close>

lemma reserved_ends:
  assumes "reserved_inputs w w' amount ins" "balance w' = balance w" "distinct_commitments w"
  shows "balance (markSpent ins w') = balance w - sum_list (map noteValue ins)
    \<and> unspent_ix (markSpent ins w') = unspent_ix w'
    \<and> unspent_ix (unlockNotes ins w') = unspent_ix w
    \<and> balance (unlockNotes ins w') = balance w
    \<and> (\<forall>n \<in> set (unspentNotes w'). commitment n \<notin> commitment ` set ins)"
proof -
  obtain ix where ix: "covers w amount ix"
    "ins = map (\<lambda>i. wnotes w' ! i) ix" "distinct_commitments w'"
    "length (wnotes w') = length (wnotes w)"
    "\<And>j. j < length (wnotes w) \<Longrightarrow> wnotes w' ! j
       = (if j \<in> set ix then (wnotes w ! j)\<lparr>pending := Some True\<rparr> else wnotes w ! j)"
    "note_sum w' ix = note_sum w ix"
    using assms(1,3) by (auto elim: reserved_inputs_nth)
  note bal = assms(2)
  have range: "\<forall>i \<in> set ix. i < length (wnotes w')" "distinct ix"
    using ix(1) by (simp_all add: covers_def ix(4))
  have pos: "commitment (wnotes w' ! i) \<in> commitment ` set ins \<longleftrightarrow> i \<in> set ix"
    if "i < length (wnotes w)" for i
    unfolding ix(2) by (rule commitment_position [OF ix(3) _ range(1)]) (simp add: ix(4) that)
  have "\<forall>i \<in> set ix. i < length (wnotes w') \<and> \<not> spent (wnotes w' ! i)"
    using ix(1) by (auto simp: covers_def ix(4) ix(5) spendable_def)
  then have spent: "balance (markSpent ins w') = balance w - sum_list (map noteValue ins)"
    unfolding ix(2) bal [symmetric] by (subst balance_markSpent [OF ix(3) range(2)])
      (simp_all add: note_sum_def comp_def)
  have locked: "\<not> spendable (wnotes w' ! j)" "spendable ((wnotes w' ! j)\<lparr>pending := Some False\<rparr>)"
    if "j \<in> set ix" for j
    using that ix(1) by (auto simp: ix(5) covers_def spendable_def)
  have spent_note: "\<not> spendable (n\<lparr>spent := True, pending := p\<rparr>)" for n :: Note and p
    by (simp add: spendable_def)
  have "unspent_ix (markSpent ins w') = unspent_ix w'"
    unfolding unspent_ix_def wallet_simps
    by (rule filter_cong) (auto simp: nth_markSpent ix(4) pos locked spent_note)
  moreover have "unspent_ix (unlockNotes ins w') = unspent_ix w"
    unfolding unspent_ix_def wallet_simps ix(4)
    by (rule filter_cong)
      (use ix(1) in \<open>auto simp: nth_unlockNotes ix(4) pos locked covers_def\<close>, auto simp: ix(5))
  moreover have "balance (unlockNotes ins w') = balance w'"
  proof -
    have "map (\<lambda>n. if spent n then 0 else noteValue n) (wnotes (unlockNotes ins w'))
        = map (\<lambda>n. if spent n then 0 else noteValue n) (wnotes w')"
      by (intro nth_equalityI) (auto simp: wallet_simps nth_unlockNotes)
    then show ?thesis
      by (simp only: balance_as_map)
  qed
  moreover have "\<forall>n \<in> set (unspentNotes w'). commitment n \<notin> commitment ` set ins"
  proof
    fix n assume "n \<in> set (unspentNotes w')"
    then obtain j where "j < length (wnotes w)" "n = wnotes w' ! j" "spendable n"
      by (auto simp: unspentNotes_def unspent_ix_def ix(4))
    then show "commitment n \<notin> commitment ` set ins"
      using pos locked(1) by blast
  qed
  ultimately show ?thesis
    using spent bal by simp
qed






text \<open>
  C20. A sync that returns has appended exactly the notes it counts, all unspent and owned by the
  wallet; the balance grows by their sum, nothing already held changes, the sync position covers
  every leaf of the response, and a response that only repeats held commitments adds nothing.
\<close>

theorem sync_appends_what_it_counts:
  assumes "http (fetch_path w) = HttpOk (Some its)"
    and "fetchIncomingNotes poseidon decrypt http w = (w', Inr k)"
  shows "\<exists>new. wnotes w' = wnotes w @ new \<and> length new = k
    \<and> (\<forall>n \<in> set new. \<not> spent n \<and> pending n = None \<and> owner n = spendingKeyHex w)
    \<and> balance w' = balance w + sum_list (map noteValue new)
    \<and> (\<forall>it \<in> set its. js_leafIndex it \<le> lastSyncedLeaf w') \<and> lastSyncedLeaf w \<le> lastSyncedLeaf w'
    \<and> ((\<forall>it \<in> set its. js_commitment it \<in> set (map commitment (wnotes w))) \<longrightarrow> new = [])"
proof -
  have run: "fetch_loop poseidon decrypt its (map commitment (wnotes w)) 0 w = (w', Inr k)"
    using assms by (cases its) (auto simp: fetchIncomingNotes_def)
  obtain new where new: "wnotes w' = wnotes w @ new" "length new = k"
    "\<forall>n \<in> set new. \<not> spent n \<and> pending n = None \<and> owner n = spendingKeyHex w"
    "lastSyncedLeaf w \<le> lastSyncedLeaf w'" "\<forall>it \<in> set its. js_leafIndex it \<le> lastSyncedLeaf w'"
    using fetch_loop_appends [OF run] by auto
  have "filter (\<lambda>n. \<not> spent n) new = new"
    using new(3) by simp
  then have "balance w' = balance w + sum_list (map noteValue new)"
    by (simp add: balance_def new(1))
  moreover have "new = []" if "\<forall>it \<in> set its. js_commitment it \<in> set (map commitment (wnotes w))"
    using fetch_loop_known [OF that, of poseidon decrypt 0 w] run new by auto
  ultimately show ?thesis
    using new by blast
qed

definition sample_item :: IndexedJson where
  "sample_item = \<lparr>js_commitment = ''ff'', js_leafIndex = 4,
     js_encryptedNote = buffer_to_hex (replicate 65 1)\<rparr>"

definition sample_plaintext :: NotePlaintext where
  "sample_plaintext = \<lparr>pt_value = 3, pt_blinding = ''02'', pt_assetId = ''00''\<rparr>"

lemma sample_bundle: "\<exists>enc. parse_bundle (js_encryptedNote sample_item) = Some enc"
  by (simp add: sample_item_def parse_bundle_def codec_simps Let_def)

lemma sample_incoming:
  assumes "spendingKeyHex w = buffer_to_hex [1]"
  shows "\<exists>n. incoming_note sample_hash w leaf sample_plaintext = Inr n"
proof -
  have "hexToField ''00'' = Inr 0" "hexToField ''02'' = Inr 2" "hexToField (buffer_to_hex [1]) = Inr 1"
    by (simp_all add: hexToField_literal [of _ "[0, 0]"] hexToField_literal [of _ "[0, 2]"]
        hexToField_literal [of _ "[0, 1]"] digit_val_def hex_val_def digits_value_Cons byte_hex_def
        hex_digit_def)
  then show ?thesis
    using hexToField_poseidonHashHex [OF field_hash_sample]
    by (simp add: incoming_note_def Let_def computeCommitment_def computeNullifier_def assms
        sample_plaintext_def)
qed


definition sample_decrypt :: "EncryptedNote \<Rightarrow> string \<Rightarrow> NotePlaintext option" where
  "sample_decrypt enc key = Some sample_plaintext"

definition sample_http :: "string \<Rightarrow> http_response" where
  "sample_http path = HttpOk (Some [sample_item])"

lemma sample_key [simp]: "spendingKeyHex sample_wallet = buffer_to_hex [1]"
  by (simp add: spendingKeyHex_def sample_wallet_def newWallet_def)

lemma sample_sync:
  assumes "spendingKeyHex w = buffer_to_hex [1]" "''ff'' \<notin> set (map commitment (wnotes w))"
  shows "\<exists>n w'. incoming_note sample_hash w 4 sample_plaintext = Inr n
    \<and> fetchIncomingNotes sample_hash sample_decrypt sample_http w = (w', Inr 1)"
proof -
  obtain enc where enc: "parse_bundle (js_encryptedNote sample_item) = Some enc"
    using sample_bundle by blast
  have key: "spendingKeyHex (advance_watermark sample_item w) = buffer_to_hex [1]"
    using assms(1) by (simp add: advance_watermark_def)
  obtain n where "incoming_note sample_hash (advance_watermark sample_item w) 4 sample_plaintext = Inr n"
    using sample_incoming [OF key] by blast
  then have "fetchIncomingNotes sample_hash sample_decrypt sample_http w =
      ((advance_watermark sample_item w)\<lparr>wnotes := wnotes w @ [n]\<rparr>, Inr 1)"
    using fetch_loop_accepts [of sample_item "map commitment (wnotes w)" enc sample_decrypt w
        sample_plaintext sample_hash n 0] assms(2) enc
    by (simp add: fetchIncomingNotes_def sample_http_def sample_decrypt_def sample_item_def)
  then show ?thesis
    using sample_incoming [OF assms(1)] by blast
qed

lemma sync_appends_what_it_counts_witness:
  "\<exists>w'. fetchIncomingNotes sample_hash sample_decrypt sample_http sample_wallet = (w', Inr 1)
     \<and> 4 \<le> lastSyncedLeaf w'"
proof -
  have "''ff'' \<notin> set (map commitment (wnotes sample_wallet))"
    by (simp add: sample_wallet_def sample_note_def newWallet_def)
  then obtain w' where
    run: "fetchIncomingNotes sample_hash sample_decrypt sample_http sample_wallet = (w', Inr 1)"
    using sample_sync by force
  have "sample_http (fetch_path sample_wallet) = HttpOk (Some [sample_item])"
    by (simp add: sample_http_def)
  from sync_appends_what_it_counts [OF this run] run show ?thesis
    by (auto simp: sample_item_def)
qed

text \<open>
  A sync trusts the plaintext it decrypts: an indexed item under a commitment the wallet does
  not hold credits the decrypted value, whatever commitment the item carries, and when that is not
  the note's own commitment the very same response credits the value a second time.
\<close>

theorem sync_does_not_check_commitment:
  assumes "\<And>path. http path = HttpOk (Some [it])"
    and "js_commitment it \<notin> set (map commitment (wnotes w))"
    and "parse_bundle (js_encryptedNote it) = Some enc"
    and "decrypt enc (spendingKeyHex w) = Some pt"
    and "incoming_note poseidon w (js_leafIndex it) pt = Inr n"
    and "commitment n \<noteq> js_commitment it"
  shows "\<exists>w1 w2. fetchIncomingNotes poseidon decrypt http w = (w1, Inr 1)
    \<and> balance w1 = balance w + pt_value pt
    \<and> fetchIncomingNotes poseidon decrypt http w1 = (w2, Inr 1)
    \<and> balance w2 = balance w + 2 * pt_value pt"
proof -
  have key: "spendingKeyHex (advance_watermark it v) = spendingKeyHex v" for v
    by (simp add: advance_watermark_def)
  have inc: "incoming_note poseidon v (js_leafIndex it) pt = Inr n"
    if "spendingKeyHex v = spendingKeyHex w" for v
    using assms(5) by (simp add: incoming_note_def computeNullifier_def Let_def that)
  have once: "fetchIncomingNotes poseidon decrypt http v =
      ((advance_watermark it v)\<lparr>wnotes := wnotes v @ [n]\<rparr>, Inr 1)"
    if "js_commitment it \<notin> set (map commitment (wnotes v))" "spendingKeyHex v = spendingKeyHex w" for v
    using fetch_loop_accepts [OF that(1) assms(3) _ inc] that assms(1,4) key
    by (simp add: fetchIncomingNotes_def)
  have bal: "balance ((advance_watermark it v)\<lparr>wnotes := wnotes v @ [n]\<rparr>) = balance v + pt_value pt" for v
    using incoming_note_form [OF assms(5)] by (simp add: balance_def)
  let ?w1 = "(advance_watermark it w)\<lparr>wnotes := wnotes w @ [n]\<rparr>"
  have "js_commitment it \<notin> set (map commitment (wnotes ?w1))" "spendingKeyHex ?w1 = spendingKeyHex w"
    using assms(2,6) key by auto
  from once [OF this] once [OF assms(2) refl] show ?thesis
    using bal [of w] bal [of ?w1] by auto
qed


lemma sync_does_not_check_commitment_witness:
  "\<exists>w1 w2. fetchIncomingNotes sample_hash sample_decrypt sample_http sample_wallet = (w1, Inr 1)
    \<and> balance w1 = balance sample_wallet + 3
    \<and> fetchIncomingNotes sample_hash sample_decrypt sample_http w1 = (w2, Inr 1)
    \<and> balance w2 = balance sample_wallet + 6"
proof -
  obtain enc where enc: "parse_bundle (js_encryptedNote sample_item) = Some enc"
    using sample_bundle by blast
  obtain n where n: "incoming_note sample_hash sample_wallet (js_leafIndex sample_item) sample_plaintext = Inr n"
    using sample_incoming [OF sample_key] by (auto simp: sample_item_def)
  have "computeCommitment sample_hash n = Inr (commitment n)"
    using incoming_note_form [OF n] by blast
  then obtain xs where "commitment n = poseidonHashHex sample_hash xs"
    by (auto simp: computeCommitment_def bind_result_Inr_iff dest: sym)
  then have "length (commitment n) = 64"
    by (simp add: poseidonHashHex_length [OF field_hash_sample])
  then have "commitment n \<noteq> js_commitment sample_item"
    by (auto simp: sample_item_def)
  moreover have "js_commitment sample_item \<notin> set (map commitment (wnotes sample_wallet))"
    by (simp add: sample_wallet_def sample_note_def newWallet_def sample_item_def)
  ultimately show ?thesis
    using sync_does_not_check_commitment [of sample_http sample_item sample_wallet enc
        sample_decrypt sample_plaintext sample_hash n] enc n
    by (simp add: sample_http_def sample_decrypt_def sample_plaintext_def)
qed

end
