(* ===== verification/Sdk_Prover.thy ===== *)
theory Sdk_Prover
  imports Sdk_Wallet_Session "HOL-Library.AList"
begin

text \<open>
  sdk/typescript/src/prover.ts: the circuit inputs built from notes and the conversion of proofs.
  An input object is the list of its properties in order; \<open>snarkjs.groth16\<close> and the file system
  are arguments. The signal names a circuit declares are those of circuits/*/*.circom.
\<close>

section \<open>Values handed to the prover\<close>

datatype json = JStr string | JArr "json list"

type_synonym input_object = "(string \<times> json) list"

text \<open>The spread \<open>{...base, k: v}\<close> replaces a property in place or appends it.\<close>

definition with_fields :: "input_object \<Rightarrow> input_object \<Rightarrow> input_object" where
  "with_fields base upd = fold (\<lambda>(k, v) o'. AList.update k v o') upd base"

lemma map_of_with_fields:
  "map_of (with_fields base upd) = map_of base ++ map_of (rev upd)"
  by (induction upd arbitrary: base)
    (auto simp: with_fields_def update_conv' map_add_def fun_eq_iff split: option.split)

record TransferProveParams =
  tp_spendingKey :: string
  inputNotes :: "Note list"
  outputNotes :: "Note list"
  tp_fee :: int
  merklePathElements :: "string list list option"
  merklePathIndices :: "string list list option"

record TransferV2ProveParams = TransferProveParams +
  tv_chainId :: int
  tv_appId :: int

record StealthTransferProveParams = TransferProveParams +
  ephemeralKey :: string
  recipientSpendingPubkey :: string

record Transfer4x4ProveParams = TransferProveParams +
  hasInput :: "bool list"
  hasOutput :: "bool list"

record Withdraw4x4ProveParams = Transfer4x4ProveParams +
  w4_exitValue :: int

record WithdrawProveParams =
  wp_spendingKey :: string
  wp_inputNotes :: "Note list"
  wp_outputNotes :: "Note list"
  wp_exitValue :: int
  wp_fee :: int

record WithdrawV2ProveParams = WithdrawProveParams +
  wv_chainId :: int
  wv_appId :: int

record WealthProofProveParams =
  wl_spendingKey :: string
  wl_inputNotes :: "Note list"
  threshold :: int
  wl_merklePathElements :: "string list list option"
  wl_merklePathIndices :: "string list list option"

section \<open>Helpers\<close>

definition hexToBigInt :: "string \<Rightarrow> js_error + int" where
  "hexToBigInt hex0 =
     (let hex = (if starts_with ''0x'' hex0 then drop 2 hex0 else hex0) in
      if hex = zero_hash then Inr 0
      else (case bigint_of_string (''0x'' @ hex) of None \<Rightarrow> Inl SyntaxError | Some v \<Rightarrow> Inr v))"

definition dummy_note :: Note where
  "dummy_note = \<lparr>owner = zero_hash, noteValue = 0, assetId = zero_hash, blinding = zero_hash,
     commitment = zero_hash, nullifier = zero_hash, leafIndex = None, spent = False, pending = None\<rparr>"

function padNotes :: "Note list \<Rightarrow> nat \<Rightarrow> Note list" where
  "padNotes notes target = (if length notes < target then padNotes (notes @ [dummy_note]) target else notes)"
  by auto
termination by (relation "measure (\<lambda>(notes, target). target - length notes)") auto

declare padNotes.simps [simp del]

definition path_or_default :: "string list list option \<Rightarrow> nat \<Rightarrow> json" where
  "path_or_default paths i =
     (let default = JArr (replicate 20 (JStr ''0'')) in
      case paths of
        None \<Rightarrow> default
      | Some ps \<Rightarrow> (if i < length ps then JArr (map JStr (ps ! i)) else default))"

definition hex_decimal :: "string \<Rightarrow> js_error + json" where
  "hex_decimal hex = bind_result (hexToBigInt hex) (\<lambda>v. Inr (JStr (bigint_to_string 10 v)))"

definition value_column :: "Note list \<Rightarrow> json" where
  "value_column ns = JArr (map (\<lambda>n. JStr (bigint_to_string 10 (noteValue n))) ns)"

definition hex_column :: "(Note \<Rightarrow> string) \<Rightarrow> Note list \<Rightarrow> js_error + json" where
  "hex_column f ns = bind_result (map_result (\<lambda>n. hex_decimal (f n)) ns) (\<lambda>js. Inr (JArr js))"

definition path_column :: "string list list option \<Rightarrow> Note list \<Rightarrow> json" where
  "path_column paths ns = JArr (map (path_or_default paths) [0..<length ns])"

definition flag_column :: "bool list \<Rightarrow> json" where
  "flag_column bs = JArr (map (\<lambda>b. JStr (if b then ''1'' else ''0'')) bs)"

section \<open>Input builders\<close>

definition buildTransferInput :: "('a TransferProveParams_scheme) \<Rightarrow> js_error + input_object" where
  "buildTransferInput params =
     (let inputs = padNotes (inputNotes params) 2;
          outputs = padNotes (outputNotes params) 2 in
      bind_result (hex_decimal (tp_spendingKey params)) (\<lambda>sk.
      bind_result (hex_column blinding inputs) (\<lambda>inBl.
      bind_result (hex_column assetId inputs) (\<lambda>inAs.
      bind_result (hex_column owner outputs) (\<lambda>outOw.
      bind_result (hex_column blinding outputs) (\<lambda>outBl.
      bind_result (hex_column assetId outputs) (\<lambda>outAs.
        Inr [(''spending_key'', sk),
             (''input_value'', value_column inputs),
             (''input_blinding'', inBl),
             (''input_asset_id'', inAs),
             (''merkle_path_elements'', path_column (merklePathElements params) inputs),
             (''merkle_path_indices'', path_column (merklePathIndices params) inputs),
             (''output_owner'', outOw),
             (''output_value'', value_column outputs),
             (''output_blinding'', outBl),
             (''output_asset_id'', outAs),
             (''fee'', JStr (bigint_to_string 10 (tp_fee params)))])))))))"

definition buildWithdrawInput :: "('a WithdrawProveParams_scheme) \<Rightarrow> js_error + input_object" where
  "buildWithdrawInput params =
     bind_result
       (buildTransferInput
          \<lparr>tp_spendingKey = wp_spendingKey params, inputNotes = wp_inputNotes params,
           outputNotes = wp_outputNotes params, tp_fee = wp_fee params,
           merklePathElements = None, merklePathIndices = None\<rparr>)
       (\<lambda>base. Inr (with_fields base
          [(''exit_value'', JStr (bigint_to_string 10 (wp_exitValue params)))]))"

definition buildTransfer4x4Input ::
    "('a Transfer4x4ProveParams_scheme) \<Rightarrow> js_error + input_object" where
  "buildTransfer4x4Input params =
     (let inputs = padNotes (inputNotes params) 4;
          outputs = padNotes (outputNotes params) 4;
          hasIn = take 4 (hasInput params @ replicate 4 False);
          hasOut = take 4 (hasOutput params @ replicate 4 False) in
      bind_result (hex_decimal (tp_spendingKey params)) (\<lambda>sk.
      bind_result (hex_column blinding inputs) (\<lambda>inBl.
      bind_result (hex_column assetId inputs) (\<lambda>inAs.
      bind_result (hex_column owner outputs) (\<lambda>outOw.
      bind_result (hex_column blinding outputs) (\<lambda>outBl.
      bind_result (hex_column assetId outputs) (\<lambda>outAs.
        Inr [(''spending_key'', sk),
             (''value'', value_column inputs),
             (''blinding'', inBl),
             (''asset_id'', inAs),
             (''has_input'', flag_column hasIn),
             (''merkle_path_elements'', path_column (merklePathElements params) inputs),
             (''merkle_path_indices'', path_column (merklePathIndices params) inputs),
             (''output_owner'', outOw),
             (''output_value'', value_column outputs),
             (''output_blinding'', outBl),
             (''output_asset_id'', outAs),
             (''has_output'', flag_column hasOut),
             (''fee'', JStr (bigint_to_string 10 (tp_fee params)))])))))))"

section \<open>Proving\<close>

record snark_proof =
  pi_a :: "string list"
  pi_b :: "string list list"
  pi_c :: "string list"
  sp_protocol :: string
  sp_curve :: string

record Groth16Proof =
  piA :: "string list"
  piB :: "string list list"
  piC :: "string list"
  protocol :: string
  gcurve :: string

record ProveResult =
  pr_proof :: Groth16Proof
  publicSignals :: "string list"

type_synonym full_prove =
  "input_object \<Rightarrow> string \<Rightarrow> string \<Rightarrow> js_error + (snark_proof \<times> string list)"

definition prove :: "full_prove \<Rightarrow> string \<Rightarrow> string \<Rightarrow> input_object \<Rightarrow> js_error + ProveResult" where
  "prove fullProve circuitDir circuitName input =
     (let wasmPath = circuitDir @ ''/'' @ circuitName @ ''/'' @ circuitName @ ''_js/'' @ circuitName
                       @ ''.wasm'';
          zkeyPath = circuitDir @ ''/'' @ circuitName @ ''/'' @ circuitName @ ''_final.zkey'' in
      bind_result (fullProve input wasmPath zkeyPath) (\<lambda>(proof, signals).
        Inr \<lparr>pr_proof = \<lparr>piA = take 2 (pi_a proof), piB = map (take 2) (take 2 (pi_b proof)),
                        piC = take 2 (pi_c proof), protocol = ''groth16'', gcurve = ''bn128''\<rparr>,
             publicSignals = signals\<rparr>))"

definition proveTransfer :: "full_prove \<Rightarrow> string \<Rightarrow> TransferProveParams \<Rightarrow> js_error + ProveResult" where
  "proveTransfer fp dir params =
     bind_result (buildTransferInput params) (\<lambda>input. prove fp dir ''transfer'' input)"

definition proveWithdraw :: "full_prove \<Rightarrow> string \<Rightarrow> WithdrawProveParams \<Rightarrow> js_error + ProveResult" where
  "proveWithdraw fp dir params =
     bind_result (buildWithdrawInput params) (\<lambda>input. prove fp dir ''withdraw'' input)"

definition deposit_input :: "string \<Rightarrow> int \<Rightarrow> string \<Rightarrow> string \<Rightarrow> js_error + input_object" where
  "deposit_input own val asset blind =
     bind_result (hex_decimal own) (\<lambda>o'.
     bind_result (hex_decimal asset) (\<lambda>a.
     bind_result (hex_decimal blind) (\<lambda>b.
       Inr [(''owner'', o'), (''value'', JStr (bigint_to_string 10 val)), (''asset_id'', a),
            (''blinding'', b)])))"

definition proveDeposit :: "full_prove \<Rightarrow> string \<Rightarrow> string \<Rightarrow> int \<Rightarrow> string \<Rightarrow> string \<Rightarrow>
    js_error + ProveResult" where
  "proveDeposit fp dir own val asset blind =
     bind_result (deposit_input own val asset blind) (\<lambda>input. prove fp dir ''deposit'' input)"

definition proveTransferV2 :: "full_prove \<Rightarrow> string \<Rightarrow> TransferV2ProveParams \<Rightarrow>
    js_error + ProveResult" where
  "proveTransferV2 fp dir params =
     bind_result (buildTransferInput params) (\<lambda>base.
       prove fp dir ''transfer_v2''
         (with_fields base [(''chain_id'', JStr (bigint_to_string 10 (tv_chainId params))),
                            (''app_id'', JStr (bigint_to_string 10 (tv_appId params)))]))"

definition proveWithdrawV2 :: "full_prove \<Rightarrow> string \<Rightarrow> WithdrawV2ProveParams \<Rightarrow>
    js_error + ProveResult" where
  "proveWithdrawV2 fp dir params =
     bind_result (buildWithdrawInput params) (\<lambda>base.
       prove fp dir ''withdraw_v2''
         (with_fields base [(''chain_id'', JStr (bigint_to_string 10 (wv_chainId params))),
                            (''app_id'', JStr (bigint_to_string 10 (wv_appId params)))]))"

definition proveStealthTransfer :: "full_prove \<Rightarrow> string \<Rightarrow> StealthTransferProveParams \<Rightarrow>
    js_error + ProveResult" where
  "proveStealthTransfer fp dir params =
     bind_result (buildTransferInput params) (\<lambda>base.
     bind_result (hex_decimal (ephemeralKey params)) (\<lambda>ek.
     bind_result (hex_decimal (recipientSpendingPubkey params)) (\<lambda>rk.
       prove fp dir ''stealth_transfer''
         (with_fields base [(''ephemeral_key'', ek), (''recipient_spending_pubkey'', rk)]))))"

definition wealth_input :: "WealthProofProveParams \<Rightarrow> js_error + input_object" where
  "wealth_input params =
     (let inputs = padNotes (wl_inputNotes params) 8;
          hasNote = flag_column (map (\<lambda>n. noteValue n > 0) inputs) in
      bind_result (hex_decimal (wl_spendingKey params)) (\<lambda>sk.
      bind_result (hex_column blinding inputs) (\<lambda>bl.
      bind_result (hex_column assetId inputs) (\<lambda>asset.
        Inr [(''spending_key'', sk),
             (''note_value'', value_column inputs),
             (''note_blinding'', bl),
             (''note_asset_id'', asset),
             (''has_note'', hasNote),
             (''merkle_path_elements'', path_column (wl_merklePathElements params) inputs),
             (''merkle_path_indices'', path_column (wl_merklePathIndices params) inputs),
             (''threshold'', JStr (bigint_to_string 10 (threshold params)))]))))"

definition proveWealth :: "full_prove \<Rightarrow> string \<Rightarrow> WealthProofProveParams \<Rightarrow> js_error + ProveResult" where
  "proveWealth fp dir params =
     bind_result (wealth_input params) (\<lambda>input. prove fp dir ''wealth_proof'' input)"

definition proveTransfer4x4 :: "full_prove \<Rightarrow> string \<Rightarrow> Transfer4x4ProveParams \<Rightarrow>
    js_error + ProveResult" where
  "proveTransfer4x4 fp dir params =
     bind_result (buildTransfer4x4Input params) (\<lambda>input. prove fp dir ''transfer_4x4'' input)"

definition proveWithdraw4x4 :: "full_prove \<Rightarrow> string \<Rightarrow> Withdraw4x4ProveParams \<Rightarrow>
    js_error + ProveResult" where
  "proveWithdraw4x4 fp dir params =
     bind_result (buildTransfer4x4Input params) (\<lambda>base.
       prove fp dir ''withdraw_4x4''
         (with_fields base [(''exit_value'', JStr (bigint_to_string 10 (w4_exitValue params)))]))"

text \<open>
  \<open>read_file\<close> gives the text of a file that exists, \<open>parse_json\<close> the value of a text that is
  JSON; \<open>join\<close> is \<open>path.join\<close>. \<open>em_dash\<close> is the UTF-8 encoding of a dash.
\<close>

definition to_snark_proof :: "Groth16Proof \<Rightarrow> snark_proof" where
  "to_snark_proof p =
     \<lparr>pi_a = piA p @ [''1''], pi_b = map (\<lambda>pair. pair @ [''1'']) (piB p), pi_c = piC p @ [''1''],
      sp_protocol = protocol p, sp_curve = gcurve p\<rparr>"

definition em_dash :: string where
  "em_dash = [CHR 0xE2, CHR 0x80, CHR 0x94]"

definition verifyLocally :: "(string list \<Rightarrow> string) \<Rightarrow> (string \<Rightarrow> string option) \<Rightarrow>
    (string \<Rightarrow> 'k option) \<Rightarrow> ('k \<Rightarrow> string list \<Rightarrow> snark_proof \<Rightarrow> bool) \<Rightarrow> string \<Rightarrow> string \<Rightarrow>
    Groth16Proof \<Rightarrow> string list \<Rightarrow> js_error + bool" where
  "verifyLocally join read_file parse_json verify circuitDir circuitName proof signals =
     (let vkeyPath = join [circuitDir, circuitName, circuitName @ ''_vkey.json''] in
      case read_file vkeyPath of
        None \<Rightarrow> Inl (Error (''Verification key not found at '' @ vkeyPath @ ''. '' @
                 ''Run ./scripts/setup-circuits.sh to generate circuit artifacts.''))
      | Some raw \<Rightarrow>
          (case parse_json raw of
             None \<Rightarrow> Inl (Error (''Failed to parse verification key at '' @ vkeyPath
                       @ '' '' @ em_dash @ '' file may be corrupted.''))
           | Some vkey \<Rightarrow> Inr (verify vkey signals (to_snark_proof proof))))"


section \<open>Padding and columns\<close>

lemma padNotes_eq: "padNotes ns k = ns @ replicate (k - length ns) dummy_note"
proof (induction ns k rule: padNotes.induct)
  case (1 ns k)
  show ?case
  proof (cases "length ns < k")
    case True
    then have "replicate (k - length ns) dummy_note = dummy_note # replicate (k - Suc (length ns)) dummy_note"
      by (metis Suc_diff_Suc replicate_Suc)
    with True 1 show ?thesis
      by (simp add: padNotes.simps [of ns k])
  qed (simp add: padNotes.simps)
qed

lemma length_padNotes: "length (padNotes ns k) = max k (length ns)"
  by (simp add: padNotes_eq)

lemma sum_padNotes: "sum_list (map noteValue (padNotes ns k)) = sum_list (map noteValue ns)"
  by (simp add: padNotes_eq dummy_note_def sum_list_replicate)

text \<open>Reading a column back, as the circuit's input parser does: one integer per entry.\<close>

definition entry_value :: "json \<Rightarrow> int option" where
  "entry_value j = (case j of JStr s \<Rightarrow> bigint_of_string s | JArr _ \<Rightarrow> None)"

definition column_values :: "input_object \<Rightarrow> string \<Rightarrow> int option list" where
  "column_values input k =
     (case map_of input k of Some (JArr js) \<Rightarrow> map entry_value js | _ \<Rightarrow> [])"

definition field_value :: "input_object \<Rightarrow> string \<Rightarrow> int option" where
  "field_value input k = (case map_of input k of Some j \<Rightarrow> entry_value j | None \<Rightarrow> None)"

lemma entry_value_decimal [simp]: "entry_value (JStr (bigint_to_string 10 v)) = Some v"
  by (simp add: entry_value_def codec_simps)

definition hex_opt :: "string \<Rightarrow> int option" where
  "hex_opt h = (case hexToBigInt h of Inl e \<Rightarrow> None | Inr v \<Rightarrow> Some v)"

lemma hex_column_values:
  assumes "hex_column f ns = Inr col"
  shows "\<exists>js. col = JArr js \<and> map entry_value js = map (\<lambda>n. hex_opt (f n)) ns"
proof -
  obtain js where js: "map_result (\<lambda>n. hex_decimal (f n)) ns = Inr js" "col = JArr js"
    using assms by (auto simp: hex_column_def bind_result_Inr_iff)
  from js(1) have "map entry_value js = map (\<lambda>n. hex_opt (f n)) ns"
    by (induction ns arbitrary: js) (auto simp: bind_result_Inr_iff hex_decimal_def hex_opt_def)
  with js show ?thesis by blast
qed

lemma buildTransferInput_columns:
  assumes "buildTransferInput params = Inr input"
  shows "column_values input ''input_value''
      = map (\<lambda>n. Some (noteValue n)) (padNotes (inputNotes params) 2)"
    and "column_values input ''output_value''
      = map (\<lambda>n. Some (noteValue n)) (padNotes (outputNotes params) 2)"
    and "column_values input ''input_asset_id''
      = map (\<lambda>n. hex_opt (assetId n)) (padNotes (inputNotes params) 2)"
    and "column_values input ''output_asset_id''
      = map (\<lambda>n. hex_opt (assetId n)) (padNotes (outputNotes params) 2)"
    and "column_values input ''output_owner''
      = map (\<lambda>n. hex_opt (owner n)) (padNotes (outputNotes params) 2)"
    and "field_value input ''fee'' = Some (tp_fee params)"
    and "map fst input = [''spending_key'', ''input_value'', ''input_blinding'', ''input_asset_id'',
      ''merkle_path_elements'', ''merkle_path_indices'', ''output_owner'', ''output_value'',
      ''output_blinding'', ''output_asset_id'', ''fee'']"
proof -
  let ?in = "padNotes (inputNotes params) 2" and ?out = "padNotes (outputNotes params) 2"
  obtain sk inBl inAs outOw outBl outAs where
    cols: "hex_column assetId ?in = Inr inAs" "hex_column assetId ?out = Inr outAs"
      "hex_column owner ?out = Inr outOw"
    and input: "input = [(''spending_key'', sk), (''input_value'', value_column ?in),
             (''input_blinding'', inBl), (''input_asset_id'', inAs),
             (''merkle_path_elements'', path_column (merklePathElements params) ?in),
             (''merkle_path_indices'', path_column (merklePathIndices params) ?in),
             (''output_owner'', outOw), (''output_value'', value_column ?out),
             (''output_blinding'', outBl), (''output_asset_id'', outAs),
             (''fee'', JStr (bigint_to_string 10 (tp_fee params)))]"
    using assms unfolding buildTransferInput_def Let_def bind_result_Inr_iff
    by (elim exE conjE) (rule that, assumption+, erule sum.inject(2) [THEN iffD1, symmetric])
  show "column_values input ''input_value'' = map (\<lambda>n. Some (noteValue n)) ?in"
    "column_values input ''output_value'' = map (\<lambda>n. Some (noteValue n)) ?out"
    by (simp_all add: column_values_def input value_column_def)
  show "column_values input ''input_asset_id'' = map (\<lambda>n. hex_opt (assetId n)) ?in"
    using hex_column_values [OF cols(1)] by (auto simp: column_values_def input)
  show "column_values input ''output_asset_id'' = map (\<lambda>n. hex_opt (assetId n)) ?out"
    using hex_column_values [OF cols(2)] by (auto simp: column_values_def input)
  show "column_values input ''output_owner'' = map (\<lambda>n. hex_opt (owner n)) ?out"
    using hex_column_values [OF cols(3)] by (auto simp: column_values_def input)
  show "field_value input ''fee'' = Some (tp_fee params)"
    by (simp add: field_value_def input)
  show "map fst input = [''spending_key'', ''input_value'', ''input_blinding'', ''input_asset_id'',
      ''merkle_path_elements'', ''merkle_path_indices'', ''output_owner'', ''output_value'',
      ''output_blinding'', ''output_asset_id'', ''fee'']"
    by (simp add: input)
qed

text \<open>The input parses whenever every hexadecimal field of the notes and the key does.\<close>

definition note_fields_parse :: "Note \<Rightarrow> bool" where
  "note_fields_parse n \<longleftrightarrow>
     hex_opt (owner n) \<noteq> None \<and> hex_opt (blinding n) \<noteq> None \<and> hex_opt (assetId n) \<noteq> None"

lemma hex_column_returns:
  "(\<And>n. n \<in> set ns \<Longrightarrow> hex_opt (f n) \<noteq> None) \<Longrightarrow> \<exists>col. hex_column f ns = Inr col"
proof -
  assume ok: "\<And>n. n \<in> set ns \<Longrightarrow> hex_opt (f n) \<noteq> None"
  have "map_result (\<lambda>n. hex_decimal (f n)) ns
      = Inr (map (\<lambda>n. JStr (bigint_to_string 10 (the (hex_opt (f n))))) ns)"
    by (rule map_result_Inr)
      (use ok in \<open>force simp: hex_decimal_def hex_opt_def split: sum.splits\<close>)
  then show ?thesis
    by (simp add: hex_column_def)
qed

lemma hex_opt_zero_hash: "hex_opt zero_hash = Some 0"
  by (simp add: hex_opt_def hexToBigInt_def zero_hash_def starts_with_def)

lemma buildTransferInput_returns:
  assumes "\<forall>n \<in> set (inputNotes params @ outputNotes params). note_fields_parse n"
    and "hex_opt (tp_spendingKey params) \<noteq> None"
  shows "\<exists>input. buildTransferInput params = Inr input"
proof -
  let ?in = "padNotes (inputNotes params) 2" and ?out = "padNotes (outputNotes params) 2"
  have pad: "\<forall>n \<in> set (padNotes ns k). note_fields_parse n" if "\<forall>n \<in> set ns. note_fields_parse n" for ns k
    using that by (auto simp: padNotes_eq note_fields_parse_def dummy_note_def hex_opt_zero_hash)
  have ins: "\<forall>n \<in> set ?in. note_fields_parse n" and outs: "\<forall>n \<in> set ?out. note_fields_parse n"
    using assms(1) by (auto intro!: pad)
  have cols: "\<exists>col. hex_column blinding ns = Inr col" "\<exists>col. hex_column assetId ns = Inr col"
    "\<exists>col. hex_column owner ns = Inr col" if "\<forall>n \<in> set ns. note_fields_parse n" for ns
    using that by (auto intro!: hex_column_returns simp: note_fields_parse_def)
  obtain a b c d e where "hex_column blinding ?in = Inr a" "hex_column assetId ?in = Inr b"
    "hex_column owner ?out = Inr c" "hex_column blinding ?out = Inr d" "hex_column assetId ?out = Inr e"
    using cols [OF ins] cols [OF outs] by blast
  moreover obtain sk where "hex_decimal (tp_spendingKey params) = Inr sk"
    using assms(2) by (auto simp: hex_decimal_def hex_opt_def split: sum.splits)
  ultimately show ?thesis
    unfolding buildTransferInput_def Let_def by simp
qed


section \<open>Circuit signals\<close>

text \<open>The input signals each circuit declares, in the order of its source.\<close>

definition transfer_signals :: "string list" where
  "transfer_signals = [''merkle_root'', ''nullifiers'', ''output_commitments'', ''fee'',
     ''spending_key'', ''in_owner'', ''in_value'', ''in_asset_id'', ''in_blinding'',
     ''merkle_path_elements'', ''merkle_path_indices'', ''out_owner'', ''out_value'',
     ''out_asset_id'', ''out_blinding'']"

definition withdraw_signals :: "string list" where
  "withdraw_signals = [''merkle_root'', ''nullifiers'', ''output_commitments'', ''exit_value'',
     ''fee'', ''spending_key'', ''in_owner'', ''in_value'', ''in_asset_id'', ''in_blinding'',
     ''merkle_path_elements'', ''merkle_path_indices'', ''out_owner'', ''out_value'',
     ''out_asset_id'', ''out_blinding'']"

definition deposit_signals :: "string list" where
  "deposit_signals = [''commitment'', ''value'', ''owner'', ''asset_id'', ''blinding'']"

definition missing_signals :: "string list \<Rightarrow> input_object \<Rightarrow> string list" where
  "missing_signals signals input = filter (\<lambda>s. s \<notin> set (map fst input)) signals"

lemma map_fst_with_one:
  "k \<notin> fst ` set base \<Longrightarrow> map fst (with_fields base [(k, v)]) = map fst base @ [k]"
  by (simp add: with_fields_def) (induction base; auto)



text \<open>A transfer of the sample wallet, evaluated: both notes are spent and nothing is left over.\<close>

definition sample_inputs :: "Note list" where
  "sample_inputs = map (\<lambda>n. n\<lparr>pending := Some True\<rparr>) (wnotes sample_wallet)"

definition sample_outputs :: "Note list" where
  "sample_outputs = [output_note ''05'' 9 ''00'' (poseidonHashHex sample_hash [key_field sample_wallet, 0])]"

definition sample_params :: TransferProveParams where
  "sample_params = \<lparr>tp_spendingKey = ''01'', inputNotes = sample_inputs, outputNotes = sample_outputs,
     tp_fee = 3, merklePathElements = None, merklePathIndices = None\<rparr>"

lemma sample_transfer:
  "\<exists>w'. prepareTransfer sample_hash 0 0 ''05'' 9 3 sample_wallet
     = (w', Inr (sample_inputs, sample_outputs))"
proof -
  have ix: "unspent_ix sample_wallet = [0, 1]"
    by (simp add: unspent_ix_def sample_wallet_def newWallet_def sample_note_def spendable_def
        upt_conv_Cons)
  have vals: "noteValue (wnotes sample_wallet ! 0) = 5" "noteValue (wnotes sample_wallet ! Suc 0) = 7"
    by (simp_all add: sample_wallet_def newWallet_def sample_note_def)
  have sel: "selectNotes 0 12 sample_wallet = Inr [0, 1]"
    by (simp add: selectNotes_def ix Let_def vals cryptoRandomIndex_def)
  have held: "wnotes (lockNotes [0, 1] sample_wallet) = sample_inputs"
    by (simp add: lockNotes_def sample_inputs_def sample_wallet_def newWallet_def)
  have sum: "sum_list (map noteValue sample_inputs) = 12" "assetId (hd sample_inputs) = ''00''"
    "[sample_inputs ! 0, sample_inputs ! 1] = sample_inputs"
    by (simp_all add: sample_inputs_def sample_wallet_def newWallet_def sample_note_def)
  have key: "key_field (lockNotes [0, 1] sample_wallet) = key_field sample_wallet"
    "nextBlinding (lockNotes [0, 1] sample_wallet) = 0"
    by (simp_all add: key_field_def spendingKeyHex_def wallet_simps)
      (simp add: sample_wallet_def newWallet_def)
  have "spendingKey (lockNotes [0, 1] sample_wallet) \<noteq> []"
    by (simp add: wallet_simps)
  then show ?thesis
    unfolding prepareTransfer_def Let_def
    by (simp add: sel held sum eff_bind_def deriveBlinding_eq key change_notes_def eff_defs
        sample_outputs_def del: One_nat_def)
qed

lemma hex_opt_literal: "read_digits 16 s = Some ds \<Longrightarrow> s \<noteq> [] \<Longrightarrow> hex_opt s \<noteq> None"
  using hexToField_literal [of s ds]
  by (auto simp: hex_opt_def hexToBigInt_def hexToField_def Let_def split: sum.splits option.splits
      if_splits)

lemma sample_input: "\<exists>input. buildTransferInput sample_params = Inr input"
proof (rule buildTransferInput_returns)
  have lit: "hex_opt s \<noteq> None" if "s \<in> {''00'', ''01'', ''02'', ''05''}" for s
    using that hex_opt_literal [of s "[0, 0]"] hex_opt_literal [of s "[0, 1]"]
      hex_opt_literal [of s "[0, 2]"] hex_opt_literal [of s "[0, 5]"]
    by (auto simp: digit_val_def hex_val_def)
  have "0 \<le> sample_hash xs" for xs
    using field_hash_sample by (simp add: field_hash_def)
  then have "hex_opt (poseidonHashHex sample_hash xs) \<noteq> None" for xs
    unfolding poseidonHashHex_def poseidonHash_def
    by (intro hex_opt_literal [OF read_digits_fieldToHex]) auto
  with lit show "\<forall>n \<in> set (inputNotes sample_params @ outputNotes sample_params). note_fields_parse n"
    "hex_opt (tp_spendingKey sample_params) \<noteq> None"
    by (auto simp: sample_params_def sample_inputs_def sample_outputs_def sample_wallet_def
        newWallet_def sample_note_def output_note_def note_fields_parse_def)
qed


text \<open>
  The objects built for the deposit, transfer and withdraw circuits never assign all of the
  signals those circuits declare: whatever the parameters, the public root, nullifiers and
  commitments have no value, and the note signals are given under names the circuits do not have.
\<close>

theorem inputs_miss_circuit_signals:
  "(case buildTransferInput params of Inl e \<Rightarrow> True
    | Inr input \<Rightarrow> missing_signals transfer_signals input =
        [''merkle_root'', ''nullifiers'', ''output_commitments'', ''in_owner'', ''in_value'',
         ''in_asset_id'', ''in_blinding'', ''out_owner'', ''out_value'', ''out_asset_id'',
         ''out_blinding''])
   \<and> (case buildWithdrawInput wparams of Inl e \<Rightarrow> True
    | Inr input \<Rightarrow> missing_signals withdraw_signals input =
        [''merkle_root'', ''nullifiers'', ''output_commitments'', ''in_owner'', ''in_value'',
         ''in_asset_id'', ''in_blinding'', ''out_owner'', ''out_value'', ''out_asset_id'',
         ''out_blinding''])
   \<and> (case deposit_input own val asset blind of Inl e \<Rightarrow> True
    | Inr input \<Rightarrow> missing_signals deposit_signals input = [''commitment''])"
proof (intro conjI)
  show "case buildTransferInput params of Inl e \<Rightarrow> True
    | Inr input \<Rightarrow> missing_signals transfer_signals input =
        [''merkle_root'', ''nullifiers'', ''output_commitments'', ''in_owner'', ''in_value'',
         ''in_asset_id'', ''in_blinding'', ''out_owner'', ''out_value'', ''out_asset_id'',
         ''out_blinding'']"
    using buildTransferInput_columns(7) [of params]
    by (simp add: missing_signals_def transfer_signals_def split: sum.split)
  show "case buildWithdrawInput wparams of Inl e \<Rightarrow> True
    | Inr input \<Rightarrow> missing_signals withdraw_signals input =
        [''merkle_root'', ''nullifiers'', ''output_commitments'', ''in_owner'', ''in_value'',
         ''in_asset_id'', ''in_blinding'', ''out_owner'', ''out_value'', ''out_asset_id'',
         ''out_blinding'']"
  proof (cases "buildWithdrawInput wparams")
    case (Inr input)
    then obtain base v ps where base: "buildTransferInput (ps :: TransferProveParams) = Inr base"
      and input: "input = with_fields base [(''exit_value'', v)]"
      by (auto simp: buildWithdrawInput_def bind_result_Inr_iff)
    note keys = buildTransferInput_columns(7) [OF base]
    have "''exit_value'' \<notin> set (map fst base)"
      by (simp add: keys)
    then have "map fst input = map fst base @ [''exit_value'']"
      unfolding input by (intro map_fst_with_one) simp
    with Inr show ?thesis
      by (simp add: missing_signals_def withdraw_signals_def keys)
  qed simp
  show "case deposit_input own val asset blind of Inl e \<Rightarrow> True
    | Inr input \<Rightarrow> missing_signals deposit_signals input = [''commitment'']"
    by (cases "hex_decimal own"; cases "hex_decimal asset"; cases "hex_decimal blind")
      (simp_all add: deposit_input_def missing_signals_def deposit_signals_def)
qed

text \<open>
  Verifying a proof the prover returned gives the verifier back the \<open>pi_a\<close> and \<open>pi_c\<close> that
  snarkjs produced, whole; of \<open>pi_b\<close> it gives the two finite coordinate pairs with an added entry
  each, not the three pairs snarkjs produced.
\<close>

theorem verify_reassembles_proof:
  assumes "fullProve input (dir @ ''/c/c_js/c.wasm'') (dir @ ''/c/c_final.zkey'') = Inr (p, sigs)"
    and "pi_a p = [a1, a2, ''1'']" "pi_b p = [[b1, b2], [b3, b4], [''1'', ''0'']]"
    and "pi_c p = [c1, c2, ''1'']" "sp_protocol p = ''groth16''" "sp_curve p = ''bn128''"
    and "read_file (path_join [dir, ''c'', ''c_vkey.json'']) = Some raw" "parse_json raw = Some vkey"
  shows "\<exists>res. prove fullProve dir ''c'' input = Inr res \<and> publicSignals res = sigs
    \<and> verifyLocally path_join read_file parse_json verify dir ''c'' (pr_proof res) sigs
        = Inr (verify vkey sigs (p\<lparr>pi_b := [[b1, b2, ''1''], [b3, b4, ''1'']]\<rparr>))"
proof -
  have p: "p\<lparr>pi_b := [[b1, b2, ''1''], [b3, b4, ''1'']]\<rparr>
      = \<lparr>pi_a = [a1, a2, ''1''], pi_b = [[b1, b2, ''1''], [b3, b4, ''1'']], pi_c = [c1, c2, ''1''],
         sp_protocol = ''groth16'', sp_curve = ''bn128''\<rparr>"
    using assms(2-6) by (cases p) simp
  show ?thesis
    unfolding p using assms
    by (simp add: prove_def verifyLocally_def Let_def to_snark_proof_def numeral_2_eq_2)
qed

definition sample_snark :: snark_proof where
  "sample_snark = \<lparr>pi_a = [''3'', ''4'', ''1''], pi_b = [[''5'', ''6''], [''7'', ''8''], [''1'', ''0'']],
     pi_c = [''9'', ''2'', ''1''], sp_protocol = ''groth16'', sp_curve = ''bn128''\<rparr>"

lemma verify_reassembles_proof_witness:
  "\<exists>res. prove (\<lambda>i wasm zkey. Inr (sample_snark, [''7''])) ''d'' ''c'' [] = Inr res
    \<and> verifyLocally concat (\<lambda>path. Some ''k'') Some (\<lambda>k s p. length (pi_b p) = 2) ''d'' ''c''
        (pr_proof res) [''7''] = Inr True"
  using verify_reassembles_proof [of "\<lambda>i wasm zkey. Inr (sample_snark, [''7''])" "[]" "''d''"
      sample_snark "[''7'']" "''3''" "''4''" "''5''" "''6''" "''7''" "''8''" "''9''" "''2''"
      "\<lambda>path. Some ''k''" concat "''k''" Some "''k''" "\<lambda>k s p. length (pi_b p) = 2"]
  by (auto simp: sample_snark_def)

end
