(* ===== verification/Sdk_Rpc.thy ===== *)
theory Sdk_Rpc
  imports Byte_Codec
begin

text \<open>
  sdk/typescript/src/rpc.ts: failover over several RPC endpoints with a circuit breaker per
  endpoint. The endpoint objects are shared by reference, so a candidate is a position in
  \<open>endpoints\<close>. The remote call is an argument \<open>fn\<close>: on a connection and a start time it gives its
  outcome and how long it takes, so the clock is explicit.
\<close>

section \<open>State\<close>

record 'c EndpointState =
  url :: string
  weight :: int
  connection :: 'c
  failures :: int
  openUntil :: int

record 'c FailoverConnection =
  endpoints :: "'c EndpointState list"
  maxFailures :: int
  cooldownMs :: int
  timeoutMs :: int

datatype rpc_endpoint = Url string | Config string "int option"

record FailoverConfig =
  cfg_maxFailures :: "int option"
  cfg_cooldownMs :: "int option"
  cfg_timeoutMs :: "int option"

definition DEFAULT_MAX_FAILURES :: int where
  "DEFAULT_MAX_FAILURES = 3"

definition DEFAULT_COOLDOWN_MS :: int where
  "DEFAULT_COOLDOWN_MS = 30000"

definition or_default :: "'a option \<Rightarrow> 'a \<Rightarrow> 'a" where
  "or_default x d = (case x of None \<Rightarrow> d | Some y \<Rightarrow> y)"

definition new_endpoint :: "(string \<Rightarrow> 'c) \<Rightarrow> rpc_endpoint \<Rightarrow> 'c EndpointState" where
  "new_endpoint connect ep =
     (let u = (case ep of Url u \<Rightarrow> u | Config u _ \<Rightarrow> u);
          w = (case ep of Url _ \<Rightarrow> 1 | Config _ w \<Rightarrow> or_default w 1)
      in \<lparr>url = u, weight = w, connection = connect u, failures = 0, openUntil = 0\<rparr>)"

definition newFailoverConnection :: "(string \<Rightarrow> 'c) \<Rightarrow> rpc_endpoint list \<Rightarrow> FailoverConfig \<Rightarrow>
    js_error + 'c FailoverConnection" where
  "newFailoverConnection connect eps config =
     (if length eps = 0 then Inl (Error ''At least one RPC endpoint is required'')
      else Inr \<lparr>endpoints = map (new_endpoint connect) eps,
                maxFailures = or_default (cfg_maxFailures config) DEFAULT_MAX_FAILURES,
                cooldownMs = or_default (cfg_cooldownMs config) DEFAULT_COOLDOWN_MS,
                timeoutMs = or_default (cfg_timeoutMs config) 0\<rparr>)"

definition healthy :: "'c FailoverConnection \<Rightarrow> int \<Rightarrow> 'c EndpointState \<Rightarrow> bool" where
  "healthy fc now e = (failures e < maxFailures fc \<or> openUntil e \<le> now)"

section \<open>Calls with failover\<close>

type_synonym ('c, 'a) rpc_call = "'c \<Rightarrow> int \<Rightarrow> (string + 'a) \<times> int"

text \<open>A call that has not settled when the timer fires is reported as timed out.\<close>

definition withTimeout :: "(string + 'a) \<times> int \<Rightarrow> int \<Rightarrow> (string + 'a) \<times> int" where
  "withTimeout outcome ms =
     (if snd outcome < ms then outcome
      else (Inl (''RPC timeout after '' @ bigint_to_string 10 ms @ ''ms''), ms))"

definition attempt :: "'c FailoverConnection \<Rightarrow> ('c, 'a) rpc_call \<Rightarrow> 'c \<Rightarrow> int \<Rightarrow> (string + 'a) \<times> int" where
  "attempt fc fn c t = (if timeoutMs fc > 0 then withTimeout (fn c t) (timeoutMs fc) else fn c t)"

definition note_failure :: "'c FailoverConnection \<Rightarrow> int \<Rightarrow> 'c EndpointState \<Rightarrow> 'c EndpointState" where
  "note_failure fc t e =
     (let e' = e\<lparr>failures := failures e + 1\<rparr> in
      if failures e' \<ge> maxFailures fc then e'\<lparr>openUntil := t + cooldownMs fc\<rparr> else e')"

definition note_success :: "'c EndpointState \<Rightarrow> 'c EndpointState" where
  "note_success e = e\<lparr>failures := 0, openUntil := 0\<rparr>"

definition update_endpoint :: "nat \<Rightarrow> ('c EndpointState \<Rightarrow> 'c EndpointState) \<Rightarrow>
    'c FailoverConnection \<Rightarrow> 'c FailoverConnection" where
  "update_endpoint i f fc = fc\<lparr>endpoints := (endpoints fc)[i := f (endpoints fc ! i)]\<rparr>"

definition candidates :: "'c FailoverConnection \<Rightarrow> int \<Rightarrow> nat list" where
  "candidates fc now =
     (let ok = sort_key (\<lambda>i. - weight (endpoints fc ! i))
                 (filter (\<lambda>i. healthy fc now (endpoints fc ! i)) [0..<length (endpoints fc)])
      in if length ok > 0 then ok
         else sort_key (\<lambda>i. openUntil (endpoints fc ! i)) [0..<length (endpoints fc)])"

text \<open>The loop over the candidates; the clock moves on with every attempt.\<close>

fun try_candidates :: "('c, 'a) rpc_call \<Rightarrow> nat list \<Rightarrow> string \<Rightarrow> int \<Rightarrow> 'c FailoverConnection \<Rightarrow>
    'c FailoverConnection \<times> int \<times> (string + 'a)" where
  "try_candidates fn [] lastError t fc = (fc, t, Inl lastError)"
| "try_candidates fn (i # is) lastError t fc =
     (case attempt fc fn (connection (endpoints fc ! i)) t of
        (Inr result, d) \<Rightarrow> (update_endpoint i note_success fc, t + d, Inr result)
      | (Inl err, d) \<Rightarrow>
          try_candidates fn is err (t + d) (update_endpoint i (note_failure fc (t + d)) fc))"

definition exec :: "('c, 'a) rpc_call \<Rightarrow> int \<Rightarrow> 'c FailoverConnection \<Rightarrow>
    'c FailoverConnection \<times> int \<times> (js_error + 'a)" where
  "exec fn now fc =
     (case try_candidates fn (candidates fc now) ''undefined'' now fc of
        (fc', t, Inr v) \<Rightarrow> (fc', t, Inr v)
      | (fc', t, Inl err) \<Rightarrow>
          (fc', t, Inl (Error (''All '' @ nat_to_string 10 (length (endpoints fc'))
                               @ '' RPC endpoints failed. Last error: '' @ err))))"

definition primary :: "'c FailoverConnection \<Rightarrow> int \<Rightarrow> 'c" where
  "primary fc now =
     (case find (healthy fc now) (endpoints fc) of
        Some e \<Rightarrow> connection e
      | None \<Rightarrow> connection (hd (endpoints fc)))"

definition reset :: "'c FailoverConnection \<Rightarrow> 'c FailoverConnection" where
  "reset fc = fc\<lparr>endpoints := map note_success (endpoints fc)\<rparr>"

record endpoint_status =
  st_url :: string
  st_healthy :: bool
  st_failures :: int
  st_openUntil :: int

definition status :: "'c FailoverConnection \<Rightarrow> int \<Rightarrow> endpoint_status list" where
  "status fc now =
     map (\<lambda>e. \<lparr>st_url = url e, st_healthy = healthy fc now e, st_failures = failures e,
              st_openUntil = openUntil e\<rparr>) (endpoints fc)"

section \<open>Candidates\<close>

lemma update_endpoint_frame [simp]:
  "length (endpoints (update_endpoint i f fc)) = length (endpoints fc)"
  "maxFailures (update_endpoint i f fc) = maxFailures fc"
  "cooldownMs (update_endpoint i f fc) = cooldownMs fc"
  "timeoutMs (update_endpoint i f fc) = timeoutMs fc"
  by (simp_all add: update_endpoint_def)

lemma nth_update_endpoint:
  "j < length (endpoints fc) \<Longrightarrow>
     endpoints (update_endpoint i f fc) ! j
       = (if i = j then f (endpoints fc ! j) else endpoints fc ! j)"
  by (simp add: update_endpoint_def nth_update_at)

lemma note_frame [simp]:
  "connection (note_failure fc t e) = connection e" "connection (note_success e) = connection e"
  by (simp_all add: note_failure_def note_success_def Let_def)

lemma attempt_frame [simp]: "attempt (update_endpoint i f fc) = attempt fc"
  by (intro ext) (simp add: attempt_def)

lemma sort_key_empty [simp]: "sort_key f xs = [] \<longleftrightarrow> xs = []"
  by (metis set_empty set_sort)

lemma set_candidates:
  "set (candidates fc now) =
     (let ok = {i. i < length (endpoints fc) \<and> healthy fc now (endpoints fc ! i)}
      in if ok \<noteq> {} then ok else {..<length (endpoints fc)})"
  by (auto simp: candidates_def Let_def filter_empty_conv split: if_splits)

lemma distinct_candidates: "distinct (candidates fc now)"
  by (simp add: candidates_def Let_def)

lemma candidates_in_range: "i \<in> set (candidates fc now) \<Longrightarrow> i < length (endpoints fc)"
  by (auto simp: set_candidates Let_def split: if_splits)

lemma candidates_sorted:
  assumes "\<exists>e \<in> set (endpoints fc). healthy fc now e"
  shows "sorted (map (\<lambda>i. - weight (endpoints fc ! i)) (candidates fc now))"
proof -
  obtain j where "j < length (endpoints fc)" "healthy fc now (endpoints fc ! j)"
    using assms by (auto simp: in_set_conv_nth)
  then have "filter (\<lambda>i. healthy fc now (endpoints fc ! i)) [0..<length (endpoints fc)] \<noteq> []"
    by (auto simp: filter_empty_conv)
  then show ?thesis
    by (simp add: candidates_def Let_def)
qed


section \<open>One call\<close>

definition failed_once :: "'c FailoverConnection \<Rightarrow> 'c FailoverConnection \<Rightarrow> nat \<Rightarrow> bool" where
  "failed_once fc fc' i \<longleftrightarrow>
     failures (endpoints fc' ! i) = failures (endpoints fc ! i) + 1 \<and>
     connection (endpoints fc' ! i) = connection (endpoints fc ! i)"

definition same_settings :: "'c FailoverConnection \<Rightarrow> 'c FailoverConnection \<Rightarrow> bool" where
  "same_settings fc fc' \<longleftrightarrow>
     length (endpoints fc') = length (endpoints fc) \<and> maxFailures fc' = maxFailures fc \<and>
     cooldownMs fc' = cooldownMs fc \<and> timeoutMs fc' = timeoutMs fc"

lemma failures_note_failure [simp]: "failures (note_failure fc t e) = failures e + 1"
  by (simp add: note_failure_def Let_def)

lemma try_candidates_success:
  assumes "try_candidates fn is le t fc = (fc', t', Inr v)"
    and "distinct is" "\<forall>i \<in> set is. i < length (endpoints fc)"
  shows "\<exists>pre i post u d. is = pre @ i # post
    \<and> attempt fc fn (connection (endpoints fc ! i)) u = (Inr v, d) \<and> t' = u + d
    \<and> same_settings fc fc'
    \<and> (\<forall>j \<in> set pre. failed_once fc fc' j)
    \<and> endpoints fc' ! i = note_success (endpoints fc ! i)
    \<and> (\<forall>j < length (endpoints fc). j \<notin> set (pre @ [i]) \<longrightarrow> endpoints fc' ! j = endpoints fc ! j)"
  using assms
proof (induction "is" arbitrary: le t fc)
  case (Cons i "is")
  show ?case
  proof (cases "attempt fc fn (connection (endpoints fc ! i)) t")
    case (Pair out d)
    show ?thesis
    proof (cases out)
      case (Inr v')
      with Pair Cons.prems have "fc' = update_endpoint i note_success fc" "t' = t + d" "v' = v"
        by auto
      then show ?thesis
        using Pair Inr Cons.prems(3)
        by (intro exI [of _ "[]"] exI [of _ i] exI [of _ "is"] exI [of _ t] exI [of _ d])
          (auto simp: same_settings_def nth_update_endpoint)
    next
      case (Inl err)
      let ?fc1 = "update_endpoint i (note_failure fc (t + d)) fc"
      have "try_candidates fn is err (t + d) ?fc1 = (fc', t', Inr v)"
        using Pair Inl Cons.prems(1) by simp
      then obtain pre k post u d' where IH: "is = pre @ k # post"
        "attempt ?fc1 fn (connection (endpoints ?fc1 ! k)) u = (Inr v, d')" "t' = u + d'"
        "same_settings ?fc1 fc'" "\<forall>j \<in> set pre. failed_once ?fc1 fc' j"
        "endpoints fc' ! k = note_success (endpoints ?fc1 ! k)"
        "\<forall>j < length (endpoints ?fc1). j \<notin> set (pre @ [k]) \<longrightarrow> endpoints fc' ! j = endpoints ?fc1 ! j"
        using Cons.IH [of err "t + d" ?fc1] Cons.prems(2,3) by auto
      have ne: "k \<noteq> i" "\<forall>j \<in> set pre. j \<noteq> i" "i \<notin> set (pre @ [k])"
        using Cons.prems(2) IH(1) by auto
      have lt: "i < length (endpoints fc)" "k < length (endpoints fc)"
        "\<forall>j \<in> set pre. j < length (endpoints fc)"
        using Cons.prems(3) IH(1) by auto
      have "failed_once fc fc' i"
        using IH(7) ne lt by (simp add: failed_once_def nth_update_endpoint)
      moreover have "\<forall>j \<in> set pre. failed_once fc fc' j"
        using IH(5) ne lt by (auto simp: failed_once_def nth_update_endpoint)
      ultimately show ?thesis
        using IH ne lt
        by (intro exI [of _ "i # pre"] exI [of _ k] exI [of _ post] exI [of _ u] exI [of _ d'])
          (auto simp: same_settings_def nth_update_endpoint)
    qed
  qed
qed simp

lemma try_candidates_failure:
  assumes "try_candidates fn is le t fc = (fc', t', Inl err)"
    and "distinct is" "\<forall>i \<in> set is. i < length (endpoints fc)"
  shows "same_settings fc fc' \<and> (\<forall>j \<in> set is. failed_once fc fc' j)
    \<and> (\<forall>j < length (endpoints fc). j \<notin> set is \<longrightarrow> endpoints fc' ! j = endpoints fc ! j)
    \<and> (\<forall>i \<in> set is. \<exists>u e d. attempt fc fn (connection (endpoints fc ! i)) u = (Inl e, d))"
  using assms
proof (induction "is" arbitrary: le t fc)
  case (Cons i "is")
  obtain out d where a: "attempt fc fn (connection (endpoints fc ! i)) t = (out, d)"
    by fastforce
  with Cons.prems(1) obtain err' where out: "out = Inl err'"
    by (cases out) auto
  let ?fc1 = "update_endpoint i (note_failure fc (t + d)) fc"
  have "try_candidates fn is err' (t + d) ?fc1 = (fc', t', Inl err)"
    using a out Cons.prems(1) by simp
  then have IH: "same_settings ?fc1 fc'" "\<forall>j \<in> set is. failed_once ?fc1 fc' j"
    "\<forall>j < length (endpoints ?fc1). j \<notin> set is \<longrightarrow> endpoints fc' ! j = endpoints ?fc1 ! j"
    "\<forall>i \<in> set is. \<exists>u e d. attempt ?fc1 fn (connection (endpoints ?fc1 ! i)) u = (Inl e, d)"
    using Cons.IH [of err' "t + d" ?fc1] Cons.prems(2,3) by auto
  have lt: "i < length (endpoints fc)" "i \<notin> set is" "\<forall>j \<in> set is. j < length (endpoints fc) \<and> j \<noteq> i"
    using Cons.prems(2,3) by auto
  have "failed_once fc fc' i"
    using IH(3) lt by (simp add: failed_once_def nth_update_endpoint)
  moreover have "\<forall>j \<in> set is. failed_once fc fc' j"
    using IH(2) lt by (auto simp: failed_once_def nth_update_endpoint)
  moreover have "\<forall>j \<in> set is. \<exists>u e d. attempt fc fn (connection (endpoints fc ! j)) u = (Inl e, d)"
    using IH(4) lt by (fastforce simp: nth_update_endpoint)
  ultimately show ?case
    using IH(1,3) lt a out by (auto simp: same_settings_def nth_update_endpoint)
qed (auto simp: same_settings_def)


section \<open>The circuit breaker over many calls\<close>

text \<open>
  A client: calls are made one after another while time passes, and the breakers may be reset. The
  state carries the time the client has reached; the value a call returns plays no part in it.
\<close>

inductive client_step :: "'c FailoverConnection \<times> int \<Rightarrow> 'c FailoverConnection \<times> int \<Rightarrow> bool" where
  call: "exec (fn :: ('c, unit) rpc_call) now fc = (fc', t, res) \<Longrightarrow> \<forall>c u. 0 \<le> snd (fn c u) \<Longrightarrow>
     client_step (fc, now) (fc', t)"
| wait: "now \<le> t \<Longrightarrow> client_step (fc, now) (fc, t)"
| clear: "client_step (fc, now) (reset fc, now)"

definition client_init :: "'c FailoverConnection \<times> int \<Rightarrow> bool" where
  "client_init s \<longleftrightarrow> 0 < maxFailures (fst s) \<and> 0 \<le> cooldownMs (fst s) \<and>
     (\<forall>e \<in> set (endpoints (fst s)). failures e = 0 \<and> openUntil e = 0) \<and> 0 \<le> snd s"

text \<open>A closed breaker has no deadline; an open one has a deadline at most one cool-down ahead.\<close>

definition breaker_ok :: "'c FailoverConnection \<Rightarrow> int \<Rightarrow> 'c EndpointState \<Rightarrow> bool" where
  "breaker_ok fc t e \<longleftrightarrow> 0 \<le> failures e \<and> (failures e < maxFailures fc \<longrightarrow> openUntil e = 0) \<and>
     0 \<le> openUntil e \<and> openUntil e \<le> t + cooldownMs fc"

definition client_inv :: "'c FailoverConnection \<times> int \<Rightarrow> bool" where
  "client_inv s \<longleftrightarrow> 0 < maxFailures (fst s) \<and> 0 \<le> cooldownMs (fst s) \<and> 0 \<le> snd s \<and>
     (\<forall>e \<in> set (endpoints (fst s)). breaker_ok (fst s) (snd s) e)"

lemma breaker_later: "breaker_ok fc t e \<Longrightarrow> t \<le> u \<Longrightarrow> breaker_ok fc u e"
  by (auto simp: breaker_ok_def)

lemma client_inv_later: "client_inv (fc, t) \<Longrightarrow> t \<le> u \<Longrightarrow> client_inv (fc, u)"
  by (auto simp: client_inv_def breaker_later)

lemma client_inv_update:
  assumes "client_inv (fc, t)"
    and "\<And>e. breaker_ok fc t e \<Longrightarrow> breaker_ok fc t (f e)"
  shows "client_inv (update_endpoint i f fc, t)"
proof (cases "i < length (endpoints fc)")
  case True
  have "breaker_ok fc t e" if "e \<in> set ((endpoints fc)[i := f (endpoints fc ! i)])" for e
    using that assms(1) assms(2) [of "endpoints fc ! i"] True set_update_subset_insert [of "endpoints fc" i]
    by (auto simp: client_inv_def)
  then show ?thesis
    using assms(1) by (auto simp: client_inv_def update_endpoint_def breaker_ok_def)
next
  case False
  then have "update_endpoint i f fc = fc"
    by (cases fc) (simp add: update_endpoint_def list_update_beyond)
  with assms(1) show ?thesis by simp
qed

lemma breaker_failure:
  "breaker_ok fc t e \<Longrightarrow> 0 \<le> t \<Longrightarrow> 0 \<le> cooldownMs fc \<Longrightarrow> breaker_ok fc t (note_failure fc t e)"
  by (auto simp: breaker_ok_def note_failure_def Let_def)

lemma breaker_success: "breaker_ok fc t e \<Longrightarrow> 0 \<le> t \<Longrightarrow> 0 < maxFailures fc \<Longrightarrow> 0 \<le> cooldownMs fc \<Longrightarrow>
    breaker_ok fc t (note_success e)"
  by (auto simp: breaker_ok_def note_success_def)

lemma attempt_nonneg:
  "\<forall>c u. 0 \<le> snd (fn c u) \<Longrightarrow> attempt fc fn c t = (r, d) \<Longrightarrow> 0 \<le> d"
  by (auto simp: attempt_def withTimeout_def split: if_splits) (metis snd_conv)+

lemma try_candidates_inv:
  assumes "try_candidates fn is le t fc = (fc', t', r)" "client_inv (fc, t)"
    and "\<forall>c u. 0 \<le> snd (fn c u)"
  shows "client_inv (fc', t')"
  using assms(1,2)
proof (induction "is" arbitrary: le t fc)
  case (Cons i "is")
  obtain out d where a: "attempt fc fn (connection (endpoints fc ! i)) t = (out, d)"
    by fastforce
  have inv: "client_inv (fc, t + d)"
    using Cons.prems(2) attempt_nonneg [OF assms(3) a] by (auto intro: client_inv_later)
  then have bounds: "0 \<le> t + d" "0 \<le> cooldownMs fc" "0 < maxFailures fc"
    by (auto simp: client_inv_def)
  show ?case
  proof (cases out)
    case (Inl err)
    with a Cons.prems(1) have
      "try_candidates fn is err (t + d) (update_endpoint i (note_failure fc (t + d)) fc) = (fc', t', r)"
      by simp
    moreover have "client_inv (update_endpoint i (note_failure fc (t + d)) fc, t + d)"
      using client_inv_update [OF inv] breaker_failure bounds by blast
    ultimately show ?thesis
      by (rule Cons.IH)
  next
    case (Inr v)
    with a Cons.prems(1) have "fc' = update_endpoint i note_success fc" "t' = t + d"
      by auto
    then show ?thesis
      using client_inv_update [OF inv] breaker_success bounds by blast
  qed
qed simp

interpretation failover: invariant_system client_init client_step client_inv
proof
  show "client_inv s" if "client_init s" for s :: "'a FailoverConnection \<times> int"
    using that by (auto simp: client_init_def client_inv_def breaker_ok_def)
  show "client_inv s'" if "client_inv s" "client_step s s'" for s s' :: "'a FailoverConnection \<times> int"
    using that(2,1)
  proof cases
    case (call fn now fc fc' t res)
    then obtain r where "try_candidates fn (candidates fc now) ''undefined'' now fc = (fc', t, r)"
      by (auto simp: exec_def split: prod.splits sum.splits)
    then show ?thesis
      using try_candidates_inv that(1) call by blast
  next
    case (wait now t fc)
    with that(1) show ?thesis by (simp add: client_inv_later)
  next
    case (clear fc now)
    with that(1) show ?thesis
      by (auto simp: client_inv_def reset_def breaker_ok_def note_success_def)
  qed
qed


section \<open>Properties\<close>

text \<open>Weights never increase along the candidates, when some endpoint is in service.\<close>

definition by_weight :: "'c FailoverConnection \<Rightarrow> nat list \<Rightarrow> bool" where
  "by_weight fc is \<longleftrightarrow> sorted (map (\<lambda>i. - weight (endpoints fc ! i)) is)"


definition sample_failover :: "nat FailoverConnection" where
  "sample_failover = \<lparr>endpoints =
     [\<lparr>url = ''a'', weight = 1, connection = 0, failures = 0, openUntil = 0\<rparr>,
      \<lparr>url = ''b'', weight = 5, connection = 1, failures = 2, openUntil = 0\<rparr>],
     maxFailures = 3, cooldownMs = 100, timeoutMs = 0\<rparr>"

definition sample_call :: "(nat, unit) rpc_call" where
  "sample_call c t = (if c = 0 then (Inr (), 7) else (Inl ''down'', 5))"

lemma sample_exec:
  "exec sample_call 1000 sample_failover =
     (sample_failover\<lparr>endpoints :=
        [\<lparr>url = ''a'', weight = 1, connection = 0, failures = 0, openUntil = 0\<rparr>,
         \<lparr>url = ''b'', weight = 5, connection = 1, failures = 3, openUntil = 1105\<rparr>]\<rparr>, 1012, Inr ())"
  by (simp add: exec_def candidates_def sample_failover_def sample_call_def healthy_def upt_conv_Cons
      attempt_def update_endpoint_def note_failure_def note_success_def Let_def)


text \<open>
  C36. An endpoint is never lost for good: in every state a client reaches, whatever its calls did,
  each endpoint is in service again once the cool-down has passed, failure counts are never
  negative, and an endpoint below the failure limit has no deadline.
\<close>

theorem breakers_recover:
  assumes "reachable client_init client_step (fc, t)"
  shows "\<forall>e \<in> set (endpoints fc).
    (\<forall>now \<ge> t + cooldownMs fc. healthy fc now e) \<and> 0 \<le> failures e
    \<and> (failures e < maxFailures fc \<longrightarrow> openUntil e = 0)"
proof -
  have "client_inv (fc, t)"
    using assms by (rule failover.reachable_inv)
  then show ?thesis
    by (auto simp: client_inv_def breaker_ok_def healthy_def)
qed

lemma breakers_recover_witness:
  "\<exists>fc. reachable client_init client_step (fc :: nat FailoverConnection, 1012)
     \<and> maxFailures fc = 1 \<and> (\<exists>e \<in> set (endpoints fc). \<not> healthy fc 1012 e)
     \<and> (\<forall>e \<in> set (endpoints fc). healthy fc 1112 e)"
proof -
  let ?ep = "\<lambda>n u. \<lparr>url = ''b'', weight = 5, connection = 1, failures = n, openUntil = u\<rparr> :: nat EndpointState"
  let ?fc = "\<lambda>e. \<lparr>endpoints = [e], maxFailures = 1, cooldownMs = 100, timeoutMs = 0\<rparr>"
  have init: "reachable client_init client_step (?fc (?ep 0 0), 1007)"
    by (rule reach_init) (simp add: client_init_def)
  have "exec sample_call 1007 (?fc (?ep 0 0)) = (?fc (?ep 1 1112), 1012,
      Inl (Error (''All '' @ nat_to_string 10 1 @ '' RPC endpoints failed. Last error: down'')))"
    by (simp add: exec_def candidates_def sample_call_def healthy_def attempt_def update_endpoint_def
        note_failure_def Let_def)
  then have "client_step (?fc (?ep 0 0), 1007) (?fc (?ep 1 1112), 1012)"
    by (rule client_step.call) (simp add: sample_call_def)
  with init have "reachable client_init client_step (?fc (?ep 1 1112), 1012)"
    by (rule reach_step)
  from this breakers_recover [OF this] show ?thesis
    by (intro exI [of _ "?fc (?ep 1 1112)"]) (auto simp: healthy_def)
qed

end
