(* ===== verification/Relayer_Batcher.thy ===== *)
theory Relayer_Batcher
  imports Byte_Codec
begin

text \<open>
  relayer/src/batcher.ts: the relay queue with its batching, dummy padding and retries. A status
  object is shared between the queue entry and the map of statuses, so the objects live in a store
  \<open>objs\<close> and are named by position. Every transaction of a flushed batch runs as its own
  asynchronous task; tasks, enqueues and further flushes interleave as steps of \<open>relay_step\<close>.
\<close>

section \<open>State\<close>

datatype relay_state = Queued | Pending | Confirmed | Failed

text \<open>The order in which a request passes through its states.\<close>

fun stage :: "relay_state \<Rightarrow> nat" where
  "stage Queued = 0"
| "stage Pending = 1"
| "stage Confirmed = 2"
| "stage Failed = 3"

lemma stage_eq [simp]: "stage a = stage b \<longleftrightarrow> a = b"
  by (cases a; cases b) simp_all

instantiation relay_state :: linorder
begin

definition less_eq_relay_state :: "relay_state \<Rightarrow> relay_state \<Rightarrow> bool" where
  "less_eq_relay_state a b \<longleftrightarrow> stage a \<le> stage b"

definition less_relay_state :: "relay_state \<Rightarrow> relay_state \<Rightarrow> bool" where
  "less_relay_state a b \<longleftrightarrow> stage a < stage b"

instance
proof
  fix a b :: relay_state
  assume "a \<le> b" "b \<le> a"
  then have "stage a = stage b"
    by (simp add: less_eq_relay_state_def)
  then show "a = b"
    by simp
qed (auto simp: less_eq_relay_state_def less_relay_state_def)

end

lemma state_order [simp]: "Queued \<le> a" "Pending \<le> a \<longleftrightarrow> a \<noteq> Queued"
  by (cases a; simp add: less_eq_relay_state_def)+

record RelayStatus =
  r_id :: string
  r_state :: relay_state
  txSignature :: "string option"
  r_error :: "string option"
  enqueuedAt :: int
  sentAt :: "int option"

record Entry =
  e_id :: string
  serializedTx :: string
  delayMs :: int
  e_status :: nat

record RelayQueue =
  queue :: "Entry list"
  statuses :: "string \<rightharpoonup> nat"
  objs :: "RelayStatus list"
  batchIntervalMs :: int
  minBatchSize :: nat
  loopHandle :: bool
  maxRetries :: nat

definition newRelayQueue :: "int \<Rightarrow> nat \<Rightarrow> nat \<Rightarrow> RelayQueue" where
  "newRelayQueue interval batch retries =
     \<lparr>queue = [], statuses = Map.empty, objs = [], batchIntervalMs = interval,
      minBatchSize = batch, loopHandle = False, maxRetries = retries\<rparr>"

section \<open>Queue operations\<close>

text \<open>\<open>uuid\<close> is the identifier drawn by \<open>crypto.randomUUID\<close>.\<close>

definition enqueue :: "string \<Rightarrow> int \<Rightarrow> string \<Rightarrow> int \<Rightarrow> RelayQueue \<Rightarrow> RelayQueue \<times> string" where
  "enqueue uuid now tx delay q =
     (let st = \<lparr>r_id = uuid, r_state = Queued, txSignature = None, r_error = None,
                enqueuedAt = now, sentAt = None\<rparr>;
          ref = length (objs q) in
      (q\<lparr>objs := objs q @ [st],
         queue := queue q @ [\<lparr>e_id = uuid, serializedTx = tx, delayMs = delay, e_status = ref\<rparr>],
         statuses := (statuses q)(uuid \<mapsto> ref)\<rparr>,
       uuid))"

definition depth :: "RelayQueue \<Rightarrow> nat" where
  "depth q = length (queue q)"

definition lookup_status :: "string \<Rightarrow> RelayQueue \<Rightarrow> RelayStatus option" where
  "lookup_status i q = map_option (\<lambda>ref. objs q ! ref) (statuses q i)"

definition startBatchLoop :: "RelayQueue \<Rightarrow> RelayQueue" where
  "startBatchLoop q = (if loopHandle q then q else q\<lparr>loopHandle := True\<rparr>)"

definition stopBatchLoop :: "RelayQueue \<Rightarrow> RelayQueue" where
  "stopBatchLoop q = (if loopHandle q then q\<lparr>loopHandle := False\<rparr> else q)"

definition set_status :: "nat \<Rightarrow> (RelayStatus \<Rightarrow> RelayStatus) \<Rightarrow> RelayQueue \<Rightarrow> RelayQueue" where
  "set_status ref f q = q\<lparr>objs := (objs q)[ref := f (objs q ! ref)]\<rparr>"

section \<open>One transaction of a batch\<close>

definition js_includes :: "string \<Rightarrow> string \<Rightarrow> bool" where
  "js_includes s sub = list_ex (\<lambda>i. starts_with sub (drop i s)) [0..<Suc (length s)]"

definition deterministic_failure :: "string \<Rightarrow> bool" where
  "deterministic_failure err =
     (js_includes err ''Signature verification failed'' \<or> js_includes err ''already been processed''
      \<or> js_includes err ''Blockhash not found'')"

definition backoffMs :: "nat \<Rightarrow> nat" where
  "backoffMs attempt = min (1000 * 2 ^ attempt) 8000"

text \<open>Where a task stands at its next \<open>await\<close>: the jitter delay, a send, or a backoff.\<close>

datatype phase = Jitter | Sending nat | Backoff nat | Finished

record Task =
  t_entry :: Entry
  t_phase :: phase

text \<open>After the jitter delay: mark pending, validate, and start the first attempt.\<close>

definition start_task :: "(string \<Rightarrow> bool) \<Rightarrow> int \<Rightarrow> Task \<Rightarrow> RelayQueue \<Rightarrow> Task \<times> RelayQueue" where
  "start_task valid now t q =
     (let ref = e_status (t_entry t);
          q1 = set_status ref (\<lambda>s. s\<lparr>r_state := Pending, sentAt := Some now\<rparr>) q in
      if valid (serializedTx (t_entry t)) then (t\<lparr>t_phase := Sending 0\<rparr>, q1)
      else (t\<lparr>t_phase := Finished\<rparr>,
            set_status ref (\<lambda>s. s\<lparr>r_state := Failed, r_error := Some ''Invalid transaction data''\<rparr>) q1))"

text \<open>A send settles with a signature or an error.\<close>

definition send_settled :: "string + string \<Rightarrow> nat \<Rightarrow> Task \<Rightarrow> RelayQueue \<Rightarrow> Task \<times> RelayQueue" where
  "send_settled outcome attempt t q =
     (let ref = e_status (t_entry t) in
      case outcome of
        Inr signature \<Rightarrow>
          (t\<lparr>t_phase := Finished\<rparr>,
           set_status ref (\<lambda>s. s\<lparr>r_state := Confirmed, txSignature := Some signature\<rparr>) q)
      | Inl lastError \<Rightarrow>
          (if deterministic_failure lastError \<or> \<not> attempt < maxRetries q
           then (t\<lparr>t_phase := Finished\<rparr>,
                 set_status ref (\<lambda>s. s\<lparr>r_state := Failed, r_error := Some lastError\<rparr>) q)
           else (t\<lparr>t_phase := Backoff attempt\<rparr>, q)))"

section \<open>Flushing\<close>

definition paddingCount :: "nat \<Rightarrow> nat \<Rightarrow> nat" where
  "paddingCount batchLen minBatch = ceil_div batchLen minBatch * minBatch - batchLen"

text \<open>\<open>flush\<close> up to its first \<open>await\<close>: the tasks it starts and the number of dummies it sends.\<close>

definition flush :: "RelayQueue \<Rightarrow> RelayQueue \<times> Task list \<times> nat" where
  "flush q =
     (if length (queue q) = 0 then (q, [], 0)
      else (let batch = queue q in
            (q\<lparr>queue := []\<rparr>, map (\<lambda>e. \<lparr>t_entry = e, t_phase = Jitter\<rparr>) batch,
             paddingCount (length batch) (minBatchSize q))))"

section \<open>The relayer as a transition system\<close>

record Relayer =
  rq :: RelayQueue
  tasks :: "Task list"
  dummies :: nat

definition put_task :: "nat \<Rightarrow> Task \<times> RelayQueue \<Rightarrow> Relayer \<Rightarrow> Relayer" where
  "put_task i tq r = r\<lparr>rq := snd tq, tasks := (tasks r)[i := fst tq]\<rparr>"

inductive relay_step :: "(string \<Rightarrow> bool) \<Rightarrow> Relayer \<Rightarrow> Relayer \<Rightarrow> bool" for valid where
  enq: "uuid \<notin> dom (statuses (rq r)) \<Longrightarrow> relay_step valid r (r\<lparr>rq := fst (enqueue uuid now tx delay (rq r))\<rparr>)"
| flsh: "flush (rq r) = (q, ts, pad) \<Longrightarrow>
     relay_step valid r (r\<lparr>rq := q, tasks := tasks r @ ts, dummies := dummies r + pad\<rparr>)"
| start: "i < length (tasks r) \<Longrightarrow> t_phase (tasks r ! i) = Jitter \<Longrightarrow>
     relay_step valid r (put_task i (start_task valid now (tasks r ! i) (rq r)) r)"
| settle: "i < length (tasks r) \<Longrightarrow> t_phase (tasks r ! i) = Sending n \<Longrightarrow>
     relay_step valid r (put_task i (send_settled outcome n (tasks r ! i) (rq r)) r)"
| retry: "i < length (tasks r) \<Longrightarrow> t_phase (tasks r ! i) = Backoff n \<Longrightarrow>
     relay_step valid r (put_task i ((tasks r ! i)\<lparr>t_phase := Sending (n + 1)\<rparr>, rq r) r)"

inductive_cases relay_stepE: "relay_step valid r r'"

definition relay_init :: "Relayer \<Rightarrow> bool" where
  "relay_init r \<longleftrightarrow> (\<exists>interval batch retries. rq r = newRelayQueue interval batch retries)
     \<and> tasks r = [] \<and> dummies r = 0"

section \<open>Invariant\<close>

text \<open>Which state the status object of a task may be in.\<close>

definition phase_ok :: "nat \<Rightarrow> phase \<Rightarrow> RelayStatus \<Rightarrow> bool" where
  "phase_ok retries p s =
     (case p of
        Jitter \<Rightarrow> r_state s = Queued
      | Sending n \<Rightarrow> r_state s = Pending \<and> n \<le> retries
      | Backoff n \<Rightarrow> r_state s = Pending \<and> n < retries
      | Finished \<Rightarrow> (r_state s = Confirmed \<and> txSignature s \<noteq> None)
                   \<or> (r_state s = Failed \<and> r_error s \<noteq> None))"

text \<open>Who holds each status object: the entries still queued, then the tasks.\<close>

definition refs :: "Relayer \<Rightarrow> nat list" where
  "refs r = map e_status (queue (rq r)) @ map (\<lambda>t. e_status (t_entry t)) (tasks r)"

definition relay_inv :: "Relayer \<Rightarrow> bool" where
  "relay_inv r \<longleftrightarrow>
     distinct (refs r) \<and> set (refs r) = {..<length (objs (rq r))} \<and>
     (\<forall>e \<in> set (queue (rq r)). r_state (objs (rq r) ! e_status e) = Queued) \<and>
     (\<forall>t \<in> set (tasks r). phase_ok (maxRetries (rq r)) (t_phase t) (objs (rq r) ! e_status (t_entry t))) \<and>
     (\<forall>e \<in> set (queue (rq r)) \<union> t_entry ` set (tasks r). statuses (rq r) (e_id e) = Some (e_status e)) \<and>
     (\<forall>uuid ref. statuses (rq r) uuid = Some ref \<longrightarrow>
        ref < length (objs (rq r)) \<and> r_id (objs (rq r) ! ref) = uuid)"


lemma set_status_frame [simp]:
  "queue (set_status ref f q) = queue q" "statuses (set_status ref f q) = statuses q"
  "maxRetries (set_status ref f q) = maxRetries q" "minBatchSize (set_status ref f q) = minBatchSize q"
  "length (objs (set_status ref f q)) = length (objs q)"
  by (simp_all add: set_status_def)

lemma nth_set_status:
  "j < length (objs q) \<Longrightarrow>
     objs (set_status ref f q) ! j = (if ref = j then f (objs q ! j) else objs q ! j)"
  by (simp add: set_status_def nth_update_at)

text \<open>What one step of a task may change: its own status object and its phase.\<close>

definition own_change :: "Task \<Rightarrow> RelayQueue \<Rightarrow> Task \<times> RelayQueue \<Rightarrow> bool" where
  "own_change t q tq \<longleftrightarrow>
     t_entry (fst tq) = t_entry t \<and> queue (snd tq) = queue q \<and> statuses (snd tq) = statuses q \<and>
     maxRetries (snd tq) = maxRetries q \<and> minBatchSize (snd tq) = minBatchSize q \<and>
     length (objs (snd tq)) = length (objs q) \<and>
     (\<forall>j < length (objs q). r_id (objs (snd tq) ! j) = r_id (objs q ! j)) \<and>
     (\<forall>j < length (objs q). j \<noteq> e_status (t_entry t) \<longrightarrow> objs (snd tq) ! j = objs q ! j)"

lemma start_task_change:
  assumes "e_status (t_entry t) < length (objs q)"
  shows "own_change t q (start_task valid now t q)"
    and "phase_ok (maxRetries q) (t_phase (fst (start_task valid now t q)))
           (objs (snd (start_task valid now t q)) ! e_status (t_entry t))"
  using assms
  by (auto simp: own_change_def start_task_def Let_def nth_set_status phase_ok_def)

lemma send_settled_change:
  assumes "e_status (t_entry t) < length (objs q)"
    and "phase_ok (maxRetries q) (Sending n) (objs q ! e_status (t_entry t))"
  shows "own_change t q (send_settled outcome n t q)"
    and "phase_ok (maxRetries q) (t_phase (fst (send_settled outcome n t q)))
           (objs (snd (send_settled outcome n t q)) ! e_status (t_entry t))"
  using assms
  by (auto simp: own_change_def send_settled_def Let_def nth_set_status phase_ok_def
      split: sum.splits)

lemma retry_change: "own_change t q (t\<lparr>t_phase := p\<rparr>, q)"
  by (simp add: own_change_def)

lemma refs_put_task:
  "i < length (tasks r) \<Longrightarrow> own_change (tasks r ! i) (rq r) tq \<Longrightarrow> refs (put_task i tq r) = refs r"
  by (auto simp: refs_def put_task_def own_change_def map_update list_update_same_conv)

lemma refs_tasks_distinct:
  assumes "distinct (refs r)" "i < length (tasks r)" "j < length (tasks r)" "i \<noteq> j"
  shows "e_status (t_entry (tasks r ! j)) \<noteq> e_status (t_entry (tasks r ! i))"
proof -
  have "distinct (map (\<lambda>t. e_status (t_entry t)) (tasks r))"
    using assms(1) by (simp add: refs_def)
  with assms show ?thesis
    by (auto simp: distinct_conv_nth)
qed

lemma refs_queue_distinct:
  "distinct (refs r) \<Longrightarrow> i < length (tasks r) \<Longrightarrow> e \<in> set (queue (rq r)) \<Longrightarrow>
     e_status e \<noteq> e_status (t_entry (tasks r ! i))"
  by (force simp: refs_def)

lemma inv_put_task:
  assumes inv: "relay_inv r" and i: "i < length (tasks r)"
    and ch: "own_change (tasks r ! i) (rq r) tq"
    and ok: "phase_ok (maxRetries (rq r)) (t_phase (fst tq))
               (objs (snd tq) ! e_status (t_entry (tasks r ! i)))"
  shows "relay_inv (put_task i tq r)"
proof -
  let ?r = "put_task i tq r"
  have rng: "set (refs r) = {..<length (objs (rq r))}" and d: "distinct (refs r)"
    using inv by (auto simp: relay_inv_def)
  have in_rng: "e_status (t_entry (tasks r ! j)) < length (objs (rq r))" if "j < length (tasks r)" for j
    using rng that by (force simp: refs_def)
  have q_rng: "e_status e < length (objs (rq r))" if "e \<in> set (queue (rq r))" for e
    using rng that by (force simp: refs_def)
  have tasks: "\<forall>t \<in> set (tasks ?r). phase_ok (maxRetries (rq ?r)) (t_phase t) (objs (rq ?r) ! e_status (t_entry t))"
  proof
    fix t assume "t \<in> set (tasks ?r)"
    then obtain j where j: "j < length (tasks r)" "t = (tasks r)[i := fst tq] ! j"
      by (auto simp: put_task_def in_set_conv_nth)
    show "phase_ok (maxRetries (rq ?r)) (t_phase t) (objs (rq ?r) ! e_status (t_entry t))"
    proof (cases "j = i")
      case True
      with j ok ch i show ?thesis by (simp add: put_task_def own_change_def)
    next
      case False
      with j have "t = tasks r ! j" by simp
      moreover from this have "t \<in> set (tasks r)" using j by simp
      moreover have "e_status (t_entry (tasks r ! j)) \<noteq> e_status (t_entry (tasks r ! i))"
        using refs_tasks_distinct [OF d i j(1)] False by simp
      ultimately show ?thesis
        using inv ch in_rng [OF j(1)] by (auto simp: put_task_def own_change_def relay_inv_def)
    qed
  qed
  have entries: "t_entry ` set (tasks ?r) = t_entry ` set (tasks r)"
  proof -
    have "map t_entry ((tasks r)[i := fst tq]) = map t_entry (tasks r)"
      using ch i by (simp add: map_update own_change_def list_update_same_conv)
    then show ?thesis
      by (metis put_task_def Relayer.select_convs(2) Relayer.update_convs(2) list.set_map
          Relayer.surjective Relayer.update_convs(1))
  qed
  have queued: "\<forall>e \<in> set (queue (rq ?r)). r_state (objs (rq ?r) ! e_status e) = Queued"
    using inv ch refs_queue_distinct [OF d i] q_rng
    by (auto simp: put_task_def own_change_def relay_inv_def)
  show ?thesis
    using inv ch queued tasks entries refs_put_task [OF i ch]
    unfolding relay_inv_def by (auto simp: put_task_def own_change_def)
qed

lemma inv_enqueue:
  assumes inv: "relay_inv r" and fresh: "uuid \<notin> dom (statuses (rq r))"
  shows "relay_inv (r\<lparr>rq := fst (enqueue uuid now tx delay (rq r))\<rparr>)"
proof -
  let ?n = "length (objs (rq r))"
  have rng: "set (refs r) = {..<?n}" and d: "distinct (refs r)"
    using inv by (auto simp: relay_inv_def)
  have q_rng: "e_status e < ?n" if "e \<in> set (queue (rq r)) \<union> t_entry ` set (tasks r)" for e
    using rng that by (force simp: refs_def)
  have old: "e_id e \<noteq> uuid" if "e \<in> set (queue (rq r)) \<union> t_entry ` set (tasks r)" for e
    using inv fresh that by (fastforce simp: relay_inv_def)
  have "refs (r\<lparr>rq := fst (enqueue uuid now tx delay (rq r))\<rparr>)
      = map e_status (queue (rq r)) @ ?n # map (\<lambda>t. e_status (t_entry t)) (tasks r)"
    by (simp add: refs_def enqueue_def Let_def)
  moreover have "distinct (map e_status (queue (rq r)) @ ?n # map (\<lambda>t. e_status (t_entry t)) (tasks r))"
    "set (map e_status (queue (rq r)) @ ?n # map (\<lambda>t. e_status (t_entry t)) (tasks r)) = {..<Suc ?n}"
    using d rng q_rng by (auto simp: refs_def)
  ultimately show ?thesis
    using inv q_rng old
    by (auto simp: relay_inv_def enqueue_def Let_def nth_append less_Suc_eq)
qed

lemma inv_flush:
  assumes "relay_inv r" "flush (rq r) = (q, ts, pad)"
  shows "relay_inv (r\<lparr>rq := q, tasks := tasks r @ ts, dummies := dummies r + pad\<rparr>)"
proof (cases "queue (rq r) = []")
  case True
  with assms show ?thesis by (auto simp: flush_def relay_inv_def refs_def)
next
  case False
  then have "q = (rq r)\<lparr>queue := []\<rparr>" "ts = map (\<lambda>e. \<lparr>t_entry = e, t_phase = Jitter\<rparr>) (queue (rq r))"
    using assms(2) by (auto simp: flush_def Let_def)
  with assms(1) show ?thesis
    by (auto simp: relay_inv_def refs_def phase_ok_def comp_def image_iff)
qed


lemma task_in_range:
  "relay_inv r \<Longrightarrow> i < length (tasks r) \<Longrightarrow> e_status (t_entry (tasks r ! i)) < length (objs (rq r))"
  by (force simp: relay_inv_def refs_def)

lemma task_phase_ok:
  "relay_inv r \<Longrightarrow> i < length (tasks r) \<Longrightarrow>
     phase_ok (maxRetries (rq r)) (t_phase (tasks r ! i)) (objs (rq r) ! e_status (t_entry (tasks r ! i)))"
  by (simp add: relay_inv_def)

lemma relay_inv_step:
  assumes "relay_inv r" "relay_step valid r r'"
  shows "relay_inv r'"
  using assms(2)
proof (cases rule: relay_step.cases)
  case (enq uuid now tx delay)
  then show ?thesis using inv_enqueue assms(1) by blast
next
  case (flsh q ts pad)
  then show ?thesis using inv_flush assms(1) by blast
next
  case (start i now)
  then show ?thesis
    using inv_put_task start_task_change [OF task_in_range] assms(1) by blast
next
  case (settle i n outcome)
  then show ?thesis
    using inv_put_task send_settled_change [OF task_in_range] task_phase_ok assms(1) by metis
next
  case (retry i n)
  have "phase_ok (maxRetries (rq r)) (Sending (n + 1)) (objs (rq r) ! e_status (t_entry (tasks r ! i)))"
    using task_phase_ok [OF assms(1) retry(2)] by (simp add: retry(3) phase_ok_def)
  then show ?thesis
    unfolding retry(1) by (intro inv_put_task assms(1) retry(2) retry_change) simp
qed

interpretation relayer: invariant_system relay_init "relay_step valid" relay_inv for valid
proof
  show "relay_inv r" if "relay_init r" for r
    using that by (auto simp: relay_init_def relay_inv_def newRelayQueue_def refs_def)
  show "relay_inv r'" if "relay_inv r" "relay_step valid r r'" for r r'
    using relay_inv_step that by blast
qed

section \<open>Retries\<close>

text \<open>
  The retry loop of one transaction in one piece: \<open>outcomes n\<close> is what attempt \<open>n\<close> returns. The
  result comes with the number of sends and the milliseconds slept between them.
\<close>

function send_loop :: "nat \<Rightarrow> (nat \<Rightarrow> string + string) \<Rightarrow> nat \<Rightarrow> string \<Rightarrow> (string + string) \<times> nat \<times> nat" where
  "send_loop retries outcomes attempt lastError =
     (if attempt \<le> retries then
        (case outcomes attempt of
           Inr signature \<Rightarrow> (Inr signature, 1, 0)
         | Inl err \<Rightarrow>
             (if deterministic_failure err then (Inl err, 1, 0)
              else (case send_loop retries outcomes (attempt + 1) err of
                      (r, sends, slept) \<Rightarrow>
                        (r, sends + 1, slept + (if attempt < retries then backoffMs attempt else 0)))))
      else (Inl lastError, 0, 0))"
  by auto
termination by (relation "measure (\<lambda>(retries, _, attempt, _). Suc retries - attempt)") auto

declare send_loop.simps [simp del]

lemma send_loop_bounds:
  "send_loop retries outcomes attempt le = (r, sends, slept) \<Longrightarrow>
     sends \<le> Suc retries - attempt \<and> slept \<le> 8000 * (retries - attempt)"
proof (induction retries outcomes attempt le arbitrary: r sends slept rule: send_loop.induct)
  case (1 retries outcomes attempt le)
  show ?case
  proof (cases "attempt \<le> retries \<and> (\<exists>err. outcomes attempt = Inl err \<and> \<not> deterministic_failure err)")
    case False
    with 1(2) show ?thesis
      by (auto simp: send_loop.simps [of retries outcomes attempt] split: if_splits sum.splits)
  next
    case True
    then obtain err where err: "outcomes attempt = Inl err" "\<not> deterministic_failure err"
      "attempt \<le> retries"
      by blast
    obtain r' sends' slept' where rec: "send_loop retries outcomes (attempt + 1) err = (r', sends', slept')"
      by (cases "send_loop retries outcomes (attempt + 1) err") auto
    note IH = 1(1) [OF err(3,1,2) rec]
    have "backoffMs attempt \<le> 8000"
      by (simp add: backoffMs_def)
    with IH err 1(2) rec show ?thesis
      by (auto simp: send_loop.simps [of retries outcomes attempt] split: if_splits)
  qed
qed

text \<open>Running a task by its own steps, attempt \<open>n\<close> settling with \<open>outcomes n\<close>.\<close>

fun run_task :: "nat \<Rightarrow> (string \<Rightarrow> bool) \<Rightarrow> int \<Rightarrow> (nat \<Rightarrow> string + string) \<Rightarrow> Task \<times> RelayQueue \<Rightarrow>
    Task \<times> RelayQueue" where
  "run_task 0 valid now outcomes (t, q) = (t, q)"
| "run_task (Suc k) valid now outcomes (t, q) =
     (case t_phase t of
        Jitter \<Rightarrow> run_task k valid now outcomes (start_task valid now t q)
      | Sending n \<Rightarrow> run_task k valid now outcomes (send_settled (outcomes n) n t q)
      | Backoff n \<Rightarrow> run_task k valid now outcomes (t\<lparr>t_phase := Sending (n + 1)\<rparr>, q)
      | Finished \<Rightarrow> (t, q))"

definition steps_left :: "nat \<Rightarrow> phase \<Rightarrow> nat" where
  "steps_left retries p =
     (case p of Jitter \<Rightarrow> 2 * retries + 2 | Sending n \<Rightarrow> 2 * (retries - n) + 1
      | Backoff n \<Rightarrow> 2 * (retries - n) | Finished \<Rightarrow> 0)"

definition record_result :: "string + string \<Rightarrow> RelayStatus \<Rightarrow> RelayStatus" where
  "record_result res s =
     (case res of
        Inr sig \<Rightarrow> s\<lparr>r_state := Confirmed, txSignature := Some sig\<rparr>
      | Inl err \<Rightarrow> s\<lparr>r_state := Failed, r_error := Some err\<rparr>)"

lemma run_task_Finished [simp]: "t_phase t = Finished \<Longrightarrow> run_task k valid now outcomes (t, q) = (t, q)"
  by (cases k) simp_all

lemma run_task_final:
  assumes "t_phase t = Sending n"
    and "case outcomes n of Inl err \<Rightarrow> deterministic_failure err \<or> \<not> n < maxRetries q | Inr _ \<Rightarrow> True"
  shows "run_task (Suc k) valid now outcomes (t, q) =
    (t\<lparr>t_phase := Finished\<rparr>, set_status (e_status (t_entry t)) (record_result (outcomes n)) q)"
  using assms by (cases "outcomes n") (auto simp: send_settled_def Let_def record_result_def [abs_def])

lemma run_task_sends:
  assumes "t_phase t = Sending n" "n \<le> maxRetries q" "2 * (maxRetries q - n) + 1 \<le> k"
    and "send_loop (maxRetries q) outcomes n le = (res, rest)"
  shows "run_task k valid now outcomes (t, q) =
    (t\<lparr>t_phase := Finished\<rparr>, set_status (e_status (t_entry t)) (record_result res) q)"
  using assms
proof (induction "maxRetries q - n" arbitrary: n t k le rest)
  case 0
  then obtain k' where k: "k = Suc k'" and n: "n = maxRetries q"
    by (cases k) auto
  have over: "send_loop (maxRetries q) outcomes (Suc (maxRetries q)) err = (Inl err, 0, 0)" for err
    by (simp add: send_loop.simps)
  note unfold = send_loop.simps [of "maxRetries q" outcomes "maxRetries q"]
  have "res = outcomes n" "case outcomes n of Inl err \<Rightarrow> deterministic_failure err \<or> \<not> n < maxRetries q | Inr _ \<Rightarrow> True"
    using 0 over by (auto simp: n unfold split: if_splits sum.splits)
  then show ?case
    using run_task_final [OF 0(2)] by (simp add: k)
next
  case (Suc m)
  then have lt: "n < maxRetries q" "m = maxRetries q - (n + 1)"
    by auto
  obtain k' where k: "k = Suc (Suc k')"
    using Suc.prems(3) lt by (metis Suc_le_D add_Suc_right mult_2 Suc.hyps(2) add_Suc Suc_le_mono One_nat_def)
  show ?case
  proof (cases "\<exists>err. outcomes n = Inl err \<and> \<not> deterministic_failure err")
    case False
    then have "res = outcomes n" "case outcomes n of Inl err \<Rightarrow> deterministic_failure err \<or> \<not> n < maxRetries q | Inr _ \<Rightarrow> True"
      using Suc.prems lt by (auto simp: send_loop.simps [of _ _ n] split: if_splits sum.splits)
    then show ?thesis
      using run_task_final [OF Suc.prems(1)] by (simp add: k)
  next
    case True
    then obtain err where err: "outcomes n = Inl err" "\<not> deterministic_failure err"
      by blast
    obtain rest' where rec: "send_loop (maxRetries q) outcomes (n + 1) err = (res, rest')"
      using Suc.prems(2,4) err
      by (auto simp: send_loop.simps [of _ _ n] split: prod.splits)
    have "run_task k valid now outcomes (t, q)
        = run_task k' valid now outcomes (t\<lparr>t_phase := Sending (n + 1)\<rparr>, q)"
      using Suc.prems(1) err lt by (simp add: k send_settled_def Let_def)
    also have "\<dots> = (t\<lparr>t_phase := Finished\<rparr>, set_status (e_status (t_entry t)) (record_result res) q)"
      using Suc.hyps(1) [OF lt(2), of "t\<lparr>t_phase := Sending (n + 1)\<rparr>" k' err rest'] rec lt Suc.prems(3) k
      by simp
    finally show ?thesis .
  qed
qed


section \<open>Properties\<close>

definition final :: "RelayStatus \<Rightarrow> bool" where
  "final s \<longleftrightarrow> r_state s = Confirmed \<or> r_state s = Failed"

lemma finished_final: "phase_ok k p s \<Longrightarrow> final s \<longleftrightarrow> p = Finished"
  by (auto simp: phase_ok_def final_def split: phase.splits)

text \<open>Every enqueued request is held once: still queued, or by exactly one task.\<close>

definition held_once :: "Relayer \<Rightarrow> nat \<Rightarrow> bool" where
  "held_once r ref \<longleftrightarrow>
     count_list (map e_status (queue (rq r)) @ map (\<lambda>t. e_status (t_entry t)) (tasks r)) ref = 1"

lemma count_list_distinct: "distinct xs \<Longrightarrow> x \<in> set xs \<Longrightarrow> count_list xs x = 1"
  by (induction xs) auto

text \<open>
  C2. The relay loses and duplicates nothing: in every reachable state, under any interleaving of
  enqueues, flushes and the tasks of any number of batches, the status of an enqueued identifier is
  found under its own identifier, its transaction is held exactly once, by the queue or by one
  task, and the status is final exactly when that task has finished.
\<close>

theorem relay_loses_nothing:
  assumes "reachable relay_init (relay_step valid) r" "statuses (rq r) uuid = Some ref"
  shows "held_once r ref
    \<and> lookup_status uuid (rq r) = Some (objs (rq r) ! ref) \<and> r_id (objs (rq r) ! ref) = uuid
    \<and> (final (objs (rq r) ! ref) \<longleftrightarrow>
         (\<exists>t \<in> set (tasks r). e_status (t_entry t) = ref \<and> t_phase t = Finished))"
proof -
  have inv: "relay_inv r"
    using assms(1) by (rule relayer.reachable_inv)
  have ref: "ref < length (objs (rq r))" "r_id (objs (rq r) ! ref) = uuid"
    using inv assms(2) by (auto simp: relay_inv_def)
  have d: "distinct (refs r)" and mem: "ref \<in> set (refs r)"
    using inv ref(1) by (auto simp: relay_inv_def)
  have once: "held_once r ref"
    using count_list_distinct [OF d mem] by (simp add: held_once_def refs_def)
  have "final (objs (rq r) ! ref) \<longleftrightarrow>
      (\<exists>t \<in> set (tasks r). e_status (t_entry t) = ref \<and> t_phase t = Finished)"
  proof (cases "\<exists>t \<in> set (tasks r). e_status (t_entry t) = ref")
    case True
    then obtain t where t: "t \<in> set (tasks r)" "e_status (t_entry t) = ref"
      by blast
    have "phase_ok (maxRetries (rq r)) (t_phase t) (objs (rq r) ! ref)"
      using inv t by (auto simp: relay_inv_def)
    moreover have "t' = t" if "t' \<in> set (tasks r)" "e_status (t_entry t') = ref" for t'
    proof -
      have "distinct (map (\<lambda>t. e_status (t_entry t)) (tasks r))"
        using d by (simp add: refs_def)
      with that t show ?thesis
        by (auto simp: distinct_map dest: inj_onD)
    qed
    ultimately show ?thesis
      using t finished_final by blast
  next
    case False
    then obtain e where "e \<in> set (queue (rq r))" "e_status e = ref"
      using mem by (auto simp: refs_def)
    then have "r_state (objs (rq r) ! ref) = Queued"
      using inv by (auto simp: relay_inv_def)
    with False show ?thesis by (auto simp: final_def)
  qed
  with once ref assms(2) show ?thesis
    by (simp add: lookup_status_def)
qed

definition empty_relayer :: Relayer where
  "empty_relayer = \<lparr>rq = newRelayQueue 5000 4 3, tasks = [], dummies = 0\<rparr>"

definition one_queued :: Relayer where
  "one_queued = empty_relayer\<lparr>rq := fst (enqueue ''id'' 0 ''tx'' 0 (rq empty_relayer))\<rparr>"

lemma one_queued_reachable: "reachable relay_init (relay_step valid) one_queued"
proof -
  have "reachable relay_init (relay_step valid) empty_relayer"
    by (rule reach_init) (auto simp: relay_init_def empty_relayer_def)
  moreover have "relay_step valid empty_relayer one_queued"
    unfolding one_queued_def by (rule relay_step.enq) (simp add: empty_relayer_def newRelayQueue_def)
  ultimately show ?thesis
    by (rule reach_step)
qed

lemma relay_loses_nothing_witness:
  "statuses (rq one_queued) ''id'' = Some 0 \<and> held_once one_queued 0"
proof -
  have "statuses (rq one_queued) ''id'' = Some 0"
    by (simp add: one_queued_def enqueue_def empty_relayer_def newRelayQueue_def Let_def)
  with relay_loses_nothing [OF one_queued_reachable this] show ?thesis by blast
qed

text \<open>A step changes no final status.\<close>

lemma final_status_kept:
  assumes inv: "relay_inv r" and "relay_step valid r r'"
    and "lookup_status uuid (rq r) = Some s" "final s"
  shows "lookup_status uuid (rq r') = Some s"
proof -
  obtain ref where ref: "statuses (rq r) uuid = Some ref" "s = objs (rq r) ! ref"
    using assms(3) by (auto simp: lookup_status_def)
  have lt: "ref < length (objs (rq r))"
    using inv ref by (auto simp: relay_inv_def)
  have other: "lookup_status uuid (rq (put_task i tq r)) = Some s"
    if "i < length (tasks r)" "t_phase (tasks r ! i) \<noteq> Finished" "own_change (tasks r ! i) (rq r) tq" for i tq
  proof -
    have "e_status (t_entry (tasks r ! i)) \<noteq> ref"
      using finished_final [OF task_phase_ok [OF inv that(1)]] that(2) assms(4) ref(2) by auto
    with that(3) ref lt show ?thesis
      by (simp add: lookup_status_def put_task_def own_change_def)
  qed
  show ?thesis
    using assms(2)
  proof (cases rule: relay_step.cases)
    case (enq uuid' now tx delay)
    with ref lt show ?thesis
      by (auto simp: lookup_status_def enqueue_def Let_def)
  next
    case (flsh q ts pad)
    with ref show ?thesis
      by (auto simp: lookup_status_def flush_def Let_def split: if_splits)
  next
    case (start i now)
    with other start_task_change(1) [OF task_in_range [OF inv]] show ?thesis by simp
  next
    case (settle i n outcome)
    have "phase_ok (maxRetries (rq r)) (Sending n) (objs (rq r) ! e_status (t_entry (tasks r ! i)))"
      using task_phase_ok [OF inv settle(2)] by (simp add: settle(3))
    with settle other send_settled_change(1) [OF task_in_range [OF inv]] show ?thesis by simp
  next
    case (retry i n)
    with other retry_change show ?thesis by simp
  qed
qed

text \<open>What a step of a task leaves in a status: the same, or a later state.\<close>

lemma status_step:
  assumes inv: "relay_inv r" and step: "relay_step valid r r'" and look: "lookup_status uuid (rq r) = Some s"
  shows "\<exists>s'. lookup_status uuid (rq r') = Some s' \<and> r_state s \<le> r_state s' \<and> (final s \<longrightarrow> s' = s)"
proof (cases "final s")
  case True
  with final_status_kept [OF inv step look] show ?thesis by simp
next
  case False
  obtain ref where ref: "statuses (rq r) uuid = Some ref" "s = objs (rq r) ! ref"
    using look by (auto simp: lookup_status_def)
  have lt: "ref < length (objs (rq r))"
    using inv ref by (auto simp: relay_inv_def)
  have own: "\<exists>s'. lookup_status uuid (rq (put_task i tq r)) = Some s' \<and> r_state s \<le> r_state s'"
    if "own_change (tasks r ! i) (rq r) tq"
      "e_status (t_entry (tasks r ! i)) = ref \<Longrightarrow> r_state s \<le> r_state (objs (snd tq) ! ref)" for i tq
    using that ref lt by (cases "e_status (t_entry (tasks r ! i)) = ref") (auto simp: lookup_status_def put_task_def own_change_def)
  have "\<exists>s'. lookup_status uuid (rq r') = Some s' \<and> r_state s \<le> r_state s'"
    using step
  proof (cases rule: relay_step.cases)
    case (enq uuid' now tx delay)
    with ref lt show ?thesis
      by (auto simp: lookup_status_def enqueue_def Let_def)
  next
    case (flsh q ts pad)
    with ref show ?thesis
      by (auto simp: lookup_status_def flush_def Let_def split: if_splits)
  next
    case (start i now)
    show ?thesis
      unfolding start(1)
      by (rule own [OF start_task_change(1) [OF task_in_range [OF inv start(2)]]])
        (use task_phase_ok [OF inv start(2)] ref(2) in \<open>simp add: start(3) phase_ok_def\<close>)
  next
    case (settle i n outcome)
    have sending: "phase_ok (maxRetries (rq r)) (Sending n) (objs (rq r) ! e_status (t_entry (tasks r ! i)))"
      using task_phase_ok [OF inv settle(2)] by (simp add: settle(3))
    show ?thesis
      unfolding settle(1)
      by (rule own [OF send_settled_change(1) [OF task_in_range [OF inv settle(2)] sending]])
        (use sending ref(2) lt in \<open>auto simp: phase_ok_def send_settled_def Let_def nth_set_status split: sum.splits\<close>)
  next
    case (retry i n)
    show ?thesis
      unfolding retry(1) by (rule own [OF retry_change]) (simp add: ref)
  qed
  with False show ?thesis by blast
qed

text \<open>
  C16. A status only moves forward: along every run of the relay, whatever is enqueued, flushed, sent and retried in
  between, a request that is known stays known, its state never falls back in the order queued, pending, confirmed or failed,
  and once it is confirmed or failed what a status query returns for it is never altered.
\<close>

theorem status_moves_forward:
  assumes "reachable relay_init (relay_step valid) r" "(relay_step valid)\<^sup>*\<^sup>* r r'"
    and "lookup_status uuid (rq r) = Some s"
  shows "\<exists>s'. lookup_status uuid (rq r') = Some s' \<and> r_state s \<le> r_state s' \<and> (final s \<longrightarrow> s' = s)"
  using assms(2)
proof (induction rule: rtranclp_induct)
  case base
  with assms(3) show ?case by simp
next
  case (step r1 r2)
  then obtain s1 where s1: "lookup_status uuid (rq r1) = Some s1" "r_state s \<le> r_state s1" "final s \<longrightarrow> s1 = s"
    by blast
  have "relay_inv r1"
    using relayer.reachable_inv relayer.reachable_steps assms(1) step.hyps(1) by blast
  from status_step [OF this step.hyps(2) s1(1)] s1(2,3) show ?case
    by (metis order_trans)
qed

definition one_failed :: Relayer where
  "one_failed =
     (let q = fst (enqueue ''id'' 0 ''tx'' 0 (rq empty_relayer));
          t = \<lparr>t_entry = \<lparr>e_id = ''id'', serializedTx = ''tx'', delayMs = 0, e_status = 0\<rparr>, t_phase = Jitter\<rparr>
      in put_task 0 (start_task (\<lambda>tx. False) 7 t (q\<lparr>queue := []\<rparr>))
           \<lparr>rq = q\<lparr>queue := []\<rparr>, tasks = [t], dummies = 3\<rparr>)"

lemma one_failed_reachable: "reachable relay_init (relay_step (\<lambda>tx. False)) one_failed"
proof -
  let ?t = "\<lparr>t_entry = \<lparr>e_id = ''id'', serializedTx = ''tx'', delayMs = 0, e_status = 0\<rparr>, t_phase = Jitter\<rparr>"
  let ?r = "\<lparr>rq = (rq one_queued)\<lparr>queue := []\<rparr>, tasks = [?t], dummies = 3\<rparr>"
  have "flush (rq one_queued) = ((rq one_queued)\<lparr>queue := []\<rparr>, [?t], 3)"
    by (simp add: flush_def one_queued_def enqueue_def empty_relayer_def newRelayQueue_def Let_def
        paddingCount_def ceil_div_def)
  then have "relay_step (\<lambda>tx. False) one_queued ?r"
    using relay_step.flsh [of one_queued _ _ 3] by (force simp: one_queued_def empty_relayer_def)
  then have "reachable relay_init (relay_step (\<lambda>tx. False)) ?r"
    by (rule reach_step [OF one_queued_reachable])
  moreover have "relay_step (\<lambda>tx. False) ?r one_failed"
    using relay_step.start [of 0 ?r "\<lambda>tx. False" 7] by (simp add: one_failed_def one_queued_def Let_def)
  ultimately show ?thesis
    by (rule reach_step)
qed

lemma status_moves_forward_witness:
  "\<exists>s. lookup_status ''id'' (rq one_failed) = Some s \<and> final s
     \<and> lookup_status ''id'' (fst (enqueue ''id2'' 9 ''tx'' 0 (rq one_failed))) = Some s"
proof -
  have look: "\<exists>s. lookup_status ''id'' (rq one_failed) = Some s \<and> final s"
    by (simp add: one_failed_def put_task_def start_task_def lookup_status_def enqueue_def
        empty_relayer_def newRelayQueue_def set_status_def final_def Let_def)
  have "''id2'' \<notin> dom (statuses (rq one_failed))"
    by (simp add: one_failed_def put_task_def start_task_def enqueue_def empty_relayer_def
        newRelayQueue_def set_status_def Let_def)
  then have "relay_step (\<lambda>tx. False) one_failed
      (one_failed\<lparr>rq := fst (enqueue ''id2'' 9 ''tx'' 0 (rq one_failed))\<rparr>)" (is "relay_step _ _ ?r")
    by (rule relay_step.enq)
  then have "(relay_step (\<lambda>tx. False))\<^sup>*\<^sup>* one_failed ?r"
    by (rule r_into_rtranclp)
  with look status_moves_forward [OF one_failed_reachable this] show ?thesis
    by fastforce
qed



definition sample_outcomes :: "nat \<Rightarrow> string + string" where
  "sample_outcomes n = (if n = 0 then Inl ''timeout'' else Inr ''sig'')"


text \<open>
  A flush takes the whole queue in order, starts one task per transaction, and adds the fewest
  dummies that make the batch a multiple of \<open>minBatchSize\<close>; with nothing queued it sends nothing, so
  the number of transactions of a window is not fixed but grows in steps of \<open>minBatchSize\<close> from 0.
\<close>

theorem flush_pads_to_multiple:
  assumes "0 < minBatchSize q"
  shows "case flush q of (q', ts, pad) \<Rightarrow>
      queue q' = [] \<and> objs q' = objs q \<and> statuses q' = statuses q
    \<and> map t_entry ts = queue q \<and> (\<forall>t \<in> set ts. t_phase t = Jitter)
    \<and> (length ts + pad) mod minBatchSize q = 0 \<and> pad < minBatchSize q
    \<and> (depth q = 0 \<longleftrightarrow> length ts + pad = 0)"
proof -
  let ?n = "length (queue q)" and ?b = "minBatchSize q"
  have le: "?n \<le> ceil_div ?n ?b * ?b" and lt: "ceil_div ?n ?b * ?b < ?n + ?b"
    using ceil_div_bounds [OF assms, of ?n] by auto
  then have "?n + paddingCount ?n ?b = ceil_div ?n ?b * ?b" "paddingCount ?n ?b < ?b"
    by (auto simp: paddingCount_def)
  then show ?thesis
    using assms by (auto simp: flush_def Let_def comp_def depth_def)
qed

lemma flush_pads_to_multiple_witness:
  "case flush (rq one_queued) of (q', ts, pad) \<Rightarrow> (length ts + pad) mod 4 = 0 \<and> pad < 4"
  using flush_pads_to_multiple [of "rq one_queued"]
  by (simp add: one_queued_def enqueue_def empty_relayer_def newRelayQueue_def Let_def split: prod.splits)

end
