(* ===== verification/Relayer_Fees.thy ===== *)
theory Relayer_Fees
  imports Byte_Codec
begin

text \<open>
  relayer/src/fees.ts: the fee estimate with its cached priority fee. The RPC call is an outcome
  given to the operation: the fees it returns, or \<open>None\<close> when it fails, and how long it takes.
\<close>

record FeeEstimate =
  fe_baseFee :: int
  fe_priorityFee :: int
  totalFee :: int
  fe_timestamp :: int

record FeeEstimator =
  baseFee :: int
  cacheDurationMs :: int
  rpcTimeoutMs :: int
  cachedPriorityFee :: "int option"
  cacheTimestamp :: int

definition newFeeEstimator :: "int \<Rightarrow> FeeEstimator" where
  "newFeeEstimator fee =
     \<lparr>baseFee = fee, cacheDurationMs = 30000, rpcTimeoutMs = 1000, cachedPriorityFee = None,
      cacheTimestamp = 0\<rparr>"

definition raceTimeout :: "'a option \<times> int \<Rightarrow> int \<Rightarrow> 'a option \<times> int" where
  "raceTimeout call ms = (if snd call < ms then call else (None, ms))"

definition median_fee :: "int list \<Rightarrow> int" where
  "median_fee fees = (if length fees = 0 then 0 else sort fees ! (length fees div 2))"

text \<open>The result comes with the time at which it is returned and whether the network was asked.\<close>

definition getPriorityFee :: "int list option \<times> int \<Rightarrow> int \<Rightarrow> FeeEstimator \<Rightarrow>
    FeeEstimator \<times> int \<times> int \<times> bool" where
  "getPriorityFee rpc now fe =
     (case cachedPriorityFee fe of
        Some fee \<Rightarrow>
          if now - cacheTimestamp fe < cacheDurationMs fe then (fe, fee, now, False)
          else (case raceTimeout rpc (rpcTimeoutMs fe) of (res, d) \<Rightarrow>
                  let p = (case res of None \<Rightarrow> 0 | Some fees \<Rightarrow> median_fee fees) in
                  (fe\<lparr>cachedPriorityFee := Some p, cacheTimestamp := now\<rparr>, p, now + d, True))
      | None \<Rightarrow>
          (case raceTimeout rpc (rpcTimeoutMs fe) of (res, d) \<Rightarrow>
             let p = (case res of None \<Rightarrow> 0 | Some fees \<Rightarrow> median_fee fees) in
             (fe\<lparr>cachedPriorityFee := Some p, cacheTimestamp := now\<rparr>, p, now + d, True)))"

definition estimate :: "int list option \<times> int \<Rightarrow> int \<Rightarrow> FeeEstimator \<Rightarrow> FeeEstimator \<times> FeeEstimate" where
  "estimate rpc now fe =
     (case getPriorityFee rpc now fe of (fe', p, t, _) \<Rightarrow>
        (fe', \<lparr>fe_baseFee = baseFee fe', fe_priorityFee = p, totalFee = baseFee fe' + p, fe_timestamp = t\<rparr>))"

section \<open>The median\<close>

lemma sorted_count_le:
  assumes "sorted xs" "k < length xs"
  shows "Suc k \<le> length (filter (\<lambda>x. x \<le> xs ! k) xs)"
proof -
  have "\<forall>x \<in> set (take (Suc k) xs). x \<le> xs ! k"
    using assms by (auto simp: in_set_conv_nth sorted_nth_mono)
  then have "filter (\<lambda>x. x \<le> xs ! k) (take (Suc k) xs) = take (Suc k) xs"
    by (simp add: filter_id_conv)
  then have "length (filter (\<lambda>x. x \<le> xs ! k) (take (Suc k) xs @ drop (Suc k) xs)) \<ge> Suc k"
    using assms by (simp only: filter_append length_append) simp
  then show ?thesis by simp
qed

lemma sorted_count_ge:
  assumes "sorted xs" "k < length xs"
  shows "length xs - k \<le> length (filter (\<lambda>x. xs ! k \<le> x) xs)"
proof -
  have "\<forall>x \<in> set (drop k xs). xs ! k \<le> x"
    using assms by (auto simp: in_set_conv_nth sorted_nth_mono)
  then have "filter (\<lambda>x. xs ! k \<le> x) (drop k xs) = drop k xs"
    by (simp add: filter_id_conv)
  then have "length (filter (\<lambda>x. xs ! k \<le> x) (take k xs @ drop k xs)) \<ge> length xs - k"
    using assms by (simp only: filter_append length_append) simp
  then show ?thesis by simp
qed

lemma length_filter_sort: "length (filter P (sort xs)) = length (filter P xs)"
  by (simp add: filter_sort)

definition is_median :: "int list \<Rightarrow> int \<Rightarrow> bool" where
  "is_median fees p \<longleftrightarrow> p \<in> set fees \<and>
     length fees < 2 * length (filter (\<lambda>x. x \<le> p) fees) \<and>
     length fees \<le> 2 * length (filter (\<lambda>x. p \<le> x) fees)"

lemma median_fee_is_median:
  assumes "fees \<noteq> []"
  shows "is_median fees (median_fee fees)"
proof -
  let ?k = "length fees div 2" and ?s = "sort fees"
  have k: "?k < length ?s"
    using assms by simp
  have "?s ! ?k \<in> set fees"
    using k by (metis nth_mem set_sort)
  moreover have "Suc ?k \<le> length (filter (\<lambda>x. x \<le> ?s ! ?k) fees)"
    using sorted_count_le [OF sorted_sort k] by (simp only: length_filter_sort)
  moreover have "length fees - ?k \<le> length (filter (\<lambda>x. ?s ! ?k \<le> x) fees)"
    using sorted_count_ge [OF sorted_sort k] by (simp only: length_filter_sort length_sort)
  ultimately show ?thesis
    using assms by (auto simp: is_median_def median_fee_def)
qed

lemma median_fee_Nil: "median_fee [] = 0"
  by (simp add: median_fee_def)

text \<open>
  A fee estimate is the base fee plus a priority fee: within the cache time of an earlier
  lookup exactly the cached one, without asking the network and with the estimator unchanged;
  otherwise the median of the fees the network returned in time, or 0 when it returned none, failed
  or took as long as the timeout, which is then cached from the moment the estimate was asked for.
\<close>

theorem estimate_is_base_plus_median:
  "case estimate rpc now fe of (fe', e) \<Rightarrow>
     totalFee e = fe_baseFee e + fe_priorityFee e \<and> fe_baseFee e = baseFee fe \<and>
     (if cachedPriorityFee fe \<noteq> None \<and> now - cacheTimestamp fe < cacheDurationMs fe
      then fe' = fe \<and> cachedPriorityFee fe = Some (fe_priorityFee e) \<and> fe_timestamp e = now
      else cachedPriorityFee fe' = Some (fe_priorityFee e) \<and> cacheTimestamp fe' = now \<and>
        (case rpc of
           (Some (f # fs), d) \<Rightarrow>
             if d < rpcTimeoutMs fe then is_median (f # fs) (fe_priorityFee e) \<and> fe_timestamp e = now + d
             else fe_priorityFee e = 0 \<and> fe_timestamp e = now + rpcTimeoutMs fe
         | (_, d) \<Rightarrow> fe_priorityFee e = 0))"
  using median_fee_is_median [of "_ # _"]
  by (auto simp: estimate_def getPriorityFee_def raceTimeout_def Let_def median_fee_Nil
      split: option.splits list.splits prod.splits if_splits)

end
