(* ===== verification/Relayer_Jitter.thy ===== *)
theory Relayer_Jitter
  imports Complex_Main "HOL-Library.Word"
begin

text \<open>
  relayer/src/jitter.ts: the random delay of a relayed transaction, over the real numbers instead of
  64-bit floats. The four random bytes are a 32-bit word.
\<close>

record JitterScheduler =
  baseDelayMs :: int
  maxDelayMs :: int
  meanDelayMs :: int

definition newJitterScheduler :: JitterScheduler where
  "newJitterScheduler = \<lparr>baseDelayMs = 200, maxDelayMs = 5000, meanDelayMs = 1000\<rparr>"

definition math_round :: "real \<Rightarrow> int" where
  "math_round x = \<lfloor>x + 1 / 2\<rfloor>"

definition nextDelay :: "32 word \<Rightarrow> JitterScheduler \<Rightarrow> int" where
  "nextDelay bytes j =
     (let u = real (unat bytes) / 4294967295;
          uClamped = max u (1 / 10 ^ 10);
          raw = - real_of_int (meanDelayMs j) * ln uClamped;
          clamped = min raw (real_of_int (maxDelayMs j - baseDelayMs j))
      in math_round (real_of_int (baseDelayMs j) + clamped))"

lemma math_round_int [simp]: "math_round (real_of_int n) = n"
  by (simp add: math_round_def)

lemma math_round_mono: "x \<le> y \<Longrightarrow> math_round x \<le> math_round y"
  unfolding math_round_def by (rule floor_mono) simp

lemma jitter_fraction:
  fixes bytes :: "32 word"
  shows "0 \<le> real (unat bytes) / 4294967295" "real (unat bytes) / 4294967295 \<le> 1"
proof -
  have "unat bytes < 2 ^ 32"
    using unsigned_less [of bytes] by simp
  then show "real (unat bytes) / 4294967295 \<le> 1"
    by (simp del: of_nat_unat)
qed (simp del: of_nat_unat)

lemma nextDelay_range:
  assumes "baseDelayMs j \<le> maxDelayMs j" "0 \<le> meanDelayMs j"
  shows "baseDelayMs j \<le> nextDelay bytes j" "nextDelay bytes j \<le> maxDelayMs j"
proof -
  let ?u = "max (real (unat bytes) / 4294967295) (1 / 10 ^ 10)"
  let ?raw = "- real_of_int (meanDelayMs j) * ln ?u"
  have delay: "nextDelay bytes j = math_round (real_of_int (baseDelayMs j)
      + min ?raw (real_of_int (maxDelayMs j - baseDelayMs j)))"
    by (simp only: nextDelay_def Let_def)
  have "0 < ?u" "?u \<le> 1"
    using jitter_fraction(2) [of bytes] by (simp_all add: less_max_iff_disj del: of_nat_unat)
  then have "ln ?u \<le> 0"
    by (subst ln_le_zero_iff)
  then have raw: "0 \<le> ?raw"
    using assms(2) by (intro mult_nonpos_nonpos) auto
  have "math_round (real_of_int (baseDelayMs j)) \<le> nextDelay bytes j"
    unfolding delay by (rule math_round_mono) (use raw assms(1) in auto)
  then show "baseDelayMs j \<le> nextDelay bytes j" by simp
  have "nextDelay bytes j \<le> math_round (real_of_int (maxDelayMs j))"
    unfolding delay by (rule math_round_mono) (simp add: min_le_iff_disj)
  then show "nextDelay bytes j \<le> maxDelayMs j" by simp
qed

text \<open>
  A delay is never below the base delay nor above the maximum delay, whatever bytes are drawn,
  for every scheduler whose bounds are in order, the default one included; a smaller draw never
  gives a shorter delay, and a draw of all ones gives exactly the base delay.
\<close>

theorem delay_within_bounds:
  assumes "baseDelayMs j \<le> maxDelayMs j" "0 \<le> meanDelayMs j"
  shows "baseDelayMs j \<le> nextDelay bytes j \<and> nextDelay bytes j \<le> maxDelayMs j
    \<and> (bytes \<le> bytes' \<longrightarrow> nextDelay bytes' j \<le> nextDelay bytes j)
    \<and> nextDelay (- 1) j = baseDelayMs j"
proof -
  define u where "u b = max (real (unat b) / 4294967295) (1 / 10 ^ 10)" for b :: "32 word"
  define raw where "raw b = - real_of_int (meanDelayMs j) * ln (u b)" for b :: "32 word"
  have u: "0 < u b" "u b \<le> 1" for b
    using jitter_fraction(2) [of b] by (auto simp: u_def)
  have delay: "nextDelay b j = math_round (real_of_int (baseDelayMs j)
      + min (raw b) (real_of_int (maxDelayMs j - baseDelayMs j)))" for b
    by (simp add: nextDelay_def Let_def raw_def u_def)
  have "ln (u b) \<le> 0" for b
    using u [of b] by simp
  then have raw: "0 \<le> raw b" for b
    using assms(2) by (simp add: raw_def mult_nonneg_nonpos)
  note range = nextDelay_range [OF assms, of bytes]
  moreover have "nextDelay bytes' j \<le> nextDelay bytes j" if "bytes \<le> bytes'"
  proof -
    have "u bytes \<le> u bytes'"
      unfolding u_def using that
      by (intro max.mono divide_right_mono) (simp_all add: word_le_nat_alt del: of_nat_unat)
    then have "ln (u bytes) \<le> ln (u bytes')"
      using u by simp
    then have "raw bytes' \<le> raw bytes"
      using assms(2) by (simp add: raw_def mult_left_mono)
    then show ?thesis
      unfolding delay by (intro math_round_mono) auto
  qed
  moreover have "nextDelay (- 1) j = baseDelayMs j"
  proof -
    have "raw (- 1) = 0"
      by (simp add: raw_def u_def unsigned_minus_1_eq_mask mask_eq_exp_minus_1)
    with assms(1) show ?thesis
      by (simp add: delay)
  qed
  ultimately show ?thesis by simp
qed

lemma delay_within_bounds_witness:
  "200 \<le> nextDelay 12345 newJitterScheduler \<and> nextDelay 12345 newJitterScheduler \<le> 5000"
  using delay_within_bounds [of newJitterScheduler 12345] by (simp add: newJitterScheduler_def)

end
