(* ===== verification/Relayer_Evm.thy ===== *)
theory Relayer_Evm
  imports Byte_Codec
begin

text \<open>
  relayer/src/evm-relayer.ts: the relay of signed EVM transactions, one by one. The provider is
  ethers.js; what it answers (a transaction response, a receipt, an error) is given to the steps. A
  status object is only reached through the map of statuses, so the map holds the records.
\<close>

section \<open>State\<close>

datatype evm_state = EvmQueued | EvmPending | EvmConfirmed | EvmFailed

record EvmRelayStatus =
  ev_id :: string
  ev_state :: evm_state
  txHash :: "string option"
  ev_error :: "string option"
  ev_enqueuedAt :: int
  ev_sentAt :: "int option"

record EvmRelayer =
  ev_rpcUrl :: string
  privateKey :: string
  ev_statuses :: "string \<rightharpoonup> EvmRelayStatus"

definition hex_text :: "string \<Rightarrow> bool" where
  "hex_text s = list_all is_hex_char s"

text \<open>The test \<open>^(0x)?[0-9a-fA-F]{64}$\<close>.\<close>

definition valid_private_key :: "string \<Rightarrow> bool" where
  "valid_private_key k =
     ((length k = 64 \<and> hex_text k) \<or>
      (length k = 66 \<and> starts_with ''0x'' k \<and> hex_text (drop 2 k)))"

definition newEvmRelayer :: "string \<Rightarrow> string \<Rightarrow> js_error + EvmRelayer" where
  "newEvmRelayer rpcUrl key =
     (if rpcUrl = [] \<or> \<not> starts_with ''http'' rpcUrl
      then Inl (Error (''EvmRelayer: invalid rpcUrl (must be http/https): '' @ rpcUrl))
      else if key = [] \<or> \<not> valid_private_key key
      then Inl (Error ''EvmRelayer: invalid private key (expected 64 hex chars)'')
      else Inr \<lparr>ev_rpcUrl = rpcUrl, privateKey = key, ev_statuses = Map.empty\<rparr>)"

definition evm_status :: "string \<Rightarrow> EvmRelayer \<Rightarrow> EvmRelayStatus option" where
  "evm_status i r = ev_statuses r i"

definition on_status :: "string \<Rightarrow> (EvmRelayStatus \<Rightarrow> EvmRelayStatus) \<Rightarrow> EvmRelayer \<Rightarrow> EvmRelayer" where
  "on_status i f r =
     (case ev_statuses r i of
        None \<Rightarrow> r
      | Some s \<Rightarrow> r\<lparr>ev_statuses := (ev_statuses r)(i \<mapsto> f s)\<rparr>)"

section \<open>Enqueue and broadcast\<close>

text \<open>\<open>enqueue\<close> returns the identifier and the delay of the timer it starts.\<close>

definition evm_enqueue :: "string \<Rightarrow> int \<Rightarrow> string \<Rightarrow> int \<Rightarrow> EvmRelayer \<Rightarrow> EvmRelayer \<times> string \<times> int" where
  "evm_enqueue uuid now signedTx delayMs r =
     (r\<lparr>ev_statuses := (ev_statuses r)(uuid \<mapsto>
          \<lparr>ev_id = uuid, ev_state = EvmQueued, txHash = None, ev_error = None, ev_enqueuedAt = now,
           ev_sentAt = None\<rparr>)\<rparr>,
      uuid, max 0 delayMs)"

text \<open>\<open>_broadcast\<close> in the pieces between its awaits; \<open>fail_broadcast\<close> is its catch block.\<close>

definition begin_broadcast :: "string \<Rightarrow> int \<Rightarrow> EvmRelayer \<Rightarrow> EvmRelayer" where
  "begin_broadcast i now = on_status i (\<lambda>s. s\<lparr>ev_state := EvmPending, ev_sentAt := Some now\<rparr>)"

definition got_response :: "string \<Rightarrow> string \<Rightarrow> EvmRelayer \<Rightarrow> EvmRelayer" where
  "got_response i hash = on_status i (\<lambda>s. s\<lparr>txHash := Some hash\<rparr>)"

definition got_receipt :: "string \<Rightarrow> int option \<Rightarrow> EvmRelayer \<Rightarrow> EvmRelayer" where
  "got_receipt i receipt =
     on_status i (\<lambda>s.
       if receipt = Some 1 then s\<lparr>ev_state := EvmConfirmed\<rparr>
       else s\<lparr>ev_state := EvmFailed, ev_error := Some ''Transaction reverted on-chain''\<rparr>)"

definition fail_broadcast :: "string \<Rightarrow> string \<Rightarrow> EvmRelayer \<Rightarrow> EvmRelayer" where
  "fail_broadcast i err = on_status i (\<lambda>s. s\<lparr>ev_state := EvmFailed, ev_error := Some err\<rparr>)"

section \<open>Fee estimate\<close>

record EvmFeeEstimate =
  gasPrice :: string
  gasPriceGwei :: string
  maxPriorityFeePerGas :: "string option"
  estimatedAt :: int

text \<open>\<open>formatGwei\<close> is \<open>ethers.formatUnits(_, "gwei")\<close>; a zero fee counts as absent, as in the code.\<close>

definition estimateFee :: "(int \<Rightarrow> string) \<Rightarrow> int option \<Rightarrow> int option \<Rightarrow> int \<Rightarrow> EvmFeeEstimate" where
  "estimateFee formatGwei gas tip now =
     \<lparr>gasPrice = (case gas of None \<Rightarrow> ''0'' | Some g \<Rightarrow> bigint_to_string 10 g),
      gasPriceGwei = (case gas of Some g \<Rightarrow> (if g \<noteq> 0 then formatGwei g else ''0'') | None \<Rightarrow> ''0''),
      maxPriorityFeePerGas =
        (case tip of Some t \<Rightarrow> (if t \<noteq> 0 then Some (bigint_to_string 10 t) else None) | None \<Rightarrow> None),
      estimatedAt = now\<rparr>"

section \<open>The relayer as a transition system\<close>

text \<open>Each request in flight is in one of these places; \<open>receipts\<close> records the receipts seen.\<close>

datatype evm_phase = Timer | Broadcasting | Waiting | Done

record EvmSystem =
  er :: EvmRelayer
  phases :: "string \<rightharpoonup> evm_phase"
  receipts :: "string \<rightharpoonup> int option"

inductive evm_step :: "EvmSystem \<Rightarrow> EvmSystem \<Rightarrow> bool" where
  enq: "uuid \<notin> dom (phases s) \<Longrightarrow>
     evm_step s (s\<lparr>er := fst (evm_enqueue uuid now tx delay (er s)), phases := (phases s)(uuid \<mapsto> Timer)\<rparr>)"
| fire: "phases s i = Some Timer \<Longrightarrow>
     evm_step s (s\<lparr>er := begin_broadcast i now (er s), phases := (phases s)(i \<mapsto> Broadcasting)\<rparr>)"
| response: "phases s i = Some Broadcasting \<Longrightarrow>
     evm_step s (s\<lparr>er := got_response i hash (er s), phases := (phases s)(i \<mapsto> Waiting)\<rparr>)"
| receipt: "phases s i = Some Waiting \<Longrightarrow>
     evm_step s (s\<lparr>er := got_receipt i rcpt (er s), phases := (phases s)(i \<mapsto> Done),
                   receipts := (receipts s)(i \<mapsto> rcpt)\<rparr>)"
| error: "phases s i = Some Broadcasting \<or> phases s i = Some Waiting \<Longrightarrow>
     evm_step s (s\<lparr>er := fail_broadcast i err (er s), phases := (phases s)(i \<mapsto> Done)\<rparr>)"

definition evm_init :: "EvmSystem \<Rightarrow> bool" where
  "evm_init s \<longleftrightarrow> (\<exists>rpcUrl key. newEvmRelayer rpcUrl key = Inr (er s))
     \<and> phases s = Map.empty \<and> receipts s = Map.empty"

definition evm_phase_ok :: "evm_phase \<Rightarrow> int option option \<Rightarrow> EvmRelayStatus \<Rightarrow> bool" where
  "evm_phase_ok p rcpt st =
     (case p of
        Timer \<Rightarrow> ev_state st = EvmQueued \<and> ev_sentAt st = None \<and> txHash st = None \<and> ev_error st = None
      | Broadcasting \<Rightarrow> ev_state st = EvmPending \<and> txHash st = None \<and> ev_error st = None
      | Waiting \<Rightarrow> ev_state st = EvmPending \<and> txHash st \<noteq> None \<and> ev_error st = None
      | Done \<Rightarrow>
          (ev_state st = EvmConfirmed \<and> txHash st \<noteq> None \<and> ev_error st = None \<and> rcpt = Some (Some 1)) \<or>
          (ev_state st = EvmFailed \<and> ev_error st \<noteq> None \<and> rcpt \<noteq> Some (Some 1)))"

definition evm_inv :: "EvmSystem \<Rightarrow> bool" where
  "evm_inv s \<longleftrightarrow>
     dom (phases s) = dom (ev_statuses (er s)) \<and>
     (\<forall>i p. phases s i = Some p \<longrightarrow>
        (\<exists>st. ev_statuses (er s) i = Some st \<and> ev_id st = i \<and> evm_phase_ok p (receipts s i) st)) \<and>
     (\<forall>i r. receipts s i = Some r \<longrightarrow> phases s i = Some Done)"

lemma on_status_Some:
  "ev_statuses r i = Some st \<Longrightarrow> on_status i f r = r\<lparr>ev_statuses := (ev_statuses r)(i \<mapsto> f st)\<rparr>"
  by (simp add: on_status_def)

lemma evm_inv_update:
  assumes inv: "evm_inv s" and p: "phases s i = Some p"
    and keep: "\<And>st. ev_id (f st) = ev_id st"
    and ok: "\<And>st. evm_phase_ok p (receipts s i) st \<Longrightarrow> evm_phase_ok p' rcpt (f st)"
    and rc: "rcpt = receipts s i \<or> p' = Done"
    and fin: "receipts s i = None \<or> p' = Done"
  shows "evm_inv (s\<lparr>er := on_status i f (er s), phases := (phases s)(i \<mapsto> p'),
                    receipts := (receipts s)(i := rcpt)\<rparr>)"
proof -
  obtain st where st: "ev_statuses (er s) i = Some st" "ev_id st = i" "evm_phase_ok p (receipts s i) st"
    using inv p unfolding evm_inv_def by blast
  note eq = on_status_Some [OF st(1)]
  have "evm_phase_ok p' rcpt (f st)"
    using st(3) by (rule ok)
  then show ?thesis
    using inv st keep rc fin unfolding evm_inv_def eq by auto
qed

lemma evm_inv_step:
  assumes "evm_step s s'" "evm_inv s"
  shows "evm_inv s'"
  using assms
proof (cases rule: evm_step.cases)
  case (enq uuid now tx delay)
  have "receipts s uuid = None"
    using assms(2) enq by (force simp: evm_inv_def)
  with enq assms(2) show ?thesis
    by (auto simp: evm_inv_def evm_enqueue_def evm_phase_ok_def)
next
  case (fire i now)
  then have "receipts s i = None"
    using assms(2) by (cases "receipts s i") (auto simp: evm_inv_def)
  then have "evm_inv (s\<lparr>er := begin_broadcast i now (er s), phases := (phases s)(i \<mapsto> Broadcasting),
      receipts := (receipts s)(i := receipts s i)\<rparr>)"
    unfolding begin_broadcast_def using fire assms(2)
    by (intro evm_inv_update) (auto simp: evm_phase_ok_def)
  with fire show ?thesis by simp
next
  case (response i hash)
  then have "receipts s i = None"
    using assms(2) by (cases "receipts s i") (auto simp: evm_inv_def)
  then have "evm_inv (s\<lparr>er := got_response i hash (er s), phases := (phases s)(i \<mapsto> Waiting),
      receipts := (receipts s)(i := receipts s i)\<rparr>)"
    unfolding got_response_def using response assms(2)
    by (intro evm_inv_update) (auto simp: evm_phase_ok_def)
  with response show ?thesis by simp
next
  case (receipt i rcpt)
  then show ?thesis
    unfolding receipt(1) got_receipt_def using assms(2)
    by (intro evm_inv_update) (auto simp: evm_phase_ok_def)
next
  case (error i err)
  then have none: "receipts s i = None"
    using assms(2) by (cases "receipts s i") (auto simp: evm_inv_def)
  obtain p where p: "phases s i = Some p" "p \<noteq> Done"
    using error by auto
  have "evm_inv (s\<lparr>er := fail_broadcast i err (er s), phases := (phases s)(i \<mapsto> Done),
      receipts := (receipts s)(i := receipts s i)\<rparr>)"
    unfolding fail_broadcast_def using p none assms(2)
    by (intro evm_inv_update) (auto simp: evm_phase_ok_def)
  with error show ?thesis by simp
qed

interpretation evm_relayer: invariant_system evm_init evm_step evm_inv
proof
  show "evm_inv s" if "evm_init s" for s
  proof -
    have "ev_statuses (er s) = Map.empty" "phases s = Map.empty" "receipts s = Map.empty"
      using that by (auto simp: evm_init_def newEvmRelayer_def split: if_splits dest!: sym [of _ "er s"])
    then show ?thesis
      by (simp add: evm_inv_def)
  qed
  show "evm_inv s'" if "evm_inv s" "evm_step s s'" for s s'
    using evm_inv_step that by blast
qed


definition sample_evm :: EvmSystem where
  "sample_evm = \<lparr>er = \<lparr>ev_rpcUrl = ''http://a'', privateKey = replicate 64 (CHR ''1''), ev_statuses = Map.empty\<rparr>,
     phases = Map.empty, receipts = Map.empty\<rparr>"

lemma sample_evm_reachable: "reachable evm_init evm_step sample_evm"
proof (rule reach_init)
  have "newEvmRelayer ''http://a'' (replicate 64 (CHR ''1'')) = Inr (er sample_evm)"
    by (simp add: newEvmRelayer_def sample_evm_def valid_private_key_def hex_text_def starts_with_def
        list_all_iff is_hex_char_def hex_val_def)
  then show "evm_init sample_evm"
    by (auto simp: evm_init_def sample_evm_def)
qed


end
