(* ===== verification/Relayer_Server.thy ===== *)
theory Relayer_Server
  imports Relayer_Batcher Relayer_Fees Relayer_Jitter Relayer_Evm
begin

text \<open>
  relayer/src/server.ts: the per-address rate limiter and the HTTP routes over the relay queue, the
  fee estimator, the jitter scheduler and the optional EVM relayer. Express decodes the request;
  clock, random draws and network answers are fields of the request's context.
\<close>

section \<open>Rate limiter\<close>

record window_entry =
  count :: int
  resetAt :: int

type_synonym request_counts = "string \<rightharpoonup> window_entry"

definition rateLimiter :: "int \<Rightarrow> int \<Rightarrow> string option \<Rightarrow> int \<Rightarrow> request_counts \<Rightarrow> request_counts \<times> bool" where
  "rateLimiter window limit req_ip now counts =
     (let ip = (case req_ip of None \<Rightarrow> ''unknown'' | Some ip \<Rightarrow> ip) in
      case counts ip of
        None \<Rightarrow> (counts(ip \<mapsto> \<lparr>count = 1, resetAt = now + window\<rparr>), True)
      | Some entry \<Rightarrow>
          if now \<ge> resetAt entry
          then (counts(ip \<mapsto> \<lparr>count = 1, resetAt = now + window\<rparr>), True)
          else if count entry \<ge> limit then (counts, False)
          else (counts(ip \<mapsto> entry\<lparr>count := count entry + 1\<rparr>), True))"

section \<open>Server state, requests and replies\<close>

record RelayServer =
  requestCounts :: request_counts
  relayQueue :: RelayQueue
  fees :: FeeEstimator
  jitter :: JitterScheduler
  evmRelayer :: "EvmRelayer option"

datatype body_value = Absent | NotString | Text string

datatype request =
    GetHealth
  | PostRelay body_value
  | GetRelay string
  | GetFee
  | PostRelayEvm body_value
  | GetRelayEvm string
  | GetFeeEvm

datatype reply =
    HealthReply nat
  | QueuedReply string
  | RelayStatusReply RelayStatus
  | EvmStatusReply EvmRelayStatus
  | FeeReply FeeEstimate
  | EvmFeeReply EvmFeeEstimate
  | ErrorReply string

record request_context =
  now :: int
  uuid :: string
  random_bytes :: "32 word"
  prioritization_fees :: "int list option \<times> int"
  gas_data :: "string + int option \<times> int option"
  format_gwei :: "int \<Rightarrow> string"

section \<open>Routes\<close>

definition postRelay :: "request_context \<Rightarrow> body_value \<Rightarrow> RelayServer \<Rightarrow> RelayServer \<times> int \<times> reply" where
  "postRelay c tx s =
     (case tx of
        Text t \<Rightarrow>
          (if t = [] \<or> length t > 4096 then (s, 400, ErrorReply ''Invalid or missing serializedTx'')
           else (case enqueue (uuid c) (now c) t (nextDelay (random_bytes c) (jitter s)) (relayQueue s) of
                   (q, i) \<Rightarrow> (s\<lparr>relayQueue := q\<rparr>, 200, QueuedReply i)))
      | _ \<Rightarrow> (s, 400, ErrorReply ''Invalid or missing serializedTx''))"

definition getRelay :: "string \<Rightarrow> RelayServer \<Rightarrow> RelayServer \<times> int \<times> reply" where
  "getRelay i s =
     (case lookup_status i (relayQueue s) of
        None \<Rightarrow> (s, 404, ErrorReply ''Not found'')
      | Some st \<Rightarrow> (s, 200, RelayStatusReply st))"

definition getFee :: "request_context \<Rightarrow> RelayServer \<Rightarrow> RelayServer \<times> int \<times> reply" where
  "getFee c s =
     (case estimate (prioritization_fees c) (now c) (fees s) of
        (fe, e) \<Rightarrow> (s\<lparr>fees := fe\<rparr>, 200, FeeReply e))"

text \<open>The test \<open>^0x[0-9a-fA-F]+$\<close>.\<close>

definition signed_tx_text :: "string \<Rightarrow> bool" where
  "signed_tx_text t = (starts_with ''0x'' t \<and> length t > 2 \<and> hex_text (drop 2 t))"

definition postRelayEvm :: "request_context \<Rightarrow> body_value \<Rightarrow> RelayServer \<Rightarrow> RelayServer \<times> int \<times> reply" where
  "postRelayEvm c tx s =
     (case evmRelayer s of
        None \<Rightarrow> (s, 503, ErrorReply
          ''EVM relay not configured (set ETH_RPC_URL and ETH_RELAYER_PRIVATE_KEY)'')
      | Some r \<Rightarrow>
          (case tx of
             Text t \<Rightarrow>
               (if t = [] \<or> \<not> signed_tx_text t \<or> length t > 8192
                then (s, 400, ErrorReply ''Invalid or missing signedTx (must be 0x-prefixed hex)'')
                else (case evm_enqueue (uuid c) (now c) t (nextDelay (random_bytes c) (jitter s)) r of
                        (r', i, _) \<Rightarrow> (s\<lparr>evmRelayer := Some r'\<rparr>, 200, QueuedReply i)))
           | _ \<Rightarrow> (s, 400, ErrorReply ''Invalid or missing signedTx (must be 0x-prefixed hex)'')))"

definition getRelayEvm :: "string \<Rightarrow> RelayServer \<Rightarrow> RelayServer \<times> int \<times> reply" where
  "getRelayEvm i s =
     (case evmRelayer s of
        None \<Rightarrow> (s, 503, ErrorReply ''EVM relay not configured'')
      | Some r \<Rightarrow>
          (case evm_status i r of
             None \<Rightarrow> (s, 404, ErrorReply ''Not found'')
           | Some st \<Rightarrow> (s, 200, EvmStatusReply st)))"

definition getFeeEvm :: "request_context \<Rightarrow> RelayServer \<Rightarrow> RelayServer \<times> int \<times> reply" where
  "getFeeEvm c s =
     (case evmRelayer s of
        None \<Rightarrow> (s, 503, ErrorReply ''EVM relay not configured'')
      | Some r \<Rightarrow>
          (case gas_data c of
             Inl message \<Rightarrow> (s, 500, ErrorReply message)
           | Inr (gas, tip) \<Rightarrow> (s, 200, EvmFeeReply (estimateFee (format_gwei c) gas tip (now c)))))"

fun route :: "request_context \<Rightarrow> request \<Rightarrow> RelayServer \<Rightarrow> RelayServer \<times> int \<times> reply" where
  "route c GetHealth s = (s, 200, HealthReply (depth (relayQueue s)))"
| "route c (PostRelay tx) s = postRelay c tx s"
| "route c (GetRelay i) s = getRelay i s"
| "route c GetFee s = getFee c s"
| "route c (PostRelayEvm tx) s = postRelayEvm c tx s"
| "route c (GetRelayEvm i) s = getRelayEvm i s"
| "route c GetFeeEvm s = getFeeEvm c s"

definition serve :: "int \<Rightarrow> int \<Rightarrow> request_context \<Rightarrow> string option \<Rightarrow> request \<Rightarrow> RelayServer \<Rightarrow>
    RelayServer \<times> int \<times> reply" where
  "serve window limit c ip req s =
     (case rateLimiter window limit ip (now c) (requestCounts s) of
        (counts, True) \<Rightarrow> route c req (s\<lparr>requestCounts := counts\<rparr>)
      | (counts, False) \<Rightarrow> (s\<lparr>requestCounts := counts\<rparr>, 429, ErrorReply ''Rate limit exceeded''))"

section \<open>Runs of the limiter\<close>

text \<open>One address sending requests at the given times: which are admitted.\<close>

fun admissions :: "int \<Rightarrow> int \<Rightarrow> string \<Rightarrow> int list \<Rightarrow> request_counts \<Rightarrow> bool list" where
  "admissions window limit ip [] counts = []"
| "admissions window limit ip (t # ts) counts =
     (case rateLimiter window limit (Some ip) t counts of
        (counts', ok) \<Rightarrow> ok # admissions window limit ip ts counts')"

definition admitted :: "bool list \<Rightarrow> int" where
  "admitted oks = int (length (filter (\<lambda>b. b) oks))"

lemma rateLimiter_other:
  "ip \<noteq> ip' \<Longrightarrow> fst (rateLimiter window limit (Some ip) t counts) ip' = counts ip'"
  by (auto simp: rateLimiter_def Let_def split: option.split)

lemma rateLimiter_open:
  "counts ip = Some e \<Longrightarrow> t < resetAt e \<Longrightarrow>
     rateLimiter window limit (Some ip) t counts =
       (if limit \<le> count e then (counts, False)
        else (counts(ip \<mapsto> e\<lparr>count := count e + 1\<rparr>), True))"
  by (simp add: rateLimiter_def)

definition window_over :: "request_counts \<Rightarrow> string \<Rightarrow> int \<Rightarrow> bool" where
  "window_over counts ip t \<longleftrightarrow> (case counts ip of None \<Rightarrow> True | Some e \<Rightarrow> resetAt e \<le> t)"

lemma rateLimiter_fresh:
  "window_over counts ip t \<Longrightarrow> rateLimiter window limit (Some ip) t counts =
     (counts(ip \<mapsto> \<lparr>count = 1, resetAt = t + window\<rparr>), True)"
  by (auto simp: rateLimiter_def window_over_def split: option.splits)

lemma admissions_open:
  assumes "counts ip = Some e" "\<forall>t \<in> set ts. t < resetAt e"
  shows "admissions window limit ip ts counts =
    replicate (min (length ts) (nat (limit - count e))) True
      @ replicate (length ts - nat (limit - count e)) False"
  using assms
proof (induction ts arbitrary: counts e)
  case (Cons t ts)
  show ?case
  proof (cases "limit \<le> count e")
    case True
    with Cons.IH [of counts e] Cons.prems show ?thesis
      by (simp add: rateLimiter_open)
  next
    case False
    let ?e = "e\<lparr>count := count e + 1\<rparr>"
    have "nat (limit - count e) = Suc (nat (limit - count ?e))"
      using False by simp
    moreover have "admissions window limit ip ts (counts(ip \<mapsto> ?e)) =
        replicate (min (length ts) (nat (limit - count ?e))) True
          @ replicate (length ts - nat (limit - count ?e)) False"
      by (rule Cons.IH) (use Cons.prems in auto)
    moreover have "rateLimiter window limit (Some ip) t counts = (counts(ip \<mapsto> ?e), True)"
      using rateLimiter_open [of counts ip e t window limit] Cons.prems False by simp
    ultimately show ?thesis
      by (simp only: admissions.simps prod.case length_Cons min_Suc_Suc replicate_Suc append_Cons
          diff_Suc_Suc)
  qed
qed simp

lemma admissions_open_all:
  assumes "counts ip = Some e" "\<forall>t \<in> set ts. t < resetAt e" "int (length ts) \<le> limit - count e"
  shows "admissions window limit ip ts counts = replicate (length ts) True"
proof -
  have "admissions window limit ip ts counts =
      replicate (min (length ts) (nat (limit - count e))) True
        @ replicate (length ts - nat (limit - count e)) False"
    by (rule admissions_open) (use assms in auto)
  moreover have "length ts \<le> nat (limit - count e)"
    using assms(3) by simp
  ultimately show ?thesis by (simp add: min_def)
qed

fun counts_after :: "int \<Rightarrow> int \<Rightarrow> string \<Rightarrow> int list \<Rightarrow> request_counts \<Rightarrow> request_counts" where
  "counts_after window limit ip [] counts = counts"
| "counts_after window limit ip (t # ts) counts =
     counts_after window limit ip ts (fst (rateLimiter window limit (Some ip) t counts))"

lemma admissions_append:
  "admissions window limit ip (ts @ us) counts =
     admissions window limit ip ts counts @ admissions window limit ip us (counts_after window limit ip ts counts)"
  by (induction ts arbitrary: counts) (auto split: prod.splits)

lemma counts_after_open:
  "counts ip = Some e \<Longrightarrow> \<forall>t \<in> set ts. t < resetAt e \<Longrightarrow>
     \<exists>e'. counts_after window limit ip ts counts ip = Some e' \<and> resetAt e' = resetAt e"
proof (induction ts arbitrary: counts e)
  case (Cons t ts)
  show ?case
  proof (cases "limit \<le> count e")
    case True
    with Cons show ?thesis by (simp add: rateLimiter_open)
  next
    case False
    let ?e = "e\<lparr>count := count e + 1\<rparr>"
    have "\<exists>e'. counts_after window limit ip ts (counts(ip \<mapsto> ?e)) ip = Some e' \<and> resetAt e' = resetAt ?e"
      by (rule Cons.IH) (use Cons.prems in auto)
    moreover have "rateLimiter window limit (Some ip) t counts = (counts(ip \<mapsto> ?e), True)"
      using rateLimiter_open [of counts ip e t window limit] Cons.prems False by simp
    ultimately show ?thesis by simp
  qed
qed simp



text \<open>
  The window does not slide: for every limit and every window of at least one millisecond, a
  run of \<open>2 * limit\<close> requests exists of which all are admitted although the last \<open>2 * limit - 1\<close>
  fall within one millisecond.
\<close>

theorem window_does_not_slide:
  assumes "1 \<le> limit" "1 \<le> window"
  shows "admissions window (int limit) ip
      (t # replicate (limit - 1) (t + window - 1) @ replicate limit (t + window)) Map.empty
    = replicate (2 * limit) True"
proof -
  let ?L = "int limit" and ?e = "\<lparr>count = 1, resetAt = t + window\<rparr>"
  let ?first = "replicate (limit - 1) (t + window - 1)"
  let ?c1 = "Map.empty(ip \<mapsto> ?e)"
  have first: "admissions window ?L ip ?first ?c1 = replicate (limit - 1) True"
    using admissions_open_all [of ?c1 ip ?e ?first ?L window] assms by simp
  obtain e' where e': "counts_after window ?L ip ?first ?c1 ip = Some e'" "resetAt e' = t + window"
    using counts_after_open [of ?c1 ip ?e ?first window ?L] by auto
  let ?c2 = "counts_after window ?L ip ?first ?c1"
  have over: "window_over ?c2 ip (t + window)"
    using e' by (simp add: window_over_def)
  have rep: "replicate limit (t + window) = (t + window) # replicate (limit - 1) (t + window)"
    using assms(1) by (cases limit) auto
  let ?e2 = "\<lparr>count = 1, resetAt = t + window + window\<rparr>"
  have "admissions window ?L ip (replicate (limit - 1) (t + window)) (?c2(ip \<mapsto> ?e2))
      = replicate (limit - 1) True"
    using admissions_open_all [of "?c2(ip \<mapsto> ?e2)" ip ?e2 "replicate (limit - 1) (t + window)" ?L window] assms
    by simp
  then have second: "admissions window ?L ip (replicate limit (t + window)) ?c2
      = True # replicate (limit - 1) True"
    unfolding rep by (simp only: admissions.simps rateLimiter_fresh [OF over] prod.case)
  have "admissions window ?L ip (t # ?first @ replicate limit (t + window)) Map.empty
      = True # replicate (limit - 1) True @ True # replicate (limit - 1) True"
    using rateLimiter_fresh [of Map.empty ip t window ?L]
    by (simp only: admissions.simps admissions_append first second prod.case simp_thms
        window_over_def option.case)
  also have "\<dots> = replicate (Suc (limit - 1) + Suc (limit - 1)) True"
    by (simp add: replicate_app_Cons_same replicate_add)
  also have "Suc (limit - 1) + Suc (limit - 1) = 2 * limit"
    using assms(1) by simp
  finally show ?thesis .
qed

lemma window_does_not_slide_witness:
  "admissions 60000 3 ''a'' [0, 59999, 59999, 60000, 60000, 60000] Map.empty = replicate 6 True"
  using window_does_not_slide [of 3 60000 "''a''" 0]
  by (simp add: numeral_eq_Suc del: admissions.simps)

section \<open>What a request does\<close>

text \<open>
  A relay request that is answered with an identifier has queued exactly its transaction, last
  in the queue and due after a delay within the jitter bounds, and asking for that identifier
  returns its queued status; a request that is refused, by the limiter or as malformed, leaves the
  queue, the fee cache and the EVM relay as they were.
\<close>

theorem relay_request_effect:
  assumes "serve window limit c ip (PostRelay body) s = (s', code, rep)"
    and "baseDelayMs (jitter s) \<le> maxDelayMs (jitter s)" "0 \<le> meanDelayMs (jitter s)"
  shows "(code = 200 \<longrightarrow> (\<exists>tx e. body = Text tx \<and> tx \<noteq> [] \<and> length tx \<le> 4096
      \<and> rep = QueuedReply (uuid c)
      \<and> queue (relayQueue s') = queue (relayQueue s) @ [e]
      \<and> e_id e = uuid c \<and> serializedTx e = tx
      \<and> baseDelayMs (jitter s) \<le> delayMs e \<and> delayMs e \<le> maxDelayMs (jitter s)
      \<and> (\<exists>st. route c (GetRelay (uuid c)) s' = (s', 200, RelayStatusReply st)
            \<and> r_id st = uuid c \<and> r_state st = Queued)))
    \<and> (code \<noteq> 200 \<longrightarrow> s' = s\<lparr>requestCounts := requestCounts s'\<rparr> \<and> (\<exists>msg. rep = ErrorReply msg))"
proof -
  obtain counts ok where rl: "rateLimiter window limit ip (now c) (requestCounts s) = (counts, ok)"
    by fastforce
  let ?s = "s\<lparr>requestCounts := counts\<rparr>"
  consider (accept) tx where "ok" "body = Text tx" "tx \<noteq> []" "length tx \<le> 4096"
    | (reject) "s' = ?s" "code \<noteq> 200" "\<exists>msg. rep = ErrorReply msg"
    using assms(1) rl
    by (cases body) (auto simp: serve_def postRelay_def split: if_splits bool.splits)
  then show ?thesis
  proof cases
    case accept
    let ?d = "nextDelay (random_bytes c) (jitter s)"
    have d: "baseDelayMs (jitter s) \<le> ?d" "?d \<le> maxDelayMs (jitter s)"
      using nextDelay_range [OF assms(2,3)] by auto
    have "s' = ?s\<lparr>relayQueue := fst (enqueue (uuid c) (now c) tx ?d (relayQueue s))\<rparr>"
      "code = 200" "rep = QueuedReply (uuid c)"
      using assms(1) rl accept by (auto simp: serve_def postRelay_def enqueue_def Let_def)
    then show ?thesis
      using accept d
      by (auto simp: enqueue_def Let_def getRelay_def lookup_status_def)
  next
    case reject
    then show ?thesis by simp
  qed
qed

definition sample_server :: RelayServer where
  "sample_server = \<lparr>requestCounts = Map.empty, relayQueue = newRelayQueue 5000 4 3,
     fees = newFeeEstimator 50000, jitter = newJitterScheduler, evmRelayer = None\<rparr>"

definition sample_context :: request_context where
  "sample_context = \<lparr>now = 10, uuid = ''u'', random_bytes = 5, prioritization_fees = (None, 0),
     gas_data = Inl ''none'', format_gwei = bigint_to_string 10\<rparr>"

lemma relay_request_effect_witness:
  "\<exists>s' e. serve 60000 60 sample_context None (PostRelay (Text ''dHg='')) sample_server
       = (s', 200, QueuedReply ''u'')
     \<and> queue (relayQueue s') = [e] \<and> 200 \<le> delayMs e \<and> delayMs e \<le> 5000"
proof -
  obtain s' where run: "serve 60000 60 sample_context None (PostRelay (Text ''dHg='')) sample_server
      = (s', 200, QueuedReply ''u'')"
    by (simp add: serve_def rateLimiter_def sample_server_def sample_context_def postRelay_def
        enqueue_def Let_def)
  have "queue (relayQueue sample_server) = []"
    by (simp add: sample_server_def newRelayQueue_def)
  with relay_request_effect [OF run] run show ?thesis
    by (auto simp: sample_server_def newJitterScheduler_def)
qed

end
