(* ===== verification/Indexer_Store.thy ===== *)
theory Indexer_Store
  imports Byte_Codec
begin

text \<open>
  indexer/src/store.ts: the note table. A table is the list of its rows in the order of their ids;
  \<open>ORDER BY leaf_index\<close> is a stable sort, ties staying in row order as the index of the table gives
  them. \<open>note_index\<close> is the interface the other parts of the indexer use.
\<close>

section \<open>Rows and tables\<close>

record IndexedNote =
  in_commitment :: string
  in_leafIndex :: int
  in_encryptedNote :: string
  txSignature :: string
  slot :: int
  blockTime :: int

record NoteStore =
  rows :: "IndexedNote list"
  metadata :: "string \<rightharpoonup> string"

definition newNoteStore :: NoteStore where
  "newNoteStore = \<lparr>rows = [], metadata = Map.empty\<rparr>"

text \<open>\<open>INSERT OR IGNORE\<close> under the unique commitment column.\<close>

definition insert_row :: "IndexedNote \<Rightarrow> IndexedNote list \<Rightarrow> IndexedNote list" where
  "insert_row n rs = (if in_commitment n \<in> in_commitment ` set rs then rs else rs @ [n])"

definition insertNote :: "IndexedNote \<Rightarrow> NoteStore \<Rightarrow> NoteStore" where
  "insertNote n s = s\<lparr>rows := insert_row n (rows s)\<rparr>"

text \<open>The transaction of \<open>insertNotesAtomic\<close> either runs to its end or leaves the store unchanged.\<close>

definition insertNotesAtomic :: "bool \<Rightarrow> IndexedNote list \<Rightarrow> string \<Rightarrow> NoteStore \<Rightarrow> NoteStore" where
  "insertNotesAtomic committed ns sig s =
     (if committed
      then s\<lparr>rows := fold insert_row ns (rows s), metadata := (metadata s)(''last_signature'' \<mapsto> sig)\<rparr>
      else s)"

definition by_leaf :: "IndexedNote list \<Rightarrow> IndexedNote list" where
  "by_leaf rs = sort_key in_leafIndex rs"

definition getNotesByRange :: "int \<Rightarrow> int \<Rightarrow> NoteStore \<Rightarrow> IndexedNote list" where
  "getNotesByRange fromLeaf toLeaf s =
     by_leaf (filter (\<lambda>n. fromLeaf \<le> in_leafIndex n \<and> in_leafIndex n \<le> toLeaf) (rows s))"

text \<open>A negative \<open>LIMIT\<close> means no limit.\<close>

definition sql_limit :: "int \<Rightarrow> 'a list \<Rightarrow> 'a list" where
  "sql_limit limit xs = (if limit < 0 then xs else take (nat limit) xs)"

definition getNotesAfter :: "int \<Rightarrow> int \<Rightarrow> NoteStore \<Rightarrow> IndexedNote list" where
  "getNotesAfter fromLeaf limit s =
     sql_limit limit (by_leaf (filter (\<lambda>n. fromLeaf \<le> in_leafIndex n) (rows s)))"

definition getNoteByCommitment :: "string \<Rightarrow> NoteStore \<Rightarrow> IndexedNote option" where
  "getNoteByCommitment c s = find (\<lambda>n. in_commitment n = c) (rows s)"

definition count_notes :: "NoteStore \<Rightarrow> nat" where
  "count_notes s = length (rows s)"

definition maxLeafIndex :: "NoteStore \<Rightarrow> int" where
  "maxLeafIndex s = (if rows s = [] then -1 else Max (set (map in_leafIndex (rows s))))"

definition getLastSignature :: "NoteStore \<Rightarrow> string option" where
  "getLastSignature s = metadata s ''last_signature''"

definition setLastSignature :: "string \<Rightarrow> NoteStore \<Rightarrow> NoteStore" where
  "setLastSignature sig s = s\<lparr>metadata := (metadata s)(''last_signature'' \<mapsto> sig)\<rparr>"

text \<open>\<open>None\<close> inside stands for NaN.\<close>

definition getLastEvmBlock :: "NoteStore \<Rightarrow> int option option" where
  "getLastEvmBlock s = map_option (parse_int 10) (metadata s ''last_evm_block'')"

definition setLastEvmBlock :: "int \<Rightarrow> NoteStore \<Rightarrow> NoteStore" where
  "setLastEvmBlock b s = s\<lparr>metadata := (metadata s)(''last_evm_block'' \<mapsto> bigint_to_string 10 b)\<rparr>"

section \<open>Well-formed tables\<close>

definition rows_ok :: "IndexedNote list \<Rightarrow> bool" where
  "rows_ok rs \<longleftrightarrow> distinct (map in_commitment rs)"

definition store_ok :: "NoteStore \<Rightarrow> bool" where
  "store_ok s \<longleftrightarrow> rows_ok (rows s)"

lemma rows_ok_Nil [simp]: "rows_ok []"
  by (simp add: rows_ok_def)

lemma insert_row_ok [store_simps]: "rows_ok rs \<Longrightarrow> rows_ok (insert_row n rs)"
  by (simp add: rows_ok_def insert_row_def)

lemma fold_insert_row_ok [store_simps]: "rows_ok rs \<Longrightarrow> rows_ok (fold insert_row ns rs)"
  by (induction ns arbitrary: rs) (simp_all add: store_simps)

lemma set_insert_row [store_simps]:
  "set (insert_row n rs) = (if in_commitment n \<in> in_commitment ` set rs then set rs else insert n (set rs))"
  by (simp add: insert_row_def)

lemma rows_ok_unique:
  "rows_ok rs \<Longrightarrow> m \<in> set rs \<Longrightarrow> n \<in> set rs \<Longrightarrow> in_commitment m = in_commitment n \<Longrightarrow> m = n"
  by (auto simp: rows_ok_def distinct_map dest: inj_onD)

lemma find_commitment:
  "rows_ok rs \<Longrightarrow> find (\<lambda>n. in_commitment n = c) rs = Some n \<longleftrightarrow> n \<in> set rs \<and> in_commitment n = c"
proof
  assume ok: "rows_ok rs" and "n \<in> set rs \<and> in_commitment n = c"
  then have n: "n \<in> set rs" "in_commitment n = c" by auto
  then obtain m where m: "find (\<lambda>n. in_commitment n = c) rs = Some m"
    by (cases "find (\<lambda>n. in_commitment n = c) rs") (auto simp: find_None_iff)
  then have "m \<in> set rs" "in_commitment m = c"
    by (auto simp: find_Some_iff)
  with rows_ok_unique [OF ok] n m show "find (\<lambda>n. in_commitment n = c) rs = Some n"
    by metis
qed (auto simp: find_Some_iff)

lemma find_commitment_None: "find (\<lambda>n. in_commitment n = c) rs = None \<longleftrightarrow> c \<notin> in_commitment ` set rs"
  by (auto simp: find_None_iff)

lemma set_by_leaf [simp]: "set (by_leaf rs) = set rs"
  by (simp add: by_leaf_def)

lemma sorted_by_leaf [simp]: "sorted (map in_leafIndex (by_leaf rs))"
  by (simp add: by_leaf_def)

lemma distinct_by_leaf [simp]: "rows_ok rs \<Longrightarrow> distinct (by_leaf (filter P rs))"
  by (simp add: by_leaf_def rows_ok_def distinct_map)

section \<open>The note index as an interface\<close>

text \<open>
  What the scanners, the replicas and the HTTP server rely on: a commitment keeps the first note
  inserted under it, and a range query lists exactly the stored notes of the range, in leaf order.
\<close>

locale note_index =
  fixes put :: "IndexedNote \<Rightarrow> 's \<Rightarrow> 's"
    and get :: "string \<Rightarrow> 's \<Rightarrow> IndexedNote option"
    and range :: "int \<Rightarrow> int \<Rightarrow> 's \<Rightarrow> IndexedNote list"
    and ok :: "'s \<Rightarrow> bool"
  assumes put_ok: "ok s \<Longrightarrow> ok (put n s)"
    and get_put: "ok s \<Longrightarrow> get c (put n s) =
      (if c = in_commitment n \<and> get c s = None then Some n else get c s)"
    and set_range: "ok s \<Longrightarrow> set (range a b s) =
      {n. get (in_commitment n) s = Some n \<and> a \<le> in_leafIndex n \<and> in_leafIndex n \<le> b}"
    and sorted_range: "ok s \<Longrightarrow> sorted (map in_leafIndex (range a b s))"
    and distinct_range: "ok s \<Longrightarrow> distinct (range a b s)"
begin

lemma puts_ok: "ok s \<Longrightarrow> ok (fold put ns s)"
  by (induction ns arbitrary: s) (simp_all add: put_ok)

lemma get_persists: "ok s \<Longrightarrow> get c s = Some n \<Longrightarrow> get c (fold put ns s) = Some n"
  by (induction ns arbitrary: s) (simp_all add: put_ok get_put)

lemma get_puts: "ok s \<Longrightarrow> get c s = None \<Longrightarrow> get c (fold put ns s) = find (\<lambda>n. in_commitment n = c) ns"
proof (induction ns arbitrary: s)
  case (Cons n ns)
  show ?case
  proof (cases "in_commitment n = c")
    case True
    then have "get c (put n s) = Some n"
      using Cons.prems by (simp add: get_put)
    with Cons.prems True show ?thesis
      by (simp add: get_persists put_ok)
  next
    case False
    then have "get c (put n s) = None"
      using Cons.prems by (simp add: get_put)
    with Cons False show ?thesis by (simp add: put_ok)
  qed
qed simp

text \<open>Inserting notes that are already stored changes no answer, so a batch can be replayed.\<close>

lemma replay:
  assumes "ok s" "\<forall>n \<in> set ns. get (in_commitment n) s \<noteq> None"
  shows "get c (fold put ns s) = get c s"
  using assms
proof (induction ns arbitrary: s)
  case (Cons n ns)
  have same: "get c' (put n s) = get c' s" for c'
    using Cons.prems by (auto simp: get_put)
  then show ?case
    using Cons by (simp add: put_ok)
qed simp

lemma range_persists:
  "ok s \<Longrightarrow> set (range a b s) \<subseteq> set (range a b (fold put ns s))"
  by (auto simp: set_range puts_ok get_persists)

text \<open>Two indexes with the same answers list the same notes.\<close>

lemma range_length:
  assumes "ok s" "ok t" "\<And>c. get c s = get c t"
  shows "length (range a b s) = length (range a b t)"
proof -
  have "set (range a b s) = set (range a b t)"
    using assms by (simp add: set_range)
  then show ?thesis
    using assms(1,2) by (metis distinct_card distinct_range)
qed

end

lemma getNoteByCommitment_iff [store_simps]:
  "store_ok s \<Longrightarrow> getNoteByCommitment c s = Some n \<longleftrightarrow> n \<in> set (rows s) \<and> in_commitment n = c"
  by (simp add: getNoteByCommitment_def store_ok_def find_commitment)

lemma getNoteByCommitment_insert:
  assumes "store_ok s"
  shows "getNoteByCommitment c (insertNote n s) =
    (if c = in_commitment n \<and> getNoteByCommitment c s = None then Some n else getNoteByCommitment c s)"
  using find_commitment_None [of c "rows s"]
  by (auto simp: getNoteByCommitment_def insertNote_def insert_row_def find_app split: option.split)

interpretation table: note_index insertNote getNoteByCommitment getNotesByRange store_ok
proof
  fix s :: NoteStore and n c a b
  assume ok: "store_ok s"
  show "store_ok (insertNote n s)"
    using ok by (simp add: store_ok_def insertNote_def store_simps)
  show "getNoteByCommitment c (insertNote n s) =
      (if c = in_commitment n \<and> getNoteByCommitment c s = None then Some n else getNoteByCommitment c s)"
    using ok by (rule getNoteByCommitment_insert)
  show "set (getNotesByRange a b s) =
      {n. getNoteByCommitment (in_commitment n) s = Some n \<and> a \<le> in_leafIndex n \<and> in_leafIndex n \<le> b}"
    using ok by (auto simp: getNotesByRange_def store_simps)
  show "sorted (map in_leafIndex (getNotesByRange a b s))"
    by (simp add: getNotesByRange_def)
  show "distinct (getNotesByRange a b s)"
    using ok by (simp add: getNotesByRange_def store_ok_def)
qed


section \<open>Properties of the table\<close>

lemma insertNotesAtomic_rows:
  "rows (insertNotesAtomic True ns sig s) = rows (fold insertNote ns s)"
proof -
  have "rows (fold insertNote ns s) = fold insert_row ns (rows s)"
    by (induction ns arbitrary: s) (simp_all add: insertNote_def)
  then show ?thesis
    by (simp add: insertNotesAtomic_def)
qed

lemma get_same_rows: "rows s = rows t \<Longrightarrow> getNoteByCommitment c s = getNoteByCommitment c t"
  by (simp add: getNoteByCommitment_def)

text \<open>
  C32. A batch is stored whole with its checkpoint or not at all, and a replay is harmless: after a
  committed batch every commitment that was stored keeps its note, every new one has the first note
  of the batch under it, the checkpoint is the batch's signature; committing the batch again
  changes no lookup, and an aborted batch changes nothing.
\<close>

theorem batch_is_atomic_and_replayable:
  assumes "store_ok s"
  shows "getNoteByCommitment c (insertNotesAtomic True ns sig s) =
      (case getNoteByCommitment c s of
         Some n \<Rightarrow> Some n
       | None \<Rightarrow> find (\<lambda>n. in_commitment n = c) ns)
    \<and> getLastSignature (insertNotesAtomic True ns sig s) = Some sig
    \<and> store_ok (insertNotesAtomic True ns sig s)
    \<and> getNoteByCommitment c (insertNotesAtomic True ns sig (insertNotesAtomic True ns sig s))
        = getNoteByCommitment c (insertNotesAtomic True ns sig s)
    \<and> insertNotesAtomic False ns sig s = s"
proof -
  let ?t = "insertNotesAtomic True ns sig s"
  have first: "getNoteByCommitment c ?t = (case getNoteByCommitment c s of
         Some n \<Rightarrow> Some n | None \<Rightarrow> find (\<lambda>n. in_commitment n = c) ns)" for c
    using table.get_persists [OF assms] table.get_puts [OF assms]
    by (subst get_same_rows [OF insertNotesAtomic_rows]) (auto split: option.split)
  have ok: "store_ok ?t"
    using table.puts_ok [OF assms, of ns] by (simp add: store_ok_def insertNotesAtomic_rows)
  have stored: "\<forall>n \<in> set ns. getNoteByCommitment (in_commitment n) ?t \<noteq> None"
    by (auto simp: first find_commitment_None split: option.split simp del: not_None_eq)
  have "getNoteByCommitment c (insertNotesAtomic True ns sig ?t) = getNoteByCommitment c ?t"
    using table.replay [OF ok stored] by (subst get_same_rows [OF insertNotesAtomic_rows])
  then show ?thesis
    using first ok by (simp add: insertNotesAtomic_def getLastSignature_def)
qed

definition sample_row :: "string \<Rightarrow> int \<Rightarrow> IndexedNote" where
  "sample_row c leaf = \<lparr>in_commitment = c, in_leafIndex = leaf, in_encryptedNote = ''ab'',
     txSignature = ''s'', slot = 1, blockTime = 2\<rparr>"

definition sample_store :: NoteStore where
  "sample_store = \<lparr>rows = [sample_row ''c3'' 3, sample_row ''c1'' 1, sample_row ''c2'' 2],
     metadata = Map.empty\<rparr>"

lemma sample_store_ok: "store_ok sample_store"
  by (simp add: store_ok_def rows_ok_def sample_store_def sample_row_def)

lemma batch_is_atomic_and_replayable_witness:
  "getNoteByCommitment ''c3'' (insertNotesAtomic True [sample_row ''c3'' 9] ''sig'' sample_store)
     = Some (sample_row ''c3'' 3)"
  using batch_is_atomic_and_replayable [OF sample_store_ok, of "''c3''" "[sample_row ''c3'' 9]" "''sig''"]
  by (simp add: getNoteByCommitment_def sample_store_def sample_row_def)

text \<open>
  A page of \<open>getNotesAfter\<close> misses nothing before its end: it is sorted by leaf without
  repetition, holds only stored notes from the given leaf on (that leaf included), is never longer
  than the limit, holds every such note below its last leaf, and when it is shorter than the limit
  it holds all of them.
\<close>

theorem page_misses_nothing:
  assumes "store_ok s" "0 < limit"
  shows "let page = getNotesAfter a limit s;
             wanted = {n \<in> set (rows s). a \<le> in_leafIndex n} in
    sorted (map in_leafIndex page) \<and> distinct page \<and> set page \<subseteq> wanted \<and> length page \<le> nat limit
    \<and> {n \<in> wanted. page \<noteq> [] \<and> in_leafIndex n < in_leafIndex (last page)} \<subseteq> set page
    \<and> (length page < nat limit \<longrightarrow> set page = wanted)"
proof -
  let ?all = "by_leaf (filter (\<lambda>n. a \<le> in_leafIndex n) (rows s))" and ?k = "nat limit"
  let ?page = "getNotesAfter a limit s"
  have page: "?page = take ?k ?all"
    using assms(2) by (simp add: getNotesAfter_def sql_limit_def)
  have all: "set ?all = {n \<in> set (rows s). a \<le> in_leafIndex n}"
    by auto
  have sorted: "sorted (map in_leafIndex ?all)" "distinct ?all"
    using assms(1) by (simp_all add: store_ok_def)
  have below: "n \<in> set ?page"
    if n: "n \<in> set ?all" "?page \<noteq> []" "in_leafIndex n < in_leafIndex (last ?page)" for n
  proof -
    obtain i where i: "i < length ?all" "n = ?all ! i"
      using n(1) unfolding in_set_conv_nth by blast
    let ?j = "length ?page - 1"
    have len: "0 < length ?page" "length ?page \<le> length ?all" "length ?page \<le> ?k"
      using n(2) by (auto simp: page)
    then have j: "?j < length ?all" "?j < ?k"
      by linarith+
    have "last ?page = ?page ! ?j"
      by (rule last_conv_nth [OF n(2)])
    also have "\<dots> = ?all ! ?j"
      unfolding page by (rule nth_take) (use j(2) in \<open>simp only: page\<close>)
    finally have last: "last ?page = ?all ! ?j" .
    have "\<not> ?j \<le> i"
    proof
      assume "?j \<le> i"
      then have "map in_leafIndex ?all ! ?j \<le> map in_leafIndex ?all ! i"
        using sorted(1) i(1) by (intro sorted_nth_mono) auto
      then show False
        using n(3) i j last by simp
    qed
    then have "i < length ?page"
      by simp
    then show ?thesis
      using i by (metis nth_mem nth_take page length_take min_less_iff_conj)
  qed
  show ?thesis
    unfolding Let_def
  proof (intro conjI)
    show "sorted (map in_leafIndex ?page)"
      unfolding page take_map [symmetric] by (rule sorted_wrt_take [OF sorted(1)])
    show "distinct ?page"
      unfolding page by (rule distinct_take [OF sorted(2)])
    show "set ?page \<subseteq> {n \<in> set (rows s). a \<le> in_leafIndex n}"
      unfolding page all [symmetric] by (rule set_take_subset)
    show "length ?page \<le> ?k"
      by (simp add: page)
    show "{n \<in> {n \<in> set (rows s). a \<le> in_leafIndex n}.
        ?page \<noteq> [] \<and> in_leafIndex n < in_leafIndex (last ?page)} \<subseteq> set ?page"
      using below unfolding all by blast
    have "?page = ?all" if "length ?page < ?k"
      using that by (simp add: page)
    then show "length ?page < ?k \<longrightarrow> set ?page = {n \<in> set (rows s). a \<le> in_leafIndex n}"
      using all by metis
  qed
qed

lemma page_misses_nothing_witness:
  "map in_leafIndex (getNotesAfter 2 1 sample_store) = [2] \<and> distinct (getNotesAfter 2 1 sample_store)"
proof -
  have "getNotesAfter 2 1 sample_store = [sample_row ''c2'' 2]"
    by (simp add: getNotesAfter_def sql_limit_def by_leaf_def sample_store_def sample_row_def)
  moreover have "distinct (getNotesAfter 2 1 sample_store)"
    using page_misses_nothing [OF sample_store_ok, of 1 2] by (simp add: Let_def)
  ultimately show ?thesis by (simp add: sample_row_def)
qed

end
