(* ===== verification/Indexer_Replicated.thy ===== *)
theory Indexer_Replicated
  imports Indexer_Store
begin

text \<open>
  indexer/src/replicated-store.ts: a primary table with read replicas. An operation on a replica may
  throw; which replicas do is an argument (\<open>fails\<close>). The primary is taken not to throw: when it does,
  the call ends with its exception before anything else happens.
\<close>

section \<open>State\<close>

record ReplicatedNoteStore =
  primary :: NoteStore
  replicas :: "NoteStore list"
  replicaPaths :: "string list"
  replicaHealthy :: "bool list"
  nextReplica :: nat

text \<open>\<open>open\<close> gives the table found or created at a path.\<close>

definition newReplicatedNoteStore :: "(string \<Rightarrow> NoteStore) \<Rightarrow> string \<Rightarrow> string list \<Rightarrow> ReplicatedNoteStore" where
  "newReplicatedNoteStore open_db primaryPath paths =
     \<lparr>primary = open_db primaryPath, replicas = map open_db paths, replicaPaths = paths,
      replicaHealthy = replicate (length paths) True, nextReplica = 0\<rparr>"

section \<open>Writes\<close>

definition sync_one :: "(nat \<Rightarrow> bool) \<Rightarrow> IndexedNote \<Rightarrow> nat \<Rightarrow> ReplicatedNoteStore \<Rightarrow> ReplicatedNoteStore" where
  "sync_one fails n i r =
     (if \<not> replicaHealthy r ! i then r
      else if fails i then r\<lparr>replicaHealthy := (replicaHealthy r)[i := False]\<rparr>
      else r\<lparr>replicas := (replicas r)[i := insertNote n (replicas r ! i)]\<rparr>)"

definition syncToReplicas :: "(nat \<Rightarrow> bool) \<Rightarrow> IndexedNote \<Rightarrow> ReplicatedNoteStore \<Rightarrow> ReplicatedNoteStore" where
  "syncToReplicas fails n r = fold (sync_one fails n) [0..<length (replicas r)] r"

definition r_insertNote :: "(nat \<Rightarrow> bool) \<Rightarrow> IndexedNote \<Rightarrow> ReplicatedNoteStore \<Rightarrow> ReplicatedNoteStore" where
  "r_insertNote fails n r = syncToReplicas fails n (r\<lparr>primary := insertNote n (primary r)\<rparr>)"

definition r_setLastSignature :: "string \<Rightarrow> ReplicatedNoteStore \<Rightarrow> ReplicatedNoteStore" where
  "r_setLastSignature sig r = r\<lparr>primary := setLastSignature sig (primary r)\<rparr>"

section \<open>Reads\<close>

fun read_loop :: "(nat \<Rightarrow> bool) \<Rightarrow> (NoteStore \<Rightarrow> 'a) \<Rightarrow> nat list \<Rightarrow> ReplicatedNoteStore \<Rightarrow>
    ReplicatedNoteStore \<times> 'a" where
  "read_loop fails fn [] r = (r, fn (primary r))"
| "read_loop fails fn (attempt # attempts) r =
     (let idx = (nextReplica r + attempt) mod length (replicas r) in
      if \<not> replicaHealthy r ! idx then read_loop fails fn attempts r
      else if fails idx
        then read_loop fails fn attempts (r\<lparr>replicaHealthy := (replicaHealthy r)[idx := False]\<rparr>)
      else (r\<lparr>nextReplica := (idx + 1) mod length (replicas r)\<rparr>, fn (replicas r ! idx)))"

definition readFromReplica :: "(nat \<Rightarrow> bool) \<Rightarrow> (NoteStore \<Rightarrow> 'a) \<Rightarrow> ReplicatedNoteStore \<Rightarrow>
    ReplicatedNoteStore \<times> 'a" where
  "readFromReplica fails fn r =
     (if length (replicas r) = 0 then (r, fn (primary r))
      else read_loop fails fn [0..<length (replicas r)] r)"

definition r_getNotesByRange :: "(nat \<Rightarrow> bool) \<Rightarrow> int \<Rightarrow> int \<Rightarrow> ReplicatedNoteStore \<Rightarrow>
    ReplicatedNoteStore \<times> IndexedNote list" where
  "r_getNotesByRange fails a b = readFromReplica fails (getNotesByRange a b)"

definition r_getNotesAfter :: "(nat \<Rightarrow> bool) \<Rightarrow> int \<Rightarrow> int \<Rightarrow> ReplicatedNoteStore \<Rightarrow>
    ReplicatedNoteStore \<times> IndexedNote list" where
  "r_getNotesAfter fails a limit = readFromReplica fails (getNotesAfter a limit)"

definition r_getNoteByCommitment :: "(nat \<Rightarrow> bool) \<Rightarrow> string \<Rightarrow> ReplicatedNoteStore \<Rightarrow>
    ReplicatedNoteStore \<times> IndexedNote option" where
  "r_getNoteByCommitment fails c = readFromReplica fails (getNoteByCommitment c)"

definition r_count :: "(nat \<Rightarrow> bool) \<Rightarrow> ReplicatedNoteStore \<Rightarrow> ReplicatedNoteStore \<times> nat" where
  "r_count fails = readFromReplica fails count_notes"

definition r_maxLeafIndex :: "(nat \<Rightarrow> bool) \<Rightarrow> ReplicatedNoteStore \<Rightarrow> ReplicatedNoteStore \<times> int" where
  "r_maxLeafIndex fails = readFromReplica fails maxLeafIndex"

definition r_getLastSignature :: "ReplicatedNoteStore \<Rightarrow> string option" where
  "r_getLastSignature r = getLastSignature (primary r)"

section \<open>Health and resynchronisation\<close>

record ReplicaHealth =
  rh_path :: string
  rh_healthy :: bool
  lastSyncLeaf :: int
  lagBehindPrimary :: int

definition health :: "(nat \<Rightarrow> bool) \<Rightarrow> ReplicatedNoteStore \<Rightarrow> ReplicatedNoteStore \<times> ReplicaHealth list" where
  "health fails r =
     (let primaryMax = maxLeafIndex (primary r);
          healthy' = map (\<lambda>i. replicaHealthy r ! i \<and> \<not> fails i) [0..<length (replicas r)]
      in (r\<lparr>replicaHealthy := healthy'\<rparr>,
          map (\<lambda>i. let leaf = (if fails i then -1 else maxLeafIndex (replicas r ! i)) in
                 \<lparr>rh_path = replicaPaths r ! i, rh_healthy = healthy' ! i, lastSyncLeaf = leaf,
                  lagBehindPrimary = primaryMax - leaf\<rparr>)
            [0..<length (replicas r)]))"

text \<open>The batches of 500 leaves of the primary, each note inserted unless the replica throws.\<close>

function resync_loop :: "(IndexedNote \<Rightarrow> bool) \<Rightarrow> int \<Rightarrow> int \<Rightarrow> NoteStore \<Rightarrow> NoteStore \<Rightarrow> NoteStore" where
  "resync_loop fails start maxLeaf prim rep =
     (if start \<le> maxLeaf
      then resync_loop fails (start + 500) maxLeaf prim
             (fold (\<lambda>n s. if fails n then s else insertNote n s)
                (getNotesByRange start (start + 500 - 1) prim) rep)
      else rep)"
  by auto
termination by (relation "measure (\<lambda>(_, start, maxLeaf, _, _). nat (maxLeaf + 1 - start))") auto

declare resync_loop.simps [simp del]

definition resyncReplica :: "(IndexedNote \<Rightarrow> bool) \<Rightarrow> int \<Rightarrow> ReplicatedNoteStore \<Rightarrow> ReplicatedNoteStore" where
  "resyncReplica fails replicaIndex r =
     (if replicaIndex < 0 \<or> replicaIndex \<ge> int (length (replicas r)) then r
      else (let i = nat replicaIndex; maxLeaf = maxLeafIndex (primary r) in
            if maxLeaf < 0 then r
            else r\<lparr>replicas := (replicas r)[i := resync_loop fails 0 maxLeaf (primary r) (replicas r ! i)],
                   replicaHealthy := (replicaHealthy r)[i := True]\<rparr>))"

section \<open>Either store, behind the type of the plain one\<close>

text \<open>
  server.ts and scanner.ts cast the replicated store to \<open>NoteStore\<close>; calling a method that its class
  does not have throws a \<open>TypeError\<close>.
\<close>

datatype any_store = Plain NoteStore | Replicated ReplicatedNoteStore

fun any_insertNotesAtomic :: "bool \<Rightarrow> IndexedNote list \<Rightarrow> string \<Rightarrow> any_store \<Rightarrow> any_store \<times> (js_error + unit)" where
  "any_insertNotesAtomic committed ns sig (Plain s) = (Plain (insertNotesAtomic committed ns sig s), Inr ())"
| "any_insertNotesAtomic committed ns sig (Replicated r) = (Replicated r, Inl TypeError)"

fun any_insertNote :: "(nat \<Rightarrow> bool) \<Rightarrow> IndexedNote \<Rightarrow> any_store \<Rightarrow> any_store" where
  "any_insertNote fails n (Plain s) = Plain (insertNote n s)"
| "any_insertNote fails n (Replicated r) = Replicated (r_insertNote fails n r)"

fun any_getLastSignature :: "any_store \<Rightarrow> string option" where
  "any_getLastSignature (Plain s) = getLastSignature s"
| "any_getLastSignature (Replicated r) = r_getLastSignature r"

fun any_getLastEvmBlock :: "any_store \<Rightarrow> js_error + int option option" where
  "any_getLastEvmBlock (Plain s) = Inr (getLastEvmBlock s)"
| "any_getLastEvmBlock (Replicated r) = Inl TypeError"

fun any_setLastEvmBlock :: "int \<Rightarrow> any_store \<Rightarrow> any_store \<times> (js_error + unit)" where
  "any_setLastEvmBlock b (Plain s) = (Plain (setLastEvmBlock b s), Inr ())"
| "any_setLastEvmBlock b (Replicated r) = (Replicated r, Inl TypeError)"

section \<open>Replicas agree with the primary\<close>

definition replica_ok :: "ReplicatedNoteStore \<Rightarrow> nat \<Rightarrow> bool" where
  "replica_ok r i \<longleftrightarrow> store_ok (replicas r ! i) \<and>
     set (rows (replicas r ! i)) \<subseteq> set (rows (primary r)) \<and>
     (replicaHealthy r ! i \<longrightarrow> set (rows (replicas r ! i)) = set (rows (primary r)))"

definition replicas_ok :: "ReplicatedNoteStore \<Rightarrow> bool" where
  "replicas_ok r \<longleftrightarrow>
     store_ok (primary r) \<and> (\<forall>n \<in> set (rows (primary r)). 0 \<le> in_leafIndex n) \<and>
     length (replicaHealthy r) = length (replicas r) \<and>
     (\<forall>i < length (replicas r). replica_ok r i)"

lemma rows_insertNote [store_simps]: "rows (insertNote n s) = insert_row n (rows s)"
  by (simp add: insertNote_def)

text \<open>Two tables with the same rows, in any order, give the same answers.\<close>

lemma same_rows_answers:
  assumes "store_ok s" "store_ok t" "set (rows s) = set (rows t)"
  shows "getNoteByCommitment c s = getNoteByCommitment c t"
    and "set (getNotesByRange a b s) = set (getNotesByRange a b t)"
    and "count_notes s = count_notes t" and "maxLeafIndex s = maxLeafIndex t"
proof -
  show "getNoteByCommitment c s = getNoteByCommitment c t"
  proof -
    have "getNoteByCommitment c s = Some n \<longleftrightarrow> getNoteByCommitment c t = Some n" for n
      using assms by (simp add: getNoteByCommitment_iff)
    then show ?thesis by (metis not_None_eq)
  qed
  show "set (getNotesByRange a b s) = set (getNotesByRange a b t)"
    using assms(3) by (simp add: getNotesByRange_def)
  have "distinct (rows s)" "distinct (rows t)"
    using assms(1,2) by (auto simp: store_ok_def rows_ok_def distinct_map)
  then show "count_notes s = count_notes t"
    unfolding count_notes_def using assms(3) by (metis distinct_card)
  have "rows s = [] \<longleftrightarrow> rows t = []"
    using assms(3) by (metis set_empty)
  then show "maxLeafIndex s = maxLeafIndex t"
    using assms(3) by (simp add: maxLeafIndex_def)
qed

text \<open>Inserting rows of a table into a part of it only adds those rows.\<close>

lemma insert_rows_of:
  assumes "rows_ok ps" "rows_ok rs" "set rs \<subseteq> set ps" "set ns \<subseteq> set ps"
  shows "set (fold insert_row ns rs) = set rs \<union> set ns"
  using assms(2-4)
proof (induction ns arbitrary: rs)
  case (Cons n ns)
  have "n \<in> set rs" if mem: "in_commitment n \<in> in_commitment ` set rs"
  proof -
    obtain m where "m \<in> set rs" "in_commitment n = in_commitment m"
      using mem by blast
    moreover from this have "m = n"
      using Cons.prems(2,3) by (intro rows_ok_unique [OF assms(1)]) auto
    ultimately show ?thesis by simp
  qed
  then have "set (insert_row n rs) = insert n (set rs)"
    unfolding set_insert_row by auto
  moreover have "rows_ok (insert_row n rs)"
    using Cons.prems(1) by (rule insert_row_ok)
  ultimately show ?case
    using Cons.IH [of "insert_row n rs"] Cons.prems by auto
qed simp


lemma sync_one_frame [simp]:
  "primary (sync_one fails n i r) = primary r"
  "length (replicas (sync_one fails n i r)) = length (replicas r)"
  "length (replicaHealthy (sync_one fails n i r)) = length (replicaHealthy r)"
  by (simp_all add: sync_one_def)

text \<open>What a write does to replica \<open>i\<close>, when the table sizes match.\<close>

lemma fold_sync_nth:
  assumes "distinct is" "\<forall>i \<in> set is. i < length (replicas r)"
    and "length (replicaHealthy r) = length (replicas r)" "j < length (replicas r)"
  shows "replicaHealthy (fold (sync_one fails n) is r) ! j
      = (replicaHealthy r ! j \<and> \<not> (j \<in> set is \<and> fails j))
    \<and> replicas (fold (sync_one fails n) is r) ! j
      = (if j \<in> set is \<and> replicaHealthy r ! j \<and> \<not> fails j then insertNote n (replicas r ! j)
         else replicas r ! j)
    \<and> primary (fold (sync_one fails n) is r) = primary r
    \<and> length (replicas (fold (sync_one fails n) is r)) = length (replicas r)
    \<and> length (replicaHealthy (fold (sync_one fails n) is r)) = length (replicaHealthy r)
    \<and> nextReplica (fold (sync_one fails n) is r) = nextReplica r"
  using assms
proof (induction "is" arbitrary: r)
  case (Cons i "is")
  let ?r = "sync_one fails n i r"
  have "nextReplica ?r = nextReplica r"
    by (simp add: sync_one_def)
  moreover have "replicaHealthy ?r ! j = (replicaHealthy r ! j \<and> \<not> (j = i \<and> fails j))"
    "replicas ?r ! j = (if j = i \<and> replicaHealthy r ! j \<and> \<not> fails j
       then insertNote n (replicas r ! j) else replicas r ! j)"
    using Cons.prems by (auto simp: sync_one_def nth_update_at)
  ultimately show ?case
    using Cons.IH [of ?r] Cons.prems by auto
qed simp

lemma replica_ok_insert:
  assumes "replica_ok r i" "store_ok (primary r)" "0 \<le> in_leafIndex n"
    and "primary r' = insertNote n (primary r)"
    and "replicaHealthy r' ! i = (replicaHealthy r ! i \<and> \<not> bad)"
    and "replicas r' ! i = (if replicaHealthy r ! i \<and> \<not> bad then insertNote n (replicas r ! i) else replicas r ! i)"
  shows "replica_ok r' i"
proof (cases "replicaHealthy r ! i \<and> \<not> bad")
  case True
  with assms show ?thesis
    by (auto simp: replica_ok_def store_ok_def store_simps)
next
  case False
  with assms show ?thesis
    by (auto simp: replica_ok_def store_simps)
qed

lemma replicas_ok_insert:
  assumes ok: "replicas_ok r" and leaf: "0 \<le> in_leafIndex n"
  shows "replicas_ok (r_insertNote fails n r)"
proof -
  let ?p = "r\<lparr>primary := insertNote n (primary r)\<rparr>"
  let ?r = "r_insertNote fails n r"
  have nth: "replicaHealthy ?r ! j = (replicaHealthy r ! j \<and> \<not> fails j)
      \<and> replicas ?r ! j = (if replicaHealthy r ! j \<and> \<not> fails j then insertNote n (replicas r ! j)
         else replicas r ! j)
      \<and> primary ?r = insertNote n (primary r) \<and> length (replicas ?r) = length (replicas r)
      \<and> length (replicaHealthy ?r) = length (replicaHealthy r)" if "j < length (replicas r)" for j
    using fold_sync_nth [of "[0..<length (replicas r)]" ?p j fails n] that ok
    by (simp add: r_insertNote_def syncToReplicas_def replicas_ok_def)
  have "replica_ok ?r i" if i: "i < length (replicas r)" for i
    by (rule replica_ok_insert [of r i n ?r "fails i"])
      (use ok leaf nth [OF i] i in \<open>auto simp: replicas_ok_def\<close>)
  moreover have "primary ?r = insertNote n (primary r)" "length (replicas ?r) = length (replicas r)"
    "length (replicaHealthy ?r) = length (replicaHealthy r)"
  proof -
    have gen: "primary (fold (sync_one fails n) is q) = primary q
        \<and> length (replicas (fold (sync_one fails n) is q)) = length (replicas q)
        \<and> length (replicaHealthy (fold (sync_one fails n) is q)) = length (replicaHealthy q)" for "is" q
      by (induction "is" arbitrary: q) simp_all
    show "primary ?r = insertNote n (primary r)" "length (replicas ?r) = length (replicas r)"
      "length (replicaHealthy ?r) = length (replicaHealthy r)"
      by (simp_all add: r_insertNote_def syncToReplicas_def gen)
  qed
  ultimately show ?thesis
    using ok leaf
    by (auto simp: replicas_ok_def store_ok_def store_simps)
qed

text \<open>A read returns what some table returns: the primary, or a replica still in service.\<close>

lemma read_loop_result:
  assumes "read_loop fails fn ats r = (r', v)" "length (replicas r) > 0"
    and "length (replicaHealthy r) = length (replicas r)"
  shows "primary r' = primary r \<and> replicas r' = replicas r
    \<and> length (replicaHealthy r') = length (replicaHealthy r)
    \<and> (\<forall>i < length (replicas r). replicaHealthy r' ! i \<longrightarrow> replicaHealthy r ! i)
    \<and> (v = fn (primary r) \<or> (\<exists>i < length (replicas r). replicaHealthy r ! i \<and> v = fn (replicas r ! i)))"
  using assms
proof (induction ats arbitrary: r)
  case (Cons a ats)
  let ?i = "(nextReplica r + a) mod length (replicas r)"
  let ?bad = "r\<lparr>replicaHealthy := (replicaHealthy r)[?i := False]\<rparr>"
  have i: "?i < length (replicas r)"
    using Cons.prems(2) by simp
  consider "\<not> replicaHealthy r ! ?i" | "replicaHealthy r ! ?i" "fails ?i" | "replicaHealthy r ! ?i" "\<not> fails ?i"
    by blast
  then show ?case
  proof cases
    case 1
    with Cons show ?thesis by (simp add: Let_def)
  next
    case 2
    have "read_loop fails fn ats ?bad = (r', v)"
      using Cons.prems(1) 2 by (simp add: Let_def)
    from Cons.IH [OF this] Cons.prems show ?thesis
      by (auto simp: nth_update_at split: if_splits)
  next
    case 3
    with Cons.prems have "v = fn (replicas r ! ?i)"
      "r' = r\<lparr>nextReplica := (?i + 1) mod length (replicas r)\<rparr>"
      by (simp_all add: Let_def)
    with 3 i show ?thesis by auto
  qed
qed simp

lemma readFromReplica_result:
  assumes "replicas_ok r" "readFromReplica fails fn r = (r', v)"
  shows "replicas_ok r'" "primary r' = primary r"
    and "v = fn (primary r) \<or> (\<exists>s. store_ok s \<and> set (rows s) = set (rows (primary r)) \<and> v = fn s)"
proof -
  have "primary r' = primary r \<and> replicas r' = replicas r
    \<and> length (replicaHealthy r') = length (replicaHealthy r)
    \<and> (\<forall>i < length (replicas r). replicaHealthy r' ! i \<longrightarrow> replicaHealthy r ! i)
    \<and> (v = fn (primary r) \<or> (\<exists>i < length (replicas r). replicaHealthy r ! i \<and> v = fn (replicas r ! i)))"
  proof (cases "length (replicas r) = 0")
    case True
    with assms(2) show ?thesis by (auto simp: readFromReplica_def)
  next
    case False
    then show ?thesis
      using read_loop_result [of fails fn "[0..<length (replicas r)]" r r' v] assms
      by (simp add: readFromReplica_def replicas_ok_def)
  qed
  then show "replicas_ok r'" "primary r' = primary r"
    "v = fn (primary r) \<or> (\<exists>s. store_ok s \<and> set (rows s) = set (rows (primary r)) \<and> v = fn s)"
    using assms(1) by (auto simp: replicas_ok_def replica_ok_def)
qed

lemma resync_loop_rows:
  assumes "store_ok p" "store_ok s" "set (rows s) \<subseteq> set (rows p)"
  shows "store_ok (resync_loop (\<lambda>n. False) a m p s)
    \<and> set (rows (resync_loop (\<lambda>n. False) a m p s)) \<subseteq> set (rows p)
    \<and> set (rows s) \<subseteq> set (rows (resync_loop (\<lambda>n. False) a m p s))
    \<and> {n \<in> set (rows p). a \<le> in_leafIndex n \<and> in_leafIndex n \<le> m}
        \<subseteq> set (rows (resync_loop (\<lambda>n. False) a m p s))"
  using assms
proof (induction "nat (m + 1 - a)" arbitrary: a s rule: less_induct)
  case less
  show ?case
  proof (cases "a \<le> m")
    case True
    let ?ns = "getNotesByRange a (a + 500 - 1) p"
    let ?s = "fold insertNote ?ns s"
    have rows: "rows ?s = fold insert_row ?ns (rows s)"
      using insertNotesAtomic_rows [of ?ns "''''" s] by (simp add: insertNotesAtomic_def)
    have ns: "set ?ns = {n \<in> set (rows p). a \<le> in_leafIndex n \<and> in_leafIndex n \<le> a + 499}"
      by (auto simp: getNotesByRange_def)
    then have set: "set (rows ?s) = set (rows s) \<union> set ?ns"
      unfolding rows using less.prems
      by (intro insert_rows_of [of "rows p"]) (auto simp: store_ok_def)
    have ok: "store_ok ?s"
      using less.prems(2) by (rule table.puts_ok)
    have step: "resync_loop (\<lambda>n. False) a m p s = resync_loop (\<lambda>n. False) (a + 500) m p ?s"
      using True by (subst resync_loop.simps) simp
    have sub: "set (rows ?s) \<subseteq> set (rows p)"
      using less.prems(3) ns set by auto
    have IH: "store_ok (resync_loop (\<lambda>n. False) (a + 500) m p ?s)
      \<and> set (rows (resync_loop (\<lambda>n. False) (a + 500) m p ?s)) \<subseteq> set (rows p)
      \<and> set (rows ?s) \<subseteq> set (rows (resync_loop (\<lambda>n. False) (a + 500) m p ?s))
      \<and> {n \<in> set (rows p). a + 500 \<le> in_leafIndex n \<and> in_leafIndex n \<le> m}
          \<subseteq> set (rows (resync_loop (\<lambda>n. False) (a + 500) m p ?s))"
      using True by (intro less.hyps less.prems(1) ok sub) simp
    have "{n \<in> set (rows p). a \<le> in_leafIndex n \<and> in_leafIndex n \<le> m}
        \<subseteq> set (rows (resync_loop (\<lambda>n. False) (a + 500) m p ?s))"
    proof
      fix n assume n: "n \<in> {n \<in> set (rows p). a \<le> in_leafIndex n \<and> in_leafIndex n \<le> m}"
      show "n \<in> set (rows (resync_loop (\<lambda>n. False) (a + 500) m p ?s))"
      proof (cases "in_leafIndex n \<le> a + 499")
        case True
        with n ns set have "n \<in> set (rows ?s)" by blast
        with IH show ?thesis by blast
      next
        case False
        with n IH show ?thesis by force
      qed
    qed
    moreover have "set (rows s) \<subseteq> set (rows ?s)"
      using set by blast
    ultimately show ?thesis
      using IH unfolding step by blast
  next
    case False
    with less.prems show ?thesis
      by (auto simp: resync_loop.simps [of _ a])
  qed
qed


lemma maxLeaf_bound: "n \<in> set (rows s) \<Longrightarrow> in_leafIndex n \<le> maxLeafIndex s"
  by (auto simp: maxLeafIndex_def)

lemma resync_ok:
  assumes ok: "replicas_ok r"
  shows "replicas_ok (resyncReplica (\<lambda>n. False) k r)"
proof (cases "k < 0 \<or> k \<ge> int (length (replicas r)) \<or> maxLeafIndex (primary r) < 0")
  case True
  with ok show ?thesis by (auto simp: resyncReplica_def Let_def)
next
  case False
  let ?i = "nat k" and ?m = "maxLeafIndex (primary r)"
  let ?s = "resync_loop (\<lambda>n. False) 0 ?m (primary r) (replicas r ! ?i)"
  have i: "?i < length (replicas r)"
    using False by auto
  have prem: "store_ok (primary r)" "store_ok (replicas r ! ?i)"
    "set (rows (replicas r ! ?i)) \<subseteq> set (rows (primary r))"
    using ok i by (auto simp: replicas_ok_def replica_ok_def)
  note loop = resync_loop_rows [OF prem, of 0 ?m]
  have "set (rows (primary r)) \<subseteq> {n \<in> set (rows (primary r)). 0 \<le> in_leafIndex n \<and> in_leafIndex n \<le> ?m}"
    using ok maxLeaf_bound by (auto simp: replicas_ok_def)
  with loop have same: "store_ok ?s" "set (rows ?s) = set (rows (primary r))"
    by blast+
  have eq: "resyncReplica (\<lambda>n. False) k r =
      r\<lparr>replicas := (replicas r)[?i := ?s], replicaHealthy := (replicaHealthy r)[?i := True]\<rparr>"
    using False by (simp add: resyncReplica_def Let_def)
  show ?thesis
    using ok same i unfolding eq replicas_ok_def replica_ok_def
    by (auto simp: nth_update_at)
qed

section \<open>The replicated store over time\<close>

inductive replica_step :: "ReplicatedNoteStore \<Rightarrow> ReplicatedNoteStore \<Rightarrow> bool" where
  insert: "0 \<le> in_leafIndex n \<Longrightarrow> replica_step r (r_insertNote fails n r)"
| read: "readFromReplica fails (fn :: NoteStore \<Rightarrow> unit) r = (r', v) \<Longrightarrow> replica_step r r'"
| sign: "replica_step r (r_setLastSignature sig r)"
| check: "replica_step r (fst (health fails r))"
| resync: "replica_step r (resyncReplica (\<lambda>n. False) k r)"

definition replica_init :: "ReplicatedNoteStore \<Rightarrow> bool" where
  "replica_init r \<longleftrightarrow> (\<exists>paths. r = newReplicatedNoteStore (\<lambda>path. newNoteStore) ''p'' paths)"

interpretation replicated: invariant_system replica_init replica_step replicas_ok
proof
  show "replicas_ok r" if "replica_init r" for r
    using that by (auto simp: replica_init_def newReplicatedNoteStore_def newNoteStore_def
        replicas_ok_def replica_ok_def store_ok_def)
  show "replicas_ok r'" if ok: "replicas_ok r" and step: "replica_step r r'" for r r'
    using step
  proof (cases rule: replica_step.cases)
    case (insert n fails)
    then show ?thesis using replicas_ok_insert ok by blast
  next
    case (read fails fn v)
    show ?thesis by (rule readFromReplica_result(1) [OF ok read])
  next
    case (sign sig)
    with ok show ?thesis
      by (auto simp: r_setLastSignature_def setLastSignature_def replicas_ok_def replica_ok_def store_ok_def)
  next
    case (check fails)
    with ok show ?thesis
      by (auto simp: health_def Let_def replicas_ok_def replica_ok_def)
  next
    case (resync k)
    then show ?thesis using resync_ok ok by blast
  qed
qed

section \<open>Properties\<close>



definition replica_example :: ReplicatedNoteStore where
  "replica_example = r_insertNote (\<lambda>i. i = 1) (sample_row ''c1'' 1)
     (newReplicatedNoteStore (\<lambda>path. newNoteStore) ''p'' [''a'', ''b''])"

lemma replica_example_reachable: "reachable replica_init replica_step replica_example"
proof -
  have "reachable replica_init replica_step (newReplicatedNoteStore (\<lambda>path. newNoteStore) ''p'' [''a'', ''b''])"
    by (rule reach_init) (auto simp: replica_init_def)
  then show ?thesis
    unfolding replica_example_def
    by (rule reach_step) (rule replica_step.insert, simp add: sample_row_def)
qed

lemma replica_example_eq:
  "replica_example = \<lparr>primary = \<lparr>rows = [sample_row ''c1'' 1], metadata = Map.empty\<rparr>,
     replicas = [\<lparr>rows = [sample_row ''c1'' 1], metadata = Map.empty\<rparr>, newNoteStore],
     replicaPaths = [''a'', ''b''], replicaHealthy = [True, False], nextReplica = 0\<rparr>"
  by (simp add: replica_example_def r_insertNote_def newReplicatedNoteStore_def newNoteStore_def
      syncToReplicas_def sync_one_def insertNote_def insert_row_def sample_row_def upt_conv_Cons)


text \<open>
  A resynchronisation whose inserts throw still puts the replica back in service: the note that
  could not be written stays missing, and the next read that is this replica's turn does not find
  it although the primary has it.
\<close>

theorem resync_hides_failed_inserts:
  assumes "i < length (replicas r)" "length (replicaHealthy r) = length (replicas r)"
    and "store_ok (primary r)" "n \<in> set (rows (primary r))" "0 \<le> in_leafIndex n"
    and "in_commitment n \<notin> in_commitment ` set (rows (replicas r ! i))" "fails n" "nextReplica r = i"
  shows "let r' = resyncReplica fails (int i) r in
    replicaHealthy r' ! i \<and> getNoteByCommitment (in_commitment n) (primary r') = Some n
    \<and> snd (r_getNoteByCommitment (\<lambda>_. False) (in_commitment n) r') = None"
proof -
  let ?m = "maxLeafIndex (primary r)"
  have skip: "in_commitment n \<notin> in_commitment ` set (rows (fold (\<lambda>n s. if fails n then s else insertNote n s) ns s))"
    if "in_commitment n \<notin> in_commitment ` set (rows s)" "set ns \<subseteq> set (rows (primary r))" for ns s
    using that
  proof (induction ns arbitrary: s)
    case (Cons k ns)
    have "in_commitment n \<notin> in_commitment ` set (rows (if fails k then s else insertNote k s))"
    proof (cases "fails k")
      case False
      then have "k \<noteq> n"
        using assms(7) by blast
      moreover have "rows_ok (rows (primary r))" "k \<in> set (rows (primary r))"
        using assms(3) Cons.prems(2) by (auto simp: store_ok_def)
      ultimately have "in_commitment n \<noteq> in_commitment k"
        using rows_ok_unique [of "rows (primary r)" k n] assms(4) by metis
      with False Cons.prems(1) show ?thesis
        by (simp add: rows_insertNote set_insert_row)
    qed (use Cons.prems(1) in simp)
    then show ?case
      using Cons.IH Cons.prems(2) by simp
  qed simp
  have loop: "in_commitment n \<notin> in_commitment ` set (rows (resync_loop fails a m (primary r) s))"
    if "in_commitment n \<notin> in_commitment ` set (rows s)" for a m s
    using that
  proof (induction "nat (m + 1 - a)" arbitrary: a s rule: less_induct)
    case less
    let ?s = "fold (\<lambda>n s. if fails n then s else insertNote n s)
        (getNotesByRange a (a + 500 - 1) (primary r)) s"
    have "set (getNotesByRange a (a + 500 - 1) (primary r)) \<subseteq> set (rows (primary r))"
      by (auto simp: getNotesByRange_def)
    from skip [OF less.prems this] less.hyps [of "a + 500" ?s]
    have "in_commitment n \<notin> in_commitment ` set (rows (resync_loop fails (a + 500) m (primary r) ?s))"
      if "a \<le> m"
      using that by simp
    with less.prems show ?case
      by (simp only: resync_loop.simps [of fails a m "primary r" s] split: if_split) blast
  qed
  have "0 \<le> ?m"
    using maxLeaf_bound [OF assms(4)] assms(5) by simp
  then have r': "resyncReplica fails (int i) r =
      r\<lparr>replicas := (replicas r)[i := resync_loop fails 0 ?m (primary r) (replicas r ! i)],
        replicaHealthy := (replicaHealthy r)[i := True]\<rparr>" (is "_ = ?r")
    using assms(1) by (simp add: resyncReplica_def Let_def)
  have "getNoteByCommitment (in_commitment n) (replicas ?r ! i) = None"
    using loop [OF assms(6)] assms(1) by (simp add: getNoteByCommitment_def find_commitment_None)
  moreover have "[0..<length (replicas r)] = 0 # [Suc 0..<length (replicas r)]"
    using assms(1) by (intro upt_conv_Cons) linarith
  ultimately have "snd (r_getNoteByCommitment (\<lambda>_. False) (in_commitment n) ?r) = None"
    using assms(1,2,8) by (auto simp: r_getNoteByCommitment_def readFromReplica_def Let_def)
  moreover have "getNoteByCommitment (in_commitment n) (primary r) = Some n"
    using assms(3,4) by (simp add: store_simps)
  ultimately show ?thesis
    unfolding r' Let_def using assms(1,2) by simp
qed

lemma resync_hides_failed_inserts_witness:
  "snd (r_getNoteByCommitment (\<lambda>_. False) ''c1''
      (resyncReplica (\<lambda>n. True) 1 (replica_example\<lparr>nextReplica := 1\<rparr>))) = None"
  using resync_hides_failed_inserts [of 1 "replica_example\<lparr>nextReplica := 1\<rparr>" "sample_row ''c1'' 1" "\<lambda>n. True"]
  by (simp add: replica_example_eq sample_row_def newNoteStore_def store_ok_def rows_ok_def Let_def)

end
