(* ===== verification/Indexer_Server.thy ===== *)
theory Indexer_Server
  imports Indexer_Replicated
begin

text \<open>
  indexer/src/server.ts: the HTTP interface of the note store. A request is its method, its path and
  its query parameters (\<open>URL.searchParams.get\<close>); a reply is a status with a JSON body.
\<close>

section \<open>Requests and replies\<close>

record http_request =
  http_method :: string
  pathname :: string
  search_param :: "string \<Rightarrow> string option"

datatype reply_body =
    NoBody
  | HealthBody
  | StatusBody nat int "string option" "int option"
  | NotesBody "IndexedNote list"
  | NoteBody IndexedNote
  | ErrorBody string

type_synonym http_reply = "int \<times> reply_body"

section \<open>Reads of either store\<close>

definition any_read :: "(nat \<Rightarrow> bool) \<Rightarrow> (NoteStore \<Rightarrow> 'a) \<Rightarrow> any_store \<Rightarrow> any_store \<times> 'a" where
  "any_read fails fn st =
     (case st of
        Plain s \<Rightarrow> (Plain s, fn s)
      | Replicated r \<Rightarrow> (case readFromReplica fails fn r of (r', v) \<Rightarrow> (Replicated r', v)))"

section \<open>Handlers\<close>

text \<open>\<open>JSON.stringify\<close> writes NaN as null; a throw inside a handler becomes a 500 reply.\<close>

definition handleStatus :: "(nat \<Rightarrow> bool) \<Rightarrow> any_store \<Rightarrow> any_store \<times> http_reply" where
  "handleStatus fails st =
     (case any_read fails count_notes st of
        (st1, n) \<Rightarrow>
          (case any_read fails maxLeafIndex st1 of
             (st2, mx) \<Rightarrow>
               (let sig = any_getLastSignature st2 in
                case any_getLastEvmBlock st2 of
                  Inl e \<Rightarrow> (st2, 500, ErrorBody ''store.getLastEvmBlock is not a function'')
                | Inr b \<Rightarrow> (st2, 200, StatusBody n mx sig (case b of Some (Some k) \<Rightarrow> Some k | _ \<Rightarrow> None)))))"

definition handleNotes :: "(nat \<Rightarrow> bool) \<Rightarrow> (string \<Rightarrow> string option) \<Rightarrow> any_store \<Rightarrow> any_store \<times> http_reply" where
  "handleNotes fails params st =
     (case (params ''from'', params ''to'') of
        (Some from_p, Some to_p) \<Rightarrow>
          (case (parse_int 10 from_p, parse_int 10 to_p) of
             (Some fromLeaf, Some toLeaf) \<Rightarrow>
               (case any_read fails (getNotesByRange fromLeaf toLeaf) st of
                  (st', ns) \<Rightarrow> (st', 200, NotesBody ns))
           | _ \<Rightarrow> (st, 400, ErrorBody ''Invalid from/to parameters''))
      | _ \<Rightarrow>
          (case params ''after'' of
             Some after_p \<Rightarrow>
               (case parse_int 10 after_p of
                  None \<Rightarrow> (st, 400, ErrorBody ''Invalid after parameter'')
                | Some afterLeaf \<Rightarrow>
                    (let limit = (case params ''limit'' of
                                    None \<Rightarrow> Some 1000
                                  | Some l \<Rightarrow> (if l = [] then Some 1000 else parse_int 10 l)) in
                     case limit of
                       None \<Rightarrow> (st, 400, ErrorBody ''Invalid limit (1-10000)'')
                     | Some k \<Rightarrow>
                         (if k < 1 \<or> k > 10000 then (st, 400, ErrorBody ''Invalid limit (1-10000)'')
                          else (case any_read fails (getNotesAfter afterLeaf k) st of
                                  (st', ns) \<Rightarrow> (st', 200, NotesBody ns)))))
           | None \<Rightarrow>
               (case any_read fails maxLeafIndex st of
                  (st1, maxLeaf) \<Rightarrow>
                    (case any_read fails (getNotesAfter (max 0 (maxLeaf - 99)) 100) st1 of
                       (st2, ns) \<Rightarrow> (st2, 200, NotesBody ns)))))"

text \<open>The test \<open>^[0-9a-fA-F]{64}$\<close>.\<close>

definition commitment_text :: "string \<Rightarrow> bool" where
  "commitment_text c = (length c = 64 \<and> list_all is_hex_char c)"

definition handleNoteByCommitment :: "(nat \<Rightarrow> bool) \<Rightarrow> string \<Rightarrow> any_store \<Rightarrow> any_store \<times> http_reply" where
  "handleNoteByCommitment fails c st =
     (if \<not> commitment_text c
      then (st, 400, ErrorBody ''Invalid commitment hash (expected 64 hex chars)'')
      else (case any_read fails (getNoteByCommitment c) st of
              (st', None) \<Rightarrow> (st', 404, ErrorBody ''Note not found'')
            | (st', Some n) \<Rightarrow> (st', 200, NoteBody n)))"

definition handle_request :: "(nat \<Rightarrow> bool) \<Rightarrow> http_request \<Rightarrow> any_store \<Rightarrow> any_store \<times> http_reply" where
  "handle_request fails req st =
     (if http_method req = ''OPTIONS'' then (st, 204, NoBody)
      else if http_method req \<noteq> ''GET'' then (st, 405, ErrorBody ''Method not allowed'')
      else if pathname req = ''/health'' then (st, 200, HealthBody)
      else if pathname req = ''/status'' then handleStatus fails st
      else if pathname req = ''/notes'' then handleNotes fails (search_param req) st
      else if starts_with ''/notes/'' (pathname req)
        then handleNoteByCommitment fails (drop (length ''/notes/'') (pathname req)) st
      else (st, 404, ErrorBody ''Not found''))"

section \<open>Decimal parameters\<close>

text \<open>\<open>parseInt(_, 10)\<close> reads back what \<open>toString\<close> of an integer writes.\<close>

lemma digit_prefix_map:
  "(\<And>d. d \<in> set ds \<Longrightarrow> d < b) \<Longrightarrow> b \<le> 16 \<Longrightarrow> digit_prefix b (map hex_digit ds) = ds"
  by (induction ds) auto

lemma parse_unsigned_nat: "parse_unsigned_prefix 10 (nat_to_string 10 n) = Some (int n)"
  by (simp add: parse_unsigned_prefix_def nat_to_string_def digit_prefix_map digits_less Let_def)

lemma decimal_no_sign:
  assumes "s = nat_to_string 10 n"
  shows "hd s \<noteq> CHR ''-''" "hd s \<noteq> CHR ''+''" "\<not> js_space (hd s)"
proof -
  have "hd s \<in> set s"
    using assms by simp
  then show "hd s \<noteq> CHR ''-''" "hd s \<noteq> CHR ''+''" "\<not> js_space (hd s)"
    using decimal_char [of "hd s" n] js_space_decimal [of "hd s" n] assms by auto
qed


lemma parse_int_to_string [codec_simps]: "parse_int 10 (bigint_to_string 10 i) = Some i"
proof (cases "i < 0")
  case True
  let ?s = "nat_to_string 10 (nat (- i))"
  have "trim_start (CHR ''-'' # ?s) = CHR ''-'' # ?s"
    by (simp add: trim_start_def js_space_def)
  then show ?thesis
    using True by (simp add: parse_int_def bigint_to_string_def starts_with_def parse_unsigned_nat)
next
  case False
  let ?s = "nat_to_string 10 (nat i)"
  obtain c cs where s: "?s = c # cs"
    by (cases ?s) auto
  note first = decimal_no_sign [OF s [symmetric]]
  have "trim_start ?s = ?s"
    using first by (simp add: trim_start_def s)
  moreover have "\<not> starts_with ''-'' ?s" "\<not> starts_with ''+'' ?s"
    using first by (auto simp: starts_with_def s)
  ultimately show ?thesis
    using False by (simp add: parse_int_def bigint_to_string_def parse_unsigned_nat)
qed

interpretation int_text: codec "bigint_to_string 10" "parse_int 10" "\<lambda>_. True"
  by unfold_locales (simp add: parse_int_to_string)

lemma getLastEvmBlock_set: "getLastEvmBlock (setLastEvmBlock b s) = Some (Some b)"
  by (simp add: getLastEvmBlock_def setLastEvmBlock_def int_text.dec_enc)

section \<open>Properties\<close>

definition get_request :: "string \<Rightarrow> (string \<Rightarrow> string option) \<Rightarrow> http_request" where
  "get_request path params = \<lparr>http_method = ''GET'', pathname = path, search_param = params\<rparr>"

definition after_params :: "int \<Rightarrow> int \<Rightarrow> string \<Rightarrow> string option" where
  "after_params a k = [''after'' \<mapsto> bigint_to_string 10 a, ''limit'' \<mapsto> bigint_to_string 10 k]"

lemma any_read_plain [simp]: "any_read fails fn (Plain s) = (Plain s, fn s)"
  by (simp add: any_read_def)

lemma handleNotes_plain:
  "\<exists>code body. handleNotes fails params (Plain s) = (Plain s, code, body) \<and> code \<in> {200, 400}"
  by (auto simp: handleNotes_def Let_def split: option.splits prod.splits)

text \<open>
  Over a plain store the server answers every request without changing the store and without
  an internal error; a page request returns exactly the store's page when its limit is from 1 to
  10000 and is refused otherwise; a lookup of a well-formed commitment returns the stored note or
  404. Over a replicated store a status request always fails with 500.
\<close>

theorem server_answers:
  "(\<exists>code body. handle_request fails req (Plain s) = (Plain s, code, body)
      \<and> code \<in> {200, 204, 400, 404, 405})
   \<and> handle_request fails (get_request ''/notes'' (after_params a k)) (Plain s) =
      (Plain s, if 1 \<le> k \<and> k \<le> 10000 then (200, NotesBody (getNotesAfter a k s))
                else (400, ErrorBody ''Invalid limit (1-10000)''))
   \<and> handle_request fails (get_request (''/notes/'' @ c) params) (Plain s) =
      (Plain s, if \<not> commitment_text c then (400, ErrorBody ''Invalid commitment hash (expected 64 hex chars)'')
                else (case getNoteByCommitment c s of
                        None \<Rightarrow> (404, ErrorBody ''Note not found'')
                      | Some n \<Rightarrow> (200, NoteBody n)))
   \<and> fst (snd (handle_request fails (get_request ''/status'' params) (Replicated r))) = 500"
proof (intro conjI)
  show "\<exists>code body. handle_request fails req (Plain s) = (Plain s, code, body)
      \<and> code \<in> {200, 204, 400, 404, 405}"
    using handleNotes_plain [of fails "search_param req" s]
    by (auto simp: handle_request_def handleStatus_def handleNoteByCommitment_def Let_def
        split: option.split)
  have "bigint_to_string 10 k \<noteq> []"
    by (simp add: bigint_to_string_def)
  then show "handle_request fails (get_request ''/notes'' (after_params a k)) (Plain s) =
      (Plain s, if 1 \<le> k \<and> k \<le> 10000 then (200, NotesBody (getNotesAfter a k s))
                else (400, ErrorBody ''Invalid limit (1-10000)''))"
    by (auto simp: handle_request_def get_request_def handleNotes_def after_params_def Let_def codec_simps)
  show "handle_request fails (get_request (''/notes/'' @ c) params) (Plain s) =
      (Plain s, if \<not> commitment_text c then (400, ErrorBody ''Invalid commitment hash (expected 64 hex chars)'')
                else (case getNoteByCommitment c s of
                        None \<Rightarrow> (404, ErrorBody ''Note not found'')
                      | Some n \<Rightarrow> (200, NoteBody n)))"
    by (auto simp: handle_request_def get_request_def handleNoteByCommitment_def starts_with_def
        split: option.split)
  show "fst (snd (handle_request fails (get_request ''/status'' params) (Replicated r))) = 500"
    by (auto simp: handle_request_def get_request_def handleStatus_def any_read_def Let_def
        split: prod.splits)
qed

end
