(* ===== verification/Indexer_Scanner.thy ===== *)
theory Indexer_Scanner
  imports Indexer_Replicated
begin

text \<open>
  indexer/src/scanner.ts: extraction of commitment events from program logs and the poll cycle. The
  SHA-256 hash and the RPC node are arguments; the base64 decoder of \<open>Buffer\<close> is defined here.
\<close>

section \<open>Base64\<close>

definition b64_char :: "nat \<Rightarrow> char" where
  "b64_char d = char_of
     (if d < 26 then d + 65 else if d < 52 then d + 71 else if d < 62 then d - 4
      else if d = 62 then 43 else 47)"

text \<open>The decoder accepts the URL-safe characters too and skips what is outside both alphabets.\<close>

definition b64_val :: "char \<Rightarrow> nat option" where
  "b64_val c =
     (let n = of_char c :: nat in
      if 65 \<le> n \<and> n \<le> 90 then Some (n - 65)
      else if 97 \<le> n \<and> n \<le> 122 then Some (n - 71)
      else if 48 \<le> n \<and> n \<le> 57 then Some (n + 4)
      else if n = 43 \<or> n = 45 then Some 62
      else if n = 47 \<or> n = 95 then Some 63
      else None)"

fun b64_groups :: "nat list \<Rightarrow> nat list" where
  "b64_groups (a # b # c # d # ds) =
     (let n = a * 262144 + b * 4096 + c * 64 + d in
      n div 65536 # n div 256 mod 256 # n mod 256 # b64_groups ds)"
| "b64_groups [a, b, c] = (let n = a * 4096 + b * 64 + c in [n div 1024, n div 4 mod 256])"
| "b64_groups [a, b] = [(a * 64 + b) div 16]"
| "b64_groups ds = []"

definition buffer_from_base64 :: "string \<Rightarrow> byte list" where
  "buffer_from_base64 s =
     map word_of_nat (b64_groups (List.map_filter b64_val (takeWhile (\<lambda>c. c \<noteq> CHR ''='') s)))"

text \<open>The encoder the chain's logs are written with.\<close>

fun b64_digits :: "nat list \<Rightarrow> nat list" where
  "b64_digits (a # b # c # bs) =
     (let n = a * 65536 + b * 256 + c in
      n div 262144 # n div 4096 mod 64 # n div 64 mod 64 # n mod 64 # b64_digits bs)"
| "b64_digits [a, b] = (let n = a * 256 + b in [n div 1024, n div 16 mod 64, n mod 16 * 4])"
| "b64_digits [a] = [a div 4, a mod 4 * 16]"
| "b64_digits [] = []"

definition b64_pad :: "nat \<Rightarrow> string" where
  "b64_pad k = (if k mod 3 = 1 then ''=='' else if k mod 3 = 2 then ''='' else [])"

definition base64_encode :: "byte list \<Rightarrow> string" where
  "base64_encode bs = map b64_char (b64_digits (map unat bs)) @ b64_pad (length bs)"

section \<open>Event extraction\<close>

definition anchorEventDiscriminator :: "(string \<Rightarrow> byte list) \<Rightarrow> string \<Rightarrow> byte list" where
  "anchorEventDiscriminator sha256 name = subarray 0 8 (sha256 (''event:'' @ name))"

record ParsedTransaction =
  logMessages :: "string list option"
  tx_slot :: int
  tx_blockTime :: "int option"

text \<open>One event's data; \<open>None\<close> is \<open>continue\<close>.\<close>

definition parse_event :: "(string \<Rightarrow> byte list) \<Rightarrow> byte list \<Rightarrow> (int \<times> string \<times> string) option" where
  "parse_event sha256 data =
     (let discriminator = subarray 0 8 data;
          isNewCommitment = (discriminator = anchorEventDiscriminator sha256 ''NewCommitment'');
          isDeposit = (discriminator = anchorEventDiscriminator sha256 ''DepositEvent'');
          leafIdxOffset = 8 + 32;
          commitmentOffset = 8 + 32 + 4
      in if length data < 8 + 4 + 32 then None
         else if \<not> isNewCommitment \<and> \<not> isDeposit then None
         else if length data < commitmentOffset + 32 then None
         else (case read_uint_le 4 data leafIdxOffset of
             None \<Rightarrow> None
           | Some leafIndex \<Rightarrow>
               (let commitment = buffer_to_hex (subarray commitmentOffset (commitmentOffset + 32) data);
                    noteDataStart = (if isDeposit then commitmentOffset + 32 + 8 else commitmentOffset + 32);
                    encryptedNote =
                      (if length data > noteDataStart + 4
                       then (case read_uint_le 4 data noteDataStart of
                               None \<Rightarrow> []
                             | Some noteLen \<Rightarrow>
                                 (if noteLen > 0 \<and> noteLen \<le> 256 \<and> length data \<ge> noteDataStart + 4 + noteLen
                                  then buffer_to_hex (subarray (noteDataStart + 4) (noteDataStart + 4 + noteLen) data)
                                  else []))
                       else [])
                in Some (int leafIndex, commitment, encryptedNote))))"

definition log_prefix :: string where
  "log_prefix = ''Program data: ''"

definition extract_log :: "(string \<Rightarrow> byte list) \<Rightarrow> string \<Rightarrow> int \<Rightarrow> int \<Rightarrow> string \<Rightarrow> IndexedNote option" where
  "extract_log sha256 sig sl bt log =
     (if \<not> starts_with log_prefix log then None
      else (case parse_event sha256 (buffer_from_base64 (drop (length log_prefix) log)) of
              None \<Rightarrow> None
            | Some (leafIndex, cm, enc) \<Rightarrow>
                Some \<lparr>in_commitment = cm, in_leafIndex = leafIndex, in_encryptedNote = enc,
                      txSignature = sig, slot = sl, blockTime = bt\<rparr>))"

definition extractNotes :: "(string \<Rightarrow> byte list) \<Rightarrow> int \<Rightarrow> ParsedTransaction \<Rightarrow> string \<Rightarrow> IndexedNote list" where
  "extractNotes sha256 now_s tx sig =
     (case logMessages tx of
        None \<Rightarrow> []
      | Some logs \<Rightarrow>
          (let bt = (case tx_blockTime tx of None \<Rightarrow> now_s | Some t \<Rightarrow> t) in
           List.map_filter (extract_log sha256 sig (tx_slot tx) bt) logs))"

section \<open>The poll cycle\<close>

record SignatureInfo =
  signature :: string
  si_err :: bool

record NoteScanner =
  sc_store :: any_store
  lastSignature :: "string option"

text \<open>
  \<open>sigs limit until\<close> is \<open>getSignaturesForAddress\<close>, newest first; \<open>fetch\<close> is \<open>getParsedTransaction\<close>:
  \<open>Inl\<close> when it throws, \<open>Inr None\<close> when the node has no such transaction. An absent or empty
  signature is falsy.
\<close>

definition truthy :: "string option \<Rightarrow> bool" where
  "truthy s = (s \<noteq> None \<and> s \<noteq> Some [])"

definition start_scanner :: "any_store \<Rightarrow> NoteScanner" where
  "start_scanner store = \<lparr>sc_store = store, lastSignature = any_getLastSignature store\<rparr>"

definition notes_of :: "(string \<Rightarrow> byte list) \<Rightarrow> int \<Rightarrow> (string \<Rightarrow> string + ParsedTransaction option) \<Rightarrow>
    string \<Rightarrow> IndexedNote list" where
  "notes_of sha256 now_s fetch sig =
     (case fetch sig of
        Inr (Some tx) \<Rightarrow> extractNotes sha256 now_s tx sig
      | _ \<Rightarrow> [])"

fun collect :: "(string \<Rightarrow> byte list) \<Rightarrow> int \<Rightarrow> (string \<Rightarrow> string + ParsedTransaction option) \<Rightarrow>
    SignatureInfo list \<Rightarrow> IndexedNote list \<Rightarrow> string option \<Rightarrow> IndexedNote list \<times> string option" where
  "collect sha256 now_s fetch [] notes newLast = (notes, newLast)"
| "collect sha256 now_s fetch (s # ss) notes newLast =
     (if si_err s then collect sha256 now_s fetch ss notes newLast
      else collect sha256 now_s fetch ss (notes @ notes_of sha256 now_s fetch (signature s))
             (Some (signature s)))"

definition poll :: "(string \<Rightarrow> byte list) \<Rightarrow> int \<Rightarrow>
    (nat \<Rightarrow> string option \<Rightarrow> SignatureInfo list) \<Rightarrow> (string \<Rightarrow> string + ParsedTransaction option) \<Rightarrow>
    NoteScanner \<Rightarrow> NoteScanner \<times> (js_error + unit)" where
  "poll sha256 now_s sigs fetch sc =
     (let signatures = sigs 100 (if truthy (lastSignature sc) then lastSignature sc else None) in
      if length signatures = 0 then (sc, Inr ())
      else (case collect sha256 now_s fetch (rev signatures) [] None of
              (pendingNotes, newLast) \<Rightarrow>
                (if \<not> truthy newLast then (sc, Inr ())
                 else (case any_insertNotesAtomic True pendingNotes (the newLast) (sc_store sc) of
                         (store', Inl e) \<Rightarrow> (sc\<lparr>sc_store := store'\<rparr>, Inl e)
                       | (store', Inr _) \<Rightarrow>
                           (sc\<lparr>sc_store := store', lastSignature := newLast\<rparr>, Inr ())))))"

section \<open>Base64 is a codec\<close>

lemma of_char_b64: "d < 64 \<Longrightarrow> (of_char (b64_char d) :: nat) =
    (if d < 26 then d + 65 else if d < 52 then d + 71 else if d < 62 then d - 4
     else if d = 62 then 43 else 47)"
  by (simp add: b64_char_def)

lemma b64_val_alphabet: "d < 64 \<Longrightarrow> b64_val (b64_char d) = Some d"
  by (auto simp: b64_val_def Let_def of_char_b64)

lemma b64_alphabet_no_pad: "d < 64 \<Longrightarrow> b64_char d \<noteq> CHR ''=''"
proof
  assume "d < 64" "b64_char d = CHR ''=''"
  then have "b64_val (CHR ''='') = Some d"
    using b64_val_alphabet by metis
  then show False
    by (simp add: b64_val_def)
qed

lemma b64_digits_less: "\<forall>b \<in> set bs. b < 256 \<Longrightarrow> d \<in> set (b64_digits bs) \<Longrightarrow> d < 64"
proof (induction bs rule: b64_digits.induct)
  case (1 a b c bs)
  define n where "n = a * 65536 + b * 256 + c"
  have "n < 64 * 262144"
    using 1(2) by (simp add: n_def)
  then have "n div 262144 < 64"
    by (rule less_mult_imp_div_less)
  moreover have "d \<in> {n div 262144, n div 4096 mod 64, n div 64 mod 64, n mod 64} \<union> set (b64_digits bs)"
    using 1(3) by (simp add: n_def [symmetric] Let_def)
  ultimately show ?case
    using 1(1) [of n] 1(2) by (auto simp: n_def)
next
  case (2 a b)
  define n where "n = a * 256 + b"
  have "n < 64 * 1024"
    using 2(1) by (simp add: n_def)
  then have "n div 1024 < 64"
    by (rule less_mult_imp_div_less)
  moreover have "n mod 16 < 16"
    by simp
  then have "n mod 16 * 4 < 64"
    by linarith
  moreover have "d \<in> {n div 1024, n div 16 mod 64, n mod 16 * 4}"
    using 2(2) by (simp add: n_def [symmetric] Let_def)
  ultimately show ?case by auto
next
  case (3 a)
  have "a div 4 < 64"
    using 3(1) by (intro less_mult_imp_div_less) simp
  moreover have "a mod 4 < 4"
    by simp
  then have "a mod 4 * 16 < 64"
    by linarith
  ultimately show ?case
    using 3(2) by auto
qed simp

lemma split_256: "c < 256 \<Longrightarrow> (x * 256 + c) div 256 = x \<and> (x * 256 + c) mod 256 = (c :: nat)"
  by simp

lemma recombine3: "q3 * 64 + r3 = q2 \<Longrightarrow> q2 * 64 + r2 = q1 \<Longrightarrow> q1 * 64 + r1 = (n :: nat) \<Longrightarrow>
    q3 * 262144 + r3 * 4096 + r2 * 64 + r1 = n"
  by auto

lemma recombine1: "q * 4 + r = (a :: nat) \<Longrightarrow> q * 64 + r * 16 = a * 16"
  by auto

lemma recombine2: "q2 * 64 + r2 = q1 \<Longrightarrow> q1 * 16 + r1 = (n :: nat) \<Longrightarrow>
    q2 * 4096 + r2 * 64 + r1 * 4 = n * 4"
  by auto

lemma b64_three:
  "n1 * 4096 + n2 * 64 + n3 = (n :: nat) * 4 \<Longrightarrow>
     [(n1 * 4096 + n2 * 64 + n3) div 1024, (n1 * 4096 + n2 * 64 + n3) div 4 mod 256]
       = [n * 4 div 1024, n * 4 div 4 mod 256]"
  by simp

lemma b64_groups_digits: "\<forall>b \<in> set bs. b < 256 \<Longrightarrow> b64_groups (b64_digits bs) = bs"
proof (induction bs rule: b64_digits.induct)
  case (1 a b c bs)
  define n where "n = a * 65536 + b * 256 + c"
  have "n div 64 div 64 = n div 4096" "n div 4096 div 64 = n div 262144"
    by (simp_all add: div_mult2_eq [symmetric])
  then have "n div 262144 * 262144 + n div 4096 mod 64 * 4096 + n div 64 mod 64 * 64 + n mod 64 = n"
    using recombine3 [of "n div 262144" "n div 4096 mod 64" "n div 4096" "n div 64 mod 64" "n div 64" "n mod 64" n]
    by (metis div_mult_mod_eq)
  moreover have n: "n = (a * 256 + b) * 256 + c"
    by (simp add: n_def)
  have q: "n div 256 = a * 256 + b" "n mod 256 = c"
    unfolding n using 1(2) split_256 [of c "a * 256 + b"] by auto
  have "n div 256 mod 256 = b" "n div 256 div 256 = a"
    unfolding q using 1(2) split_256 [of b a] by auto
  then have "n div 65536 = a" "n div 256 mod 256 = b" "n mod 256 = c"
    using q div_mult2_eq [of n 256 256] by simp_all
  moreover have "b64_groups (b64_digits bs) = bs"
    using 1(2) by (intro 1(1)) auto
  ultimately show ?case
    by (simp only: b64_digits.simps b64_groups.simps Let_def n_def [symmetric])
next
  case (2 a b)
  define n where "n = a * 256 + b"
  have "n div 16 div 64 = n div 1024"
    by (simp add: div_mult2_eq [symmetric])
  then have "n div 1024 * 4096 + n div 16 mod 64 * 64 + n mod 16 * 4 = n * 4"
    using recombine2 [of "n div 1024" "n div 16 mod 64" "n div 16" "n mod 16" n]
    by (metis div_mult_mod_eq)
  moreover have "n * 4 div 1024 = a" "n * 4 div 4 mod 256 = b"
    using 2 by (auto simp: n_def)
  ultimately show ?case
    by (simp only: b64_digits.simps b64_groups.simps Let_def n_def [symmetric] b64_three)
next
  case (3 a)
  have "a div 4 * 64 + a mod 4 * 16 = a * 16"
    by (rule recombine1) (rule div_mult_mod_eq)
  then have "(a div 4 * 64 + a mod 4 * 16) div 16 = a"
    by (simp only: nonzero_mult_div_cancel_right)
  then show ?case by simp
qed simp

lemma map_filter_b64: "\<forall>d \<in> set ds. d < 64 \<Longrightarrow> List.map_filter b64_val (map b64_char ds) = ds"
  by (induction ds) (auto simp: List.map_filter_simps b64_val_alphabet)

lemma takeWhile_b64:
  assumes "\<forall>d \<in> set ds. d < 64"
  shows "takeWhile (\<lambda>c. c \<noteq> CHR ''='') (map b64_char ds @ b64_pad k)
    = map b64_char ds"
  using assms by (induction ds) (simp_all add: b64_pad_def b64_alphabet_no_pad)

interpretation base64: codec base64_encode "\<lambda>s. Some (buffer_from_base64 s)" "\<lambda>_. True"
proof
  fix bs :: "byte list"
  have less: "\<forall>b \<in> set (map unat bs). b < 256"
    by auto
  then have d: "\<forall>d \<in> set (b64_digits (map unat bs)). d < 64"
    using b64_digits_less by blast
  show "Some (buffer_from_base64 (base64_encode bs)) = Some bs"
    by (simp add: buffer_from_base64_def base64_encode_def takeWhile_b64 [OF d] map_filter_b64 [OF d]
        b64_groups_digits [OF less] comp_def)
qed

lemma buffer_from_base64_encode [codec_simps]: "buffer_from_base64 (base64_encode bs) = bs"
  using base64.dec_enc by simp


section \<open>What the parser reads\<close>

text \<open>The length-prefixed note bytes at the end of an event, as the parser accepts them.\<close>

definition note_text :: "byte list \<Rightarrow> string" where
  "note_text rest =
     (let k = le_value (take 4 rest) in
      if 4 < length rest \<and> 0 < k \<and> k \<le> 256 \<and> 4 + k \<le> length rest
      then buffer_to_hex (take k (drop 4 rest)) else [])"

definition discriminators_ok :: "(string \<Rightarrow> byte list) \<Rightarrow> bool" where
  "discriminators_ok sha256 \<longleftrightarrow>
     length (anchorEventDiscriminator sha256 ''NewCommitment'') = 8 \<and>
     length (anchorEventDiscriminator sha256 ''DepositEvent'') = 8 \<and>
     anchorEventDiscriminator sha256 ''NewCommitment'' \<noteq> anchorEventDiscriminator sha256 ''DepositEvent''"

lemma note_part:
  assumes "length pre = s"
  shows "(if length (pre @ rest) > s + 4
          then (case read_uint_le 4 (pre @ rest) s of
                  None \<Rightarrow> []
                | Some noteLen \<Rightarrow>
                    (if noteLen > 0 \<and> noteLen \<le> 256 \<and> length (pre @ rest) \<ge> s + 4 + noteLen
                     then buffer_to_hex (subarray (s + 4) (s + 4 + noteLen) (pre @ rest)) else []))
          else []) = note_text rest"
proof (cases "4 < length rest")
  case True
  have read: "read_uint_le 4 (pre @ rest) s = Some (le_value (take 4 rest))"
    using read_uint_le_append [of pre s "take 4 rest" 4 "drop 4 rest"] assms True by simp
  have "subarray (s + 4) (s + 4 + k) (pre @ rest) = take k (drop 4 rest)" for k
    using assms by (simp add: subarray_def)
  then show ?thesis
    using assms True unfolding read note_text_def by (auto simp: Let_def)
next
  case False
  with assms show ?thesis by (simp add: note_text_def)
qed

lemma parse_event_fields:
  assumes "discriminators_ok sha256"
    and "d = (if dep then anchorEventDiscriminator sha256 ''DepositEvent''
              else anchorEventDiscriminator sha256 ''NewCommitment'')"
    and "length pool = 32" "length leaf = 4" "length cm = 32"
  shows "parse_event sha256 (d @ pool @ leaf @ cm @ rest) =
    Some (int (le_value leaf), buffer_to_hex cm, note_text (if dep then drop 8 rest else rest))"
proof -
  let ?data = "d @ pool @ leaf @ cm @ rest"
  have d: "length d = 8"
    using assms(1,2) by (auto simp: discriminators_ok_def)
  have head: "subarray 0 8 ?data = d"
    using d by (simp add: subarray_def)
  have isdep: "d = anchorEventDiscriminator sha256 ''DepositEvent'' \<longleftrightarrow> dep"
    "d = anchorEventDiscriminator sha256 ''NewCommitment'' \<or> d = anchorEventDiscriminator sha256 ''DepositEvent''"
    using assms(1,2) by (auto simp: discriminators_ok_def)
  have leaf: "read_uint_le 4 ?data 40 = Some (le_value leaf)"
    using read_uint_le_append [of "d @ pool" 40 leaf 4 "cm @ rest"] d assms(3,4) by simp
  have cm: "subarray 44 76 ?data = cm"
    using subarray_append [of "d @ pool @ leaf" 44 cm 76 rest] d assms(3-5) by simp
  have len: "length ?data = 76 + length rest"
    using d assms(3-5) by simp
  have new: "(if length ?data > 76 + 4
          then (case read_uint_le 4 ?data 76 of None \<Rightarrow> []
                | Some noteLen \<Rightarrow>
                    (if noteLen > 0 \<and> noteLen \<le> 256 \<and> length ?data \<ge> 76 + 4 + noteLen
                     then buffer_to_hex (subarray (76 + 4) (76 + 4 + noteLen) ?data) else []))
          else []) = note_text rest"
    using note_part [of "d @ pool @ leaf @ cm" 76 rest] d assms(3-5) by (simp only: append_assoc) simp
  have old: "(if length ?data > 84 + 4
          then (case read_uint_le 4 ?data 84 of None \<Rightarrow> []
                | Some noteLen \<Rightarrow>
                    (if noteLen > 0 \<and> noteLen \<le> 256 \<and> length ?data \<ge> 84 + 4 + noteLen
                     then buffer_to_hex (subarray (84 + 4) (84 + 4 + noteLen) ?data) else []))
          else []) = note_text (drop 8 rest)"
  proof (cases "8 \<le> length rest")
    case True
    then have "length (d @ pool @ leaf @ cm @ take 8 rest) = 84"
      using d assms(3-5) by simp
    from note_part [OF this, of "drop 8 rest"] show ?thesis
      by (simp only: append_assoc append_take_drop_id)
  next
    case False
    then show ?thesis
      using len by (simp add: note_text_def)
  qed
  define D where "D = ?data"
  note facts = head leaf cm len new old
  have isnew: "d = anchorEventDiscriminator sha256 ''NewCommitment'' \<longleftrightarrow> \<not> dep"
    using isdep assms(1) by (auto simp: discriminators_ok_def)
  have "parse_event sha256 D = Some (int (le_value leaf), buffer_to_hex cm,
      note_text (if dep then drop 8 rest else rest))"
    unfolding parse_event_def Let_def facts(1) [folded D_def] isdep(1) isnew
    using facts(2-6) [folded D_def] by (cases dep) (simp_all cong: option.case_cong if_cong)
  then show ?thesis
    by (simp only: D_def)
qed

section \<open>Events as the chain writes them\<close>

text \<open>The layout in the comments of \<open>extractNotes\<close>, and the one Anchor derives from the structs.\<close>

definition commented_event :: "(string \<Rightarrow> byte list) \<Rightarrow> byte list \<Rightarrow> nat \<Rightarrow> byte list \<Rightarrow> nat option \<Rightarrow>
    byte list \<Rightarrow> byte list" where
  "commented_event sha256 pool leaf cm amount enc =
     anchorEventDiscriminator sha256 (if amount = None then ''NewCommitment'' else ''DepositEvent'')
       @ pool @ le_bytes 4 leaf @ cm
       @ (case amount of None \<Rightarrow> [] | Some a \<Rightarrow> le_bytes 8 a) @ le_bytes 4 (length enc) @ enc"

definition rust_DepositEvent :: "(string \<Rightarrow> byte list) \<Rightarrow> byte list \<Rightarrow> nat \<Rightarrow> byte list \<Rightarrow> nat \<Rightarrow> byte list \<Rightarrow>
    byte list" where
  "rust_DepositEvent sha256 pool leaf cm amount enc =
     anchorEventDiscriminator sha256 ''DepositEvent'' @ pool @ le_bytes 8 leaf @ cm @ le_bytes 8 amount
       @ le_bytes 4 (length enc) @ enc"

definition rust_NewCommitment :: "(string \<Rightarrow> byte list) \<Rightarrow> byte list \<Rightarrow> nat \<Rightarrow> byte list \<Rightarrow> byte list \<Rightarrow>
    byte list" where
  "rust_NewCommitment sha256 pool leaf cm enc =
     anchorEventDiscriminator sha256 ''NewCommitment'' @ pool @ le_bytes 8 leaf @ cm
       @ le_bytes 4 (length enc) @ enc"

lemma note_text_vec:
  "0 < length enc \<Longrightarrow> length enc \<le> 256 \<Longrightarrow> note_text (le_bytes 4 (length enc) @ enc) = buffer_to_hex enc"
  by (auto simp: note_text_def Let_def le_value_le_bytes)

lemma le_bytes_add: "le_bytes (j + k) v = le_bytes j v @ le_bytes k (v div 256 ^ j)"
  by (induction j arbitrary: v) (simp_all add: div_mult2_eq)

lemma le_bytes_zero: "le_bytes k 0 = replicate k 0"
  by (induction k) auto

lemma le_bytes_small: "v < 2 ^ 32 \<Longrightarrow> le_bytes 8 v = le_bytes 4 v @ replicate 4 0"
  using le_bytes_add [of 4 4 v] by (simp add: le_bytes_zero)

lemma extract_log_event:
  "extract_log sha256 sig sl bt (log_prefix @ base64_encode data) =
     (case parse_event sha256 data of
        None \<Rightarrow> None
      | Some (leaf, cm, enc) \<Rightarrow> Some \<lparr>in_commitment = cm, in_leafIndex = leaf, in_encryptedNote = enc,
          txSignature = sig, slot = sl, blockTime = bt\<rparr>)"
  by (simp add: extract_log_def starts_with_def codec_simps)

text \<open>
  For events laid out as the scanner's comments say, with a 32-bit leaf index, extraction is
  exact: from the log line of either event kind it recovers the leaf index, the commitment and the
  note bytes that were written, for notes of 1 to 256 bytes.
\<close>

theorem commented_events_extracted:
  assumes "discriminators_ok sha256" "length pool = 32" "length cm = 32" "leaf < 2 ^ 32"
    and "0 < length enc" "length enc \<le> 256"
  shows "extract_log sha256 sig sl bt
      (log_prefix @ base64_encode (commented_event sha256 pool leaf cm amount enc)) =
    Some \<lparr>in_commitment = buffer_to_hex cm, in_leafIndex = int leaf, in_encryptedNote = buffer_to_hex enc,
          txSignature = sig, slot = sl, blockTime = bt\<rparr>"
proof -
  let ?rest = "(case amount of None \<Rightarrow> [] | Some a \<Rightarrow> le_bytes 8 a) @ le_bytes 4 (length enc) @ enc"
  have "parse_event sha256 (commented_event sha256 pool leaf cm amount enc) =
      Some (int (le_value (le_bytes 4 leaf)), buffer_to_hex cm,
            note_text (if amount \<noteq> None then drop 8 ?rest else ?rest))"
    unfolding commented_event_def
    by (rule parse_event_fields [OF assms(1)]) (use assms(2,3) in auto)
  also have "note_text (if amount \<noteq> None then drop 8 ?rest else ?rest) = buffer_to_hex enc"
    using note_text_vec [OF assms(5,6)] by (cases amount) simp_all
  also have "le_value (le_bytes 4 leaf) = leaf"
    using assms(4) by (intro le_value_le_bytes) simp
  finally show ?thesis
    by (simp add: extract_log_event)
qed

definition sample_sha :: "string \<Rightarrow> byte list" where
  "sample_sha s = replicate 32 (word_of_nat (length s))"

lemma sample_sha_ok: "discriminators_ok sample_sha"
  by (simp add: discriminators_ok_def anchorEventDiscriminator_def sample_sha_def subarray_def)

lemma commented_events_extracted_witness:
  "extract_log sample_sha ''s'' 1 2 (log_prefix @ base64_encode
      (commented_event sample_sha (replicate 32 7) 5 (replicate 32 9) (Some 100) [1, 2, 3])) =
    Some \<lparr>in_commitment = buffer_to_hex (replicate 32 9), in_leafIndex = 5,
          in_encryptedNote = buffer_to_hex [1, 2, 3], txSignature = ''s'', slot = 1, blockTime = 2\<rparr>"
  using commented_events_extracted [OF sample_sha_ok, of "replicate 32 7" "replicate 32 9" 5 "[1, 2, 3]"]
  by simp

text \<open>
  For events as the pool program declares them, with a 64-bit leaf index, extraction is wrong
  for every leaf below \<open>2 ^ 32\<close>: the commitment stored is four zero bytes followed by the first 28
  bytes of the real one, and for a deposit below \<open>2 ^ 32\<close> base units the encrypted note is dropped.
\<close>

theorem rust_events_misread:
  assumes "discriminators_ok sha256" "length pool = 32" "length cm = 32" "leaf < 2 ^ 32" "amount < 2 ^ 32"
  shows "extract_log sha256 sig sl bt
      (log_prefix @ base64_encode (rust_DepositEvent sha256 pool leaf cm amount enc)) =
    Some \<lparr>in_commitment = buffer_to_hex (replicate 4 0 @ take 28 cm), in_leafIndex = int leaf,
          in_encryptedNote = [], txSignature = sig, slot = sl, blockTime = bt\<rparr>
    \<and> map_option in_commitment (extract_log sha256 sig sl bt
      (log_prefix @ base64_encode (rust_NewCommitment sha256 pool leaf cm enc))) =
    Some (buffer_to_hex (replicate 4 0 @ take 28 cm))"
proof -
  let ?cm = "replicate 4 0 @ take 28 cm" and ?tail = "drop 28 cm"
  have leaf: "le_bytes 8 leaf = le_bytes 4 leaf @ replicate 4 0" "le_value (le_bytes 4 leaf) = leaf"
    using le_bytes_small [OF assms(4)] le_value_le_bytes [of leaf 4] assms(4) by simp_all
  have cm: "cm = take 28 cm @ ?tail" "length ?cm = 32" "length ?tail = 4"
    using assms(3) by simp_all
  have amount: "le_bytes 8 amount = le_bytes 4 amount @ replicate 4 0"
    by (rule le_bytes_small [OF assms(5)])
  have zero: "note_text (replicate 4 0 @ r) = []" for r
    by (simp add: note_text_def Let_def numeral_eq_Suc)
  let ?dep = "anchorEventDiscriminator sha256 ''DepositEvent''"
  let ?new = "anchorEventDiscriminator sha256 ''NewCommitment''"
  let ?rd = "?tail @ le_bytes 8 amount @ le_bytes 4 (length enc) @ enc"
  have "rust_DepositEvent sha256 pool leaf cm amount enc = ?dep @ pool @ le_bytes 4 leaf @ ?cm @ ?rd"
    unfolding rust_DepositEvent_def leaf(1) by (subst cm(1)) simp
  moreover have "parse_event sha256 (?dep @ pool @ le_bytes 4 leaf @ ?cm @ ?rd)
      = Some (int (le_value (le_bytes 4 leaf)), buffer_to_hex ?cm, note_text (if True then drop 8 ?rd else ?rd))"
    by (rule parse_event_fields [OF assms(1)]) (use assms(2) cm in auto)
  moreover have "drop 8 ?rd = replicate 4 0 @ le_bytes 4 (length enc) @ enc"
    using cm(3) by (simp add: amount)
  then have "note_text (if True then drop 8 ?rd else ?rd) = []"
    by (simp only: if_True zero)
  ultimately have dep: "parse_event sha256 (rust_DepositEvent sha256 pool leaf cm amount enc)
      = Some (int leaf, buffer_to_hex ?cm, [])"
    using leaf(2) by (simp only: append_assoc)
  let ?rn = "?tail @ le_bytes 4 (length enc) @ enc"
  have "rust_NewCommitment sha256 pool leaf cm enc = ?new @ pool @ le_bytes 4 leaf @ ?cm @ ?rn"
    unfolding rust_NewCommitment_def leaf(1) by (subst cm(1)) simp
  moreover have "parse_event sha256 (?new @ pool @ le_bytes 4 leaf @ ?cm @ ?rn)
      = Some (int (le_value (le_bytes 4 leaf)), buffer_to_hex ?cm, note_text (if False then drop 8 ?rn else ?rn))"
    by (rule parse_event_fields [OF assms(1)]) (use assms(2) cm in auto)
  ultimately show ?thesis
    using dep by (simp add: extract_log_event)
qed

lemma rust_events_misread_witness:
  "map_option in_commitment (extract_log sample_sha ''s'' 1 2 (log_prefix @ base64_encode
      (rust_NewCommitment sample_sha (replicate 32 7) 5 (replicate 32 9) [1, 2, 3])))
    = Some (buffer_to_hex (replicate 4 0 @ replicate 28 9))"
  using rust_events_misread [OF sample_sha_ok, of "replicate 32 7" "replicate 32 9" 5 100]
  by simp


section \<open>The poll cycle\<close>

definition succeeded :: "SignatureInfo list \<Rightarrow> SignatureInfo list" where
  "succeeded ss = filter (\<lambda>s. \<not> si_err s) ss"

lemma collect_eq:
  "collect sha256 now_s fetch ss acc newLast =
     (acc @ concat (map (\<lambda>s. notes_of sha256 now_s fetch (signature s)) (succeeded ss)),
      if succeeded ss = [] then newLast else Some (signature (last (succeeded ss))))"
  by (induction ss arbitrary: acc newLast) (auto simp: succeeded_def)

definition new_signatures :: "(nat \<Rightarrow> string option \<Rightarrow> SignatureInfo list) \<Rightarrow> NoteScanner \<Rightarrow> SignatureInfo list" where
  "new_signatures sigs sc = sigs 100 (if truthy (lastSignature sc) then lastSignature sc else None)"

lemma poll_eq:
  assumes "succeeded (rev (new_signatures sigs sc)) = ok" "ok \<noteq> []" "signature (last ok) \<noteq> []"
  shows "poll sha256 now_s sigs fetch sc =
    (case any_insertNotesAtomic True (concat (map (\<lambda>s. notes_of sha256 now_s fetch (signature s)) ok))
            (signature (last ok)) (sc_store sc) of
       (store', Inl e) \<Rightarrow> (sc\<lparr>sc_store := store'\<rparr>, Inl e)
     | (store', Inr _) \<Rightarrow> (sc\<lparr>sc_store := store', lastSignature := Some (signature (last ok))\<rparr>, Inr ()))"
proof -
  have "new_signatures sigs sc \<noteq> []"
    using assms(1,2) by (auto simp: succeeded_def)
  then show ?thesis
    using assms
    by (simp add: poll_def new_signatures_def Let_def collect_eq truthy_def)
qed

lemma notes_of_signature: "n \<in> set (notes_of sha256 now_s fetch sig) \<Longrightarrow> txSignature n = sig"
  by (auto simp: notes_of_def extractNotes_def extract_log_def Let_def List.map_filter_def
      split: sum.splits option.splits if_splits)


definition sample_sigs :: "nat \<Rightarrow> string option \<Rightarrow> SignatureInfo list" where
  "sample_sigs limit until = [\<lparr>signature = ''t2'', si_err = True\<rparr>, \<lparr>signature = ''t1'', si_err = False\<rparr>]"

lemma sample_sigs_ok:
  "succeeded (rev (new_signatures sample_sigs sc)) = [\<lparr>signature = ''t1'', si_err = False\<rparr>]"
  by (simp add: succeeded_def new_signatures_def sample_sigs_def)


definition after_signature :: "string option \<Rightarrow> SignatureInfo list \<Rightarrow> SignatureInfo list" where
  "after_signature until h =
     (case until of None \<Rightarrow> h | Some s \<Rightarrow> tl (dropWhile (\<lambda>x. signature x \<noteq> s) h))"

text \<open>The node on the history \<open>h\<close>, oldest first.\<close>

definition node_signatures :: "SignatureInfo list \<Rightarrow> nat \<Rightarrow> string option \<Rightarrow> SignatureInfo list" where
  "node_signatures h limit until = take limit (rev (after_signature until h))"

definition rows_of :: "any_store \<Rightarrow> IndexedNote list" where
  "rows_of st = (case st of Plain s \<Rightarrow> rows s | Replicated r \<Rightarrow> rows (primary r))"

lemma fold_insert_row_subset: "set (fold insert_row ns rs) \<subseteq> set rs \<union> set ns"
proof (induction ns arbitrary: rs)
  case (Cons n ns)
  have "set (insert_row n rs) \<subseteq> insert n (set rs)"
    by (auto simp: set_insert_row)
  with Cons [of "insert_row n rs"] show ?case by auto
qed simp

lemma poll_rows:
  assumes "poll sha256 now_s sigs fetch sc = (sc', res)" "sc_store sc = Plain s"
  shows "txSignature ` set (rows_of (sc_store sc')) \<subseteq>
    txSignature ` set (rows s) \<union> signature ` set (new_signatures sigs sc)"
proof -
  let ?ok = "succeeded (rev (new_signatures sigs sc))"
  let ?ns = "concat (map (\<lambda>s. notes_of sha256 now_s fetch (signature s)) ?ok)"
  have "rows_of (sc_store sc') = rows s
      \<or> rows_of (sc_store sc') = fold insert_row ?ns (rows s)"
    using assms
    by (auto simp: poll_def new_signatures_def Let_def collect_eq rows_of_def insertNotesAtomic_def
        split: if_splits)
  moreover have "txSignature ` set ?ns \<subseteq> signature ` set (new_signatures sigs sc)"
    by (auto simp: succeeded_def dest: notes_of_signature)
  moreover have "txSignature ` set (fold insert_row ?ns (rows s)) \<subseteq> txSignature ` (set (rows s) \<union> set ?ns)"
    by (rule image_mono) (rule fold_insert_row_subset)
  ultimately show ?thesis
    unfolding image_Un by (elim disjE) (simp_all only: Un_upper1, blast)
qed

text \<open>
  A backlog of more than 100 transactions is lost: from a node that answers as documented (the
  newest signatures first, at most the limit, none before the checkpoint), a scanner without
  checkpoint stores nothing of the transactions older than the newest 100, and the next poll, over
  any later state of the chain, does not ask for them again.
\<close>

theorem backlog_is_lost:
  assumes "100 < length h" "distinct (map signature h)" "\<forall>x \<in> set h. \<not> si_err x \<and> signature x \<noteq> []"
    and "poll sha256 now_s (node_signatures h) fetch
           \<lparr>sc_store = Plain newNoteStore, lastSignature = None\<rparr> = (sc', res)"
    and "t \<in> set (take (length h - 100) h)"
  shows "res = Inr () \<and> lastSignature sc' = Some (signature (last h))
    \<and> signature t \<notin> txSignature ` set (rows_of (sc_store sc'))
    \<and> (\<forall>h2. distinct (map signature (h @ h2)) \<longrightarrow>
          signature t \<notin> signature ` set (new_signatures (node_signatures (h @ h2)) sc'))"
proof -
  let ?sc = "\<lparr>sc_store = Plain newNoteStore, lastSignature = None\<rparr>"
  have sigs: "new_signatures (node_signatures h) ?sc = take 100 (rev h)"
    by (simp add: new_signatures_def node_signatures_def truthy_def after_signature_def)
  have newest: "rev (take 100 (rev h)) = drop (length h - 100) h"
    by (simp add: take_rev)
  have all: "succeeded (drop (length h - 100) h) = drop (length h - 100) h"
    using assms(3) set_drop_subset [of "length h - 100" h]
    by (auto simp: succeeded_def filter_id_conv)
  have last: "last (drop (length h - 100) h) = last h" "drop (length h - 100) h \<noteq> []"
    using assms(1) by auto
  have "h \<noteq> []" using assms(1) by auto
  then have name: "signature (last h) \<noteq> []"
    using assms(3) by (metis last_in_set)
  have ok: "succeeded (rev (new_signatures (node_signatures h) ?sc)) = drop (length h - 100) h"
    by (simp only: sigs newest all)
  have ne: "signature (last (drop (length h - 100) h)) \<noteq> []"
    using last(1) name by simp
  from poll_eq [OF ok last(2) ne, of sha256 now_s fetch] assms(4)
  have res: "res = Inr ()" and cp: "lastSignature sc' = Some (signature (last h))"
    by (auto simp: last(1))
  have "distinct (map signature (take (length h - 100) h @ drop (length h - 100) h))"
    using assms(2) by simp
  then have disj: "signature t \<notin> signature ` set (drop (length h - 100) h)"
    using assms(5) unfolding map_append distinct_append by auto
  have "txSignature ` set (rows_of (sc_store sc')) \<subseteq> signature ` set (take 100 (rev h))"
    using poll_rows [OF assms(4), of newNoteStore] unfolding sigs by (simp add: newNoteStore_def)
  moreover have "set (take 100 (rev h)) = set (drop (length h - 100) h)"
    using newest by (metis set_rev)
  ultimately have gone: "signature t \<notin> txSignature ` set (rows_of (sc_store sc'))"
    using disj by auto
  have later: "signature t \<notin> signature ` set (new_signatures (node_signatures (h @ h2)) sc')"
    if d: "distinct (map signature (h @ h2))" for h2
  proof -
    obtain g where h: "h = g @ [last h]"
      using \<open>h \<noteq> []\<close> by (metis append_butlast_last_id)
    have "signature (last h) \<notin> signature ` set g"
      using assms(2) by (subst (asm) h) auto
    then have "\<forall>x \<in> set g. signature x \<noteq> signature (last h)"
      by (metis image_eqI)
    then have "dropWhile (\<lambda>x. signature x \<noteq> signature (last h)) (g @ [last h] @ h2) = last h # h2"
      by (subst dropWhile_append2) auto
    then have "after_signature (Some (signature (last h))) (h @ h2) = h2"
      by (subst h) (simp add: after_signature_def)
    then have "set (new_signatures (node_signatures (h @ h2)) sc') \<subseteq> set h2"
      using set_take_subset [of 100 "rev h2"]
      by (simp add: new_signatures_def node_signatures_def cp truthy_def name)
    moreover have "t \<in> set h"
      using assms(5) by (rule in_set_takeD)
    then have "signature t \<notin> signature ` set h2"
      using d by auto
    ultimately show ?thesis by blast
  qed
  show ?thesis
    using res cp gone later by blast
qed

definition sample_history :: "SignatureInfo list" where
  "sample_history = map (\<lambda>k. \<lparr>signature = replicate (Suc k) (CHR ''s''), si_err = False\<rparr>) [0..<101]"

lemma backlog_is_lost_witness:
  "\<exists>sc'. poll sample_sha 9 (node_signatures sample_history) (\<lambda>sig. Inr None)
       \<lparr>sc_store = Plain newNoteStore, lastSignature = None\<rparr> = (sc', Inr ())
     \<and> ''s'' \<notin> signature ` set (new_signatures (node_signatures sample_history) sc')"
proof -
  obtain sc' res where run: "poll sample_sha 9 (node_signatures sample_history) (\<lambda>sig. Inr None)
      \<lparr>sc_store = Plain newNoteStore, lastSignature = None\<rparr> = (sc', res)"
    by fastforce
  let ?t = "\<lparr>signature = ''s'', si_err = False\<rparr>"
  have len: "100 < length sample_history"
    by (simp add: sample_history_def)
  have "map (length \<circ> signature) sample_history = map Suc [0..<101]"
    by (simp add: sample_history_def)
  moreover have "distinct (map Suc [0..<101])"
    by (simp add: distinct_map)
  ultimately have "distinct (map length (map signature sample_history))"
    by (simp only: map_map)
  then have d: "distinct (map signature sample_history)"
    by (rule distinct_map [THEN iffD1, THEN conjunct1])
  have ok: "\<forall>x \<in> set sample_history. \<not> si_err x \<and> signature x \<noteq> []"
    by (auto simp: sample_history_def)
  have nonempty: "sample_history \<noteq> []"
    using len by auto
  have "sample_history ! 0 = ?t" "length sample_history - 100 = 1"
    by (simp_all add: sample_history_def)
  then have t: "?t \<in> set (take (length sample_history - 100) sample_history)"
    using take_Suc_conv_app_nth [of 0 sample_history] nonempty by simp
  from backlog_is_lost [OF len d ok run t] d run show ?thesis
    by (metis SignatureInfo.select_convs(1) append_Nil2)
qed

text \<open>
  With replicas configured the Solana scanner stores nothing: a poll that found a transaction
  that succeeded ends in a \<open>TypeError\<close>, leaves the store and the checkpoint as they were, and so
  does every later one.
\<close>

theorem replicated_store_stops_scanner:
  assumes "sc_store sc = Replicated r"
    and "succeeded (rev (new_signatures sigs sc)) = ok" "ok \<noteq> []" "signature (last ok) \<noteq> []"
  shows "poll sha256 now_s sigs fetch sc = (sc, Inl TypeError)"
  using poll_eq [OF assms(2-4), of sha256 now_s fetch] assms(1) by simp

lemma replicated_store_stops_scanner_witness:
  "poll sample_sha 9 sample_sigs (\<lambda>sig. Inr None) \<lparr>sc_store = Replicated replica_example, lastSignature = None\<rparr>
     = (\<lparr>sc_store = Replicated replica_example, lastSignature = None\<rparr>, Inl TypeError)"
  by (rule replicated_store_stops_scanner [OF _ sample_sigs_ok]) simp_all

end
