(* ===== verification/Indexer_Evm.thy ===== *)
theory Indexer_Evm
  imports Indexer_Replicated
begin

text \<open>
  indexer/src/evm-scanner.ts: the event handlers and the catch-up scan of the EVM pool. ethers.js
  decodes the events and answers \<open>queryFilter\<close>; both are arguments. \<open>Number(leafIndex)\<close> is exact
  below \<open>2 ^ 53\<close> and is kept as an integer.
\<close>

section \<open>State\<close>

record EvmNoteScanner =
  es_rpcUrl :: string
  poolAddress :: string
  es_store :: any_store
  lastBlock :: "int option"
  es_running :: bool

text \<open>The test \<open>^0x[0-9a-fA-F]{40}$\<close>.\<close>

definition pool_address_text :: "string \<Rightarrow> bool" where
  "pool_address_text a = (length a = 42 \<and> starts_with ''0x'' a \<and> list_all is_hex_char (drop 2 a))"

definition newEvmNoteScanner :: "string \<Rightarrow> string \<Rightarrow> any_store \<Rightarrow> js_error + EvmNoteScanner" where
  "newEvmNoteScanner rpcUrl address store =
     (if rpcUrl = [] \<or> \<not> starts_with ''http'' rpcUrl
      then Inl (Error (''EvmNoteScanner: invalid rpcUrl: '' @ rpcUrl))
      else if \<not> pool_address_text address
      then Inl (Error (''EvmNoteScanner: invalid pool address: '' @ address))
      else Inr \<lparr>es_rpcUrl = rpcUrl, poolAddress = address, es_store = store, lastBlock = None,
                 es_running = False\<rparr>)"

record event_log =
  log_blockNumber :: "int option"
  log_transactionHash :: "string option"
  log_removed :: bool

record EvmEvent =
  args :: "(string \<times> int \<times> string option) option"
  transactionHash :: string
  blockNumber :: int
  removed :: bool

section \<open>Handlers\<close>

definition strip_0x :: "string \<Rightarrow> string" where
  "strip_0x s = (if starts_with ''0x'' s then drop 2 s else s)"

definition indexed_note :: "int \<Rightarrow> string \<Rightarrow> int \<Rightarrow> string \<Rightarrow> string \<Rightarrow> int \<Rightarrow> IndexedNote" where
  "indexed_note now_s cm leaf enc tx block =
     \<lparr>in_commitment = strip_0x cm, in_leafIndex = leaf, in_encryptedNote = strip_0x enc,
      txSignature = tx, slot = block, blockTime = now_s\<rparr>"

definition handleNewCommitment :: "(nat \<Rightarrow> bool) \<Rightarrow> int \<Rightarrow> string \<Rightarrow> int \<Rightarrow> string \<Rightarrow> string \<Rightarrow> int \<Rightarrow>
    (any_store, unit) effect" where
  "handleNewCommitment fails now_s cm leaf enc tx block st =
     any_setLastEvmBlock block (any_insertNote fails (indexed_note now_s cm leaf enc tx block) st)"

definition log_block :: "event_log option \<Rightarrow> int" where
  "log_block lg = (case lg of None \<Rightarrow> 0 | Some l \<Rightarrow> (case log_blockNumber l of None \<Rightarrow> 0 | Some b \<Rightarrow> b))"

definition log_tx :: "event_log option \<Rightarrow> string" where
  "log_tx lg = (case lg of None \<Rightarrow> ''0x''
     | Some l \<Rightarrow> (case log_transactionHash l of None \<Rightarrow> ''0x'' | Some h \<Rightarrow> h))"

definition log_gone :: "event_log option \<Rightarrow> bool" where
  "log_gone lg = (case lg of None \<Rightarrow> False | Some l \<Rightarrow> log_removed l)"

definition on_NewCommitment :: "(nat \<Rightarrow> bool) \<Rightarrow> int \<Rightarrow> string \<Rightarrow> int \<Rightarrow> string \<Rightarrow> event_log option \<Rightarrow>
    (any_store, unit) effect" where
  "on_NewCommitment fails now_s cm leaf enc lg st =
     (if log_gone lg then (st, Inr ())
      else handleNewCommitment fails now_s cm leaf enc (log_tx lg) (log_block lg) st)"

definition on_DepositEvent :: "(nat \<Rightarrow> bool) \<Rightarrow> int \<Rightarrow> string \<Rightarrow> string \<Rightarrow> int \<Rightarrow> int \<Rightarrow> event_log option \<Rightarrow>
    (any_store, unit) effect" where
  "on_DepositEvent fails now_s depositor cm leaf amount lg st =
     (if log_gone lg then (st, Inr ())
      else handleNewCommitment fails now_s cm leaf [] (log_tx lg) (log_block lg) st)"

section \<open>Start and catch-up\<close>

text \<open>The block from which \<open>start\<close> resumes; a stored block that is NaN throws at \<open>BigInt\<close>.\<close>

definition resume_block :: "int \<Rightarrow> any_store \<Rightarrow> int \<Rightarrow> js_error + int" where
  "resume_block catchup st currentBlock =
     bind_result (any_getLastEvmBlock st) (\<lambda>saved.
       case saved of
         None \<Rightarrow> Inr (max 0 (currentBlock - catchup))
       | Some None \<Rightarrow> Inl RangeError
       | Some (Some b) \<Rightarrow> Inr b)"

fun handle_events :: "(nat \<Rightarrow> bool) \<Rightarrow> int \<Rightarrow> EvmEvent list \<Rightarrow> (any_store, unit) effect" where
  "handle_events fails now_s [] st = (st, Inr ())"
| "handle_events fails now_s (ev # evs) st =
     (case args ev of
        None \<Rightarrow> handle_events fails now_s evs st
      | Some (cm, leaf, enc) \<Rightarrow>
          if removed ev then handle_events fails now_s evs st
          else (case handleNewCommitment fails now_s cm leaf
                       (case enc of None \<Rightarrow> [] | Some e \<Rightarrow> e) (transactionHash ev) (blockNumber ev) st of
                  (st', Inl e) \<Rightarrow> (st', Inl e)
                | (st', Inr _) \<Rightarrow> handle_events fails now_s evs st'))"

definition CHUNK :: int where
  "CHUNK = 2000"

text \<open>\<open>query a b\<close> is \<open>queryFilter\<close> for NewCommitment over the blocks from \<open>a\<close> to \<open>b\<close>.\<close>

function chunk_loop :: "(nat \<Rightarrow> bool) \<Rightarrow> int \<Rightarrow> (int \<Rightarrow> int \<Rightarrow> EvmEvent list) \<Rightarrow> int \<Rightarrow> int \<Rightarrow>
    any_store \<Rightarrow> any_store \<times> (js_error + unit)" where
  "chunk_loop fails now_s query start toBlock st =
     (if start \<le> toBlock then
        (let end' = (if start + CHUNK - 1 < toBlock then start + CHUNK - 1 else toBlock) in
         case handle_events fails now_s (query start end') st of
           (st', Inl e) \<Rightarrow> (st', Inl e)
         | (st', Inr _) \<Rightarrow> chunk_loop fails now_s query (start + CHUNK) toBlock st')
      else (st, Inr ()))"
  by auto
termination
  by (relation "measure (\<lambda>(_, _, _, start, toBlock, _). nat (toBlock + 1 - start))") (auto simp: CHUNK_def)

declare chunk_loop.simps [simp del]

definition catchUp :: "(nat \<Rightarrow> bool) \<Rightarrow> int \<Rightarrow> (int \<Rightarrow> int \<Rightarrow> EvmEvent list) \<Rightarrow> int \<Rightarrow> int \<Rightarrow>
    (any_store, unit) effect" where
  "catchUp fails now_s query fromBlock toBlock st =
     (if toBlock \<le> fromBlock then (st, Inr ())
      else chunk_loop fails now_s query fromBlock toBlock st)"

text \<open>
  \<open>start\<close> up to its keep-alive loop, which then lets the listeners run until a heartbeat finds that
  \<open>stop\<close> was called. The outcome of a heartbeat is only logged.
\<close>

definition start_evm :: "(nat \<Rightarrow> bool) \<Rightarrow> int \<Rightarrow> (int \<Rightarrow> int \<Rightarrow> EvmEvent list) \<Rightarrow> int \<Rightarrow> int \<Rightarrow>
    (EvmNoteScanner, unit) effect" where
  "start_evm fails now_s query catchup currentBlock sc =
     (let sc1 = sc\<lparr>es_running := True\<rparr> in
      case resume_block catchup (es_store sc1) currentBlock of
        Inl e \<Rightarrow> (sc1, Inl e)
      | Inr b \<Rightarrow>
          (case catchUp fails now_s query b currentBlock (es_store sc1) of
             (st, res) \<Rightarrow> (sc1\<lparr>lastBlock := Some b, es_store := st\<rparr>, res)))"

definition stop_evm :: "EvmNoteScanner \<Rightarrow> EvmNoteScanner" where
  "stop_evm sc = sc\<lparr>es_running := False\<rparr>"

datatype scanner_event =
    NewCommitmentSeen string int string "event_log option"
  | DepositSeen string string int int "event_log option"
  | Heartbeat bool
  | StopCalled

text \<open>The second component says whether the listeners are still attached.\<close>

definition scanner_step :: "(nat \<Rightarrow> bool) \<Rightarrow> int \<Rightarrow> scanner_event \<Rightarrow> EvmNoteScanner \<times> bool \<Rightarrow> EvmNoteScanner \<times> bool" where
  "scanner_step fails now_s ev s =
     (let (sc, listening) = s in
      case ev of
        NewCommitmentSeen cm leaf enc lg \<Rightarrow>
          (if listening then (sc\<lparr>es_store := fst (on_NewCommitment fails now_s cm leaf enc lg (es_store sc))\<rparr>, True) else s)
      | DepositSeen depositor cm leaf amount lg \<Rightarrow>
          (if listening then (sc\<lparr>es_store := fst (on_DepositEvent fails now_s depositor cm leaf amount lg (es_store sc))\<rparr>, True)
           else s)
      | Heartbeat alive \<Rightarrow> (sc, listening \<and> es_running sc)
      | StopCalled \<Rightarrow> (stop_evm sc, listening))"

text \<open>Once a heartbeat follows \<open>stop\<close>, no event changes the scanner.\<close>

lemma detached_scanner_is_still:
  "\<not> es_running sc \<Longrightarrow> \<exists>sc'. fold (scanner_step fails now_s) evs (sc, False) = (sc', False) \<and> es_store sc' = es_store sc"
proof (induction evs arbitrary: sc)
  case (Cons ev evs)
  obtain sc2 where "scanner_step fails now_s ev (sc, False) = (sc2, False)" "\<not> es_running sc2" "es_store sc2 = es_store sc"
    using Cons.prems by (cases ev) (auto simp: scanner_step_def stop_evm_def)
  with Cons.IH [of sc2] show ?case by auto
qed simp

lemma stopped_scanner_detaches:
  "\<exists>sc'. fold (scanner_step fails now_s) (StopCalled # Heartbeat alive # evs) (sc, True) = (sc', False)
     \<and> es_store sc' = es_store sc"
proof -
  have "fold (scanner_step fails now_s) (StopCalled # Heartbeat alive # evs) (sc, True)
      = fold (scanner_step fails now_s) evs (stop_evm sc, False)"
    by (simp add: scanner_step_def [of _ _ StopCalled] scanner_step_def [of _ _ "Heartbeat alive"] stop_evm_def)
  then show ?thesis
    using detached_scanner_is_still [of "stop_evm sc" fails now_s evs] by (simp add: stop_evm_def)
qed

section \<open>Catch-up over the whole range\<close>

definition live :: "EvmEvent \<Rightarrow> bool" where
  "live ev = (args ev \<noteq> None \<and> \<not> removed ev)"

definition note_of_event :: "int \<Rightarrow> EvmEvent \<Rightarrow> IndexedNote" where
  "note_of_event now_s ev =
     (case args ev of
        None \<Rightarrow> undefined
      | Some (cm, leaf, enc) \<Rightarrow>
          indexed_note now_s cm leaf (case enc of None \<Rightarrow> [] | Some e \<Rightarrow> e) (transactionHash ev) (blockNumber ev))"

text \<open>What handling events leaves in a plain store.\<close>

definition after_events :: "int \<Rightarrow> EvmEvent list \<Rightarrow> NoteStore \<Rightarrow> NoteStore" where
  "after_events now_s evs s =
     fold (\<lambda>ev s. setLastEvmBlock (blockNumber ev) (insertNote (note_of_event now_s ev) s)) (filter live evs) s"

lemma handle_events_plain:
  "handle_events fails now_s evs (Plain s) = (Plain (after_events now_s evs s), Inr ())"
proof (induction evs arbitrary: s)
  case (Cons ev evs)
  then show ?case
    by (auto simp: after_events_def live_def note_of_event_def handleNewCommitment_def split: option.splits)
qed (simp add: after_events_def)

lemma after_events_append: "after_events now_s (xs @ ys) s = after_events now_s ys (after_events now_s xs s)"
  by (simp add: after_events_def)

text \<open>\<open>queryFilter\<close> as documented: the events of the log in the block range, in order.\<close>

definition query_log :: "EvmEvent list \<Rightarrow> int \<Rightarrow> int \<Rightarrow> EvmEvent list" where
  "query_log log a b = filter (\<lambda>ev. a \<le> blockNumber ev \<and> blockNumber ev \<le> b) log"

lemma query_log_split:
  assumes "sorted (map blockNumber log)" "a \<le> m + 1" "m \<le> b"
  shows "query_log log a b = query_log log a m @ query_log log (m + 1) b"
  using assms(1)
proof (induction log)
  case (Cons ev log)
  have later: "query_log log a m = []" if "m < blockNumber ev"
    using Cons.prems that by (force simp: query_log_def filter_empty_conv)
  consider "blockNumber ev < a" | "a \<le> blockNumber ev" "blockNumber ev \<le> m" | "m < blockNumber ev" "blockNumber ev \<le> b"
    | "b < blockNumber ev"
    by linarith
  then show ?case
  proof cases
    case 3
    with Cons later assms(2,3) show ?thesis
      by (auto simp: query_log_def)
  qed (use Cons assms(2,3) in \<open>auto simp: query_log_def\<close>)
qed (simp add: query_log_def)

lemma chunk_loop_plain:
  assumes "sorted (map blockNumber log)"
  shows "chunk_loop fails now_s (query_log log) a b (Plain s)
    = (Plain (after_events now_s (query_log log a b) s), Inr ())"
proof (induction "nat (b + 1 - a)" arbitrary: a s rule: less_induct)
  case less
  show ?case
  proof (cases "a + CHUNK - 1 < b")
    case True
    have split: "query_log log a b = query_log log a (a + CHUNK - 1) @ query_log log (a + CHUNK) b"
    proof -
      have "query_log log a b = query_log log a (a + CHUNK - 1) @ query_log log (a + CHUNK - 1 + 1) b"
        by (rule query_log_split [OF assms]) (use True in \<open>simp_all add: CHUNK_def\<close>)
      then show ?thesis
        by (simp only: diff_add_cancel)
    qed
    have "chunk_loop fails now_s (query_log log) (a + CHUNK) b (Plain (after_events now_s (query_log log a (a + CHUNK - 1)) s))
      = (Plain (after_events now_s (query_log log (a + CHUNK) b) (after_events now_s (query_log log a (a + CHUNK - 1)) s)), Inr ())"
      using True by (intro less.hyps) (simp add: CHUNK_def)
    then show ?thesis
      using True by (subst chunk_loop.simps)
        (simp add: handle_events_plain split after_events_append CHUNK_def)
  next
    case False
    then have stop: "chunk_loop fails now_s (query_log log) (a + CHUNK) b st = (st, Inr ())" for st
      by (subst chunk_loop.simps) simp
    show ?thesis
    proof (cases "a \<le> b")
      case True
      with False stop show ?thesis
        by (subst chunk_loop.simps) (simp add: handle_events_plain Let_def)
    next
      case out: False
      then have "query_log log a b = []"
        by (auto simp: query_log_def filter_empty_conv)
      with out show ?thesis
        by (subst chunk_loop.simps) (simp add: after_events_def)
    qed
  qed
qed

lemma after_events_get:
  "getNoteByCommitment c (after_events now_s evs s)
     = getNoteByCommitment c (fold insertNote (map (note_of_event now_s) (filter live evs)) s)"
proof -
  have rows: "rows (setLastEvmBlock b t) = rows t" for b t
    by (simp add: setLastEvmBlock_def)
  have "rows (fold (\<lambda>ev s. setLastEvmBlock (blockNumber ev) (insertNote (note_of_event now_s ev) s)) evs t)
      = rows (fold insertNote (map (note_of_event now_s) evs) u)" if "rows t = rows u" for evs t u
    using that by (induction evs arbitrary: t u) (simp_all add: rows insertNote_def)
  then show ?thesis
    unfolding after_events_def by (intro get_same_rows) simp
qed


definition sample_event :: EvmEvent where
  "sample_event = \<lparr>args = Some (''0xaa'', 4, Some ''0xbeef''), transactionHash = ''0x1'', blockNumber = 7, removed = False\<rparr>"


text \<open>
  A deposit event seen before the commitment event of the same commitment loses the encrypted
  note for good: the deposit handler stores the commitment with an empty note, and the later event
  with the note is ignored as a duplicate.
\<close>

theorem deposit_event_loses_note:
  assumes "store_ok s" "getNoteByCommitment (strip_0x cm) s = None" "\<not> log_gone lg" "\<not> log_gone lg'"
  shows "\<exists>s' s'' n. on_DepositEvent fails t depositor cm leaf amount lg (Plain s) = (Plain s', Inr ())
    \<and> on_NewCommitment fails t' cm leaf enc lg' (Plain s') = (Plain s'', Inr ())
    \<and> getNoteByCommitment (strip_0x cm) s'' = Some n \<and> in_encryptedNote n = []"
proof -
  let ?n = "indexed_note t cm leaf [] (log_tx lg) (log_block lg)"
  let ?s' = "setLastEvmBlock (log_block lg) (insertNote ?n s)"
  let ?s'' = "setLastEvmBlock (log_block lg')
      (insertNote (indexed_note t' cm leaf enc (log_tx lg') (log_block lg')) ?s')"
  have rows: "getNoteByCommitment c (setLastEvmBlock b t) = getNoteByCommitment c t" for c b t
    by (rule get_same_rows) (simp add: setLastEvmBlock_def)
  have key: "in_commitment ?n = strip_0x cm" "in_encryptedNote ?n = []"
    by (simp_all add: indexed_note_def strip_0x_def starts_with_def)
  have first: "getNoteByCommitment (strip_0x cm) ?s' = Some ?n"
    unfolding rows using assms(2) key by (simp add: getNoteByCommitment_insert [OF assms(1)])
  have ok: "store_ok ?s'"
    using table.put_ok [OF assms(1)] by (simp add: store_ok_def setLastEvmBlock_def)
  have "getNoteByCommitment (strip_0x cm) ?s'' = Some ?n"
    unfolding rows using first by (simp add: getNoteByCommitment_insert [OF ok])
  then show ?thesis
    using assms(3,4) key
    by (intro exI [of _ ?s'] exI [of _ ?s''] exI [of _ ?n])
      (simp add: on_DepositEvent_def on_NewCommitment_def handleNewCommitment_def)
qed

lemma deposit_event_loses_note_witness:
  "\<exists>s' s'' n. on_DepositEvent (\<lambda>i. False) 1 ''0xd'' ''0xaa'' 4 100 None (Plain newNoteStore) = (Plain s', Inr ())
    \<and> on_NewCommitment (\<lambda>i. False) 2 ''0xaa'' 4 ''0xbeef'' None (Plain s') = (Plain s'', Inr ())
    \<and> getNoteByCommitment ''aa'' s'' = Some n \<and> in_encryptedNote n = []"
  using deposit_event_loses_note [of newNoteStore "''0xaa''" None None "\<lambda>i. False" 1 "''0xd''" 4 100 2 "''0xbeef''"]
  by (simp add: newNoteStore_def store_ok_def getNoteByCommitment_def log_gone_def strip_0x_def starts_with_def)

end
