(* ===== verification/Sdk_Stealth.thy ===== *)
theory Sdk_Stealth
  imports Sdk_Encryption
begin

text \<open>
  sdk/typescript/src/stealth.ts: one-time owners by Diffie-Hellman on BabyJubJub, and the key pairs
  that note encryption uses as well. The curve record of \<open>Sdk_Encryption\<close> stands for
  circomlibjs; the 32 random bytes of each draw are arguments. \<open>getBabyjub\<close> and \<open>getPoseidon\<close>
  only cache the library.
\<close>

section \<open>Data\<close>

record StealthMetaAddress =
  spendingPubkey :: string
  viewingPubkey :: "string \<times> string"

record StealthSendResult =
  stealthOwner :: string
  sharedSecret :: string
  ephemeralPubkey :: "string \<times> string"
  ephemeralKey :: string

record StealthScanResult =
  isOurs :: bool
  scannedSecret :: "string option"

section \<open>Operations\<close>

definition field_hex :: "'f curve \<Rightarrow> 'f \<Rightarrow> string" where
  "field_hex C el = pad_start 64 (CHR ''0'') (bigint_to_string 16 (toObject C el))"

definition hexToFieldBjj :: "'f curve \<Rightarrow> string \<Rightarrow> js_error + 'f" where
  "hexToFieldBjj C hex =
     (case bigint_of_hex hex of None \<Rightarrow> Inl SyntaxError | Some v \<Rightarrow> Inr (fe C v))"

text \<open>A random draw as a scalar: reduced modulo the subgroup order, zero replaced by one.\<close>

definition scalar_of_bytes :: "'f curve \<Rightarrow> byte list \<Rightarrow> js_error + int" where
  "scalar_of_bytes C bytes =
     (case bigint_of_hex (bytesToHex bytes) of
        None \<Rightarrow> Inl SyntaxError
      | Some raw \<Rightarrow> (let s = raw mod subOrder C in Inr (if s = 0 then 1 else s)))"

definition scalar_hex :: "int \<Rightarrow> string" where
  "scalar_hex s = pad_start 64 (CHR ''0'') (bigint_to_string 16 s)"

definition stealthSend :: "'f curve \<Rightarrow> byte list \<Rightarrow> StealthMetaAddress \<Rightarrow> js_error + StealthSendResult" where
  "stealthSend C ephemeralBytes recipientMeta =
     bind_result (scalar_of_bytes C ephemeralBytes) (\<lambda>ephemeralScalar.
     (let R = mulPoint C (base8 C) ephemeralScalar in
      bind_result (hexToFieldBjj C (fst (viewingPubkey recipientMeta))) (\<lambda>vx.
      bind_result (hexToFieldBjj C (snd (viewingPubkey recipientMeta))) (\<lambda>vy.
      (let sharedPoint = mulPoint C (vx, vy) ephemeralScalar;
           ssHash = poseidonF C [fst sharedPoint, snd sharedPoint]
       in bind_result (hexToFieldBjj C (spendingPubkey recipientMeta)) (\<lambda>sp.
          Inr \<lparr>stealthOwner = field_hex C (poseidonF C [sp, ssHash]),
               sharedSecret = field_hex C ssHash,
               ephemeralPubkey = (field_hex C (fst R), field_hex C (snd R)),
               ephemeralKey = scalar_hex ephemeralScalar\<rparr>))))))"

definition stealthScan :: "'f curve \<Rightarrow> string \<Rightarrow> string \<Rightarrow> string \<times> string \<Rightarrow> string \<Rightarrow>
    js_error + StealthScanResult" where
  "stealthScan C viewKey spendPub ephPub noteOwner =
     (case bigint_of_hex viewKey of
        None \<Rightarrow> Inl SyntaxError
      | Some v \<Rightarrow>
          (let viewingScalar = v mod subOrder C in
           if viewingScalar = 0 then Inr \<lparr>isOurs = False, scannedSecret = None\<rparr>
           else bind_result (hexToFieldBjj C (fst ephPub)) (\<lambda>ex.
                bind_result (hexToFieldBjj C (snd ephPub)) (\<lambda>ey.
                (let sharedPoint = mulPoint C (ex, ey) viewingScalar;
                     ssHash = poseidonF C [fst sharedPoint, snd sharedPoint];
                     secret = field_hex C ssHash
                 in bind_result (hexToFieldBjj C spendPub) (\<lambda>sp.
                    (if field_hex C (poseidonF C [sp, ssHash]) = noteOwner
                     then Inr \<lparr>isOurs = True, scannedSecret = Some secret\<rparr>
                     else Inr \<lparr>isOurs = False, scannedSecret = None\<rparr>)))))))"

definition deriveStealthSpendingKey :: "(int list \<Rightarrow> int) \<Rightarrow> string \<Rightarrow> string \<Rightarrow> js_error + string" where
  "deriveStealthSpendingKey poseidon key secret =
     bind_result (hexToField key) (\<lambda>k.
     bind_result (hexToField secret) (\<lambda>s.
       Inr (poseidonHashHex poseidon [k, s])))"

definition generateBjjKeypair :: "'f curve \<Rightarrow> byte list \<Rightarrow> js_error + string \<times> string \<times> string" where
  "generateBjjKeypair C secretBytes =
     bind_result (scalar_of_bytes C secretBytes) (\<lambda>secret.
     (let pubPoint = mulPoint C (base8 C) secret in
      Inr (scalar_hex secret, field_hex C (fst pubPoint), field_hex C (snd pubPoint))))"

section \<open>Key pairs\<close>

lemma field_hex_eq: "field_hex C x = fieldToHex (toObject C x)"
  by (simp add: field_hex_def fieldToHex_def)

lemma scalar_hex_eq: "scalar_hex s = fieldToHex s"
  by (simp add: scalar_hex_def fieldToHex_def)

lemma hexToFieldBjj_field_hex [simp]: "curve_ok C \<Longrightarrow> hexToFieldBjj C (field_hex C x) = Inr x"
  by (simp add: hexToFieldBjj_def field_hex_eq curve_ok_def)

lemma scalar_range:
  assumes "scalar_of_bytes C bytes = Inr s" "1 < subOrder C"
  shows "0 < s \<and> s < subOrder C"
proof -
  obtain raw where "s = (if raw mod subOrder C = 0 then 1 else raw mod subOrder C)"
    using assms(1) by (auto simp: scalar_of_bytes_def Let_def split: option.splits)
  moreover have "0 \<le> raw mod subOrder C" "raw mod subOrder C < subOrder C"
    using assms(2) by simp_all
  ultimately show ?thesis
    using assms(2) by (cases "raw mod subOrder C = 0") (simp_all add: less_le)
qed

lemma scalar_returns: "bytes \<noteq> [] \<Longrightarrow> \<exists>s. scalar_of_bytes C bytes = Inr s"
  using bigint_of_hex_bytes [of bytes] by (auto simp: scalar_of_bytes_def codec_simps Let_def)

lemma generated_key:
  assumes "generateBjjKeypair C bytes = Inr (sk, pk)" "1 < subOrder C"
  obtains s where "0 < s" "s < subOrder C" "sk = fieldToHex s"
    "pk = point_hex C (mulPoint C (base8 C) s)"
proof -
  obtain s where "scalar_of_bytes C bytes = Inr s"
    "sk = fieldToHex s" "pk = point_hex C (mulPoint C (base8 C) s)"
    using assms(1)
    by (auto simp: generateBjjKeypair_def bind_result_Inr_iff Let_def scalar_hex_eq field_hex_eq point_hex_def)
  with scalar_range [OF this(1) assms(2)] show thesis
    by (intro that) auto
qed

lemma generated_key_pair:
  "generateBjjKeypair C bytes = Inr (sk, pk) \<Longrightarrow> 1 < subOrder C \<Longrightarrow> key_pair C sk pk"
  by (erule (1) generated_key) (force simp: key_pair_def)

section \<open>Agreement of sender and recipient\<close>

lemma curve_commutes:
  "curve_ok C \<Longrightarrow> mulPoint C (mulPoint C (base8 C) a) b = mulPoint C (mulPoint C (base8 C) b) a"
  by (simp add: curve_ok_def)

lemma bigint_of_hex_scalar: "0 < s \<Longrightarrow> s < n \<Longrightarrow> bigint_of_hex (fieldToHex s) = Some s \<and> s mod n = s"
  by simp

lemma stealthSend_form:
  assumes "curve_ok C" "1 < subOrder C" "viewingPubkey m = point_hex C V"
    and "stealthSend C ephemeralBytes m = Inr r"
  obtains s sp where "0 < s" "s < subOrder C" "hexToFieldBjj C (spendingPubkey m) = Inr sp"
    "ephemeralPubkey r = point_hex C (mulPoint C (base8 C) s)" "ephemeralKey r = fieldToHex s"
    "sharedSecret r = field_hex C (poseidonF C [fst (mulPoint C V s), snd (mulPoint C V s)])"
    "stealthOwner r =
       field_hex C (poseidonF C [sp, poseidonF C [fst (mulPoint C V s), snd (mulPoint C V s)]])"
proof -
  have V: "fst (viewingPubkey m) = field_hex C (fst V)" "snd (viewingPubkey m) = field_hex C (snd V)"
    using assms(3) by (simp_all add: point_hex_def field_hex_eq)
  obtain s sp where s: "scalar_of_bytes C ephemeralBytes = Inr s"
    and "hexToFieldBjj C (spendingPubkey m) = Inr sp"
    and "r = \<lparr>stealthOwner = field_hex C (poseidonF C [sp, poseidonF C [fst (mulPoint C V s), snd (mulPoint C V s)]]),
         sharedSecret = field_hex C (poseidonF C [fst (mulPoint C V s), snd (mulPoint C V s)]),
         ephemeralPubkey = (field_hex C (fst (mulPoint C (base8 C) s)), field_hex C (snd (mulPoint C (base8 C) s))),
         ephemeralKey = scalar_hex s\<rparr>"
    using assms(4) by (auto simp: stealthSend_def bind_result_Inr_iff Let_def V assms(1))
  with scalar_range [OF s assms(2)] show thesis
    by (intro that [of s sp]) (auto simp: point_hex_def field_hex_eq scalar_hex_eq)
qed

lemma stealthScan_eq:
  assumes "curve_ok C" "0 < v" "v < subOrder C" "hexToFieldBjj C sp = Inr p"
  shows "stealthScan C (fieldToHex v) sp (point_hex C R) noteOwner =
     (let S = mulPoint C R v; ss = poseidonF C [fst S, snd S] in
      Inr (if field_hex C (poseidonF C [p, ss]) = noteOwner
           then \<lparr>isOurs = True, scannedSecret = Some (field_hex C ss)\<rparr>
           else \<lparr>isOurs = False, scannedSecret = None\<rparr>))"
proof -
  have R: "hexToFieldBjj C (fst (point_hex C R)) = Inr (fst R)" "hexToFieldBjj C (snd (point_hex C R)) = Inr (snd R)"
    using assms(1) by (simp_all add: point_hex_def field_hex_eq [symmetric])
  show ?thesis
    using assms(2-4) by (simp add: stealthScan_def R Let_def)
qed

section \<open>A small curve and cipher\<close>

text \<open>
  Parameters on which the hypotheses hold: a curve over bytes with multiplication as the group
  action, and a cipher that shifts by a checksum of key and vector and appends it as the tag.
\<close>

definition byte_curve :: "byte curve" where
  "byte_curve = \<lparr>mulPoint = (\<lambda>(x, y) k. (x * word_of_int k, y * word_of_int k)), base8 = (1, 3),
     subOrder = 256, toObject = uint, fe = word_of_int, poseidonF = (\<lambda>xs. sum_list xs + 7)\<rparr>"

definition shift_cipher :: cipher where
  "shift_cipher = \<lparr>hkdf = (\<lambda>ikm salt info. ikm @ salt),
     aes_encrypt = (\<lambda>k iv p. map (\<lambda>b. b + sum_list (k @ iv)) p @ [sum_list (k @ iv)]),
     aes_decrypt = (\<lambda>k iv c. if c \<noteq> [] \<and> last c = sum_list (k @ iv)
        then Some (map (\<lambda>b. b - sum_list (k @ iv)) (butlast c)) else None)\<rparr>"

lemma byte_curve_ok: "curve_ok byte_curve"
proof -
  have "uint x < 16 ^ 64" for x :: byte
    using uint_lt2p [of x] by simp
  then show ?thesis
    by (simp add: curve_ok_def byte_curve_def ac_simps)
qed

lemma shift_cipher_ok: "cipher_ok shift_cipher"
  by (simp add: cipher_ok_def shift_cipher_def comp_def)

section \<open>Properties\<close>

text \<open>
  A stealth note is found by its recipient and by no other owner test: for a viewing key pair
  the SDK generated, what \<open>stealthSend\<close> returns is recognised by \<open>stealthScan\<close> with the shared
  secret of the sender, whatever bytes were drawn on both sides; with any other owner text the
  same scan says that the note is not ours.
\<close>

theorem stealth_scan_finds_own:
  assumes "curve_ok C" "1 < subOrder C"
    and "generateBjjKeypair C secretBytes = Inr (viewKey, viewPub)"
    and "stealthSend C ephemeralBytes \<lparr>spendingPubkey = spendPub, viewingPubkey = viewPub\<rparr> = Inr r"
  shows "stealthScan C viewKey spendPub (ephemeralPubkey r) (stealthOwner r) =
      Inr \<lparr>isOurs = True, scannedSecret = Some (sharedSecret r)\<rparr>
    \<and> (\<forall>noteOwner. noteOwner \<noteq> stealthOwner r \<longrightarrow>
        stealthScan C viewKey spendPub (ephemeralPubkey r) noteOwner =
          Inr \<lparr>isOurs = False, scannedSecret = None\<rparr>)"
proof -
  obtain v where v: "0 < v" "v < subOrder C" and key: "viewKey = fieldToHex v"
    and pub: "viewPub = point_hex C (mulPoint C (base8 C) v)"
    using generated_key [OF assms(3,2)] .
  let ?V = "mulPoint C (base8 C) v" and ?m = "\<lparr>spendingPubkey = spendPub, viewingPubkey = viewPub\<rparr>"
  have "viewingPubkey ?m = point_hex C ?V"
    by (simp add: pub)
  then obtain s sp where "0 < s" "s < subOrder C" and sp: "hexToFieldBjj C (spendingPubkey ?m) = Inr sp"
    and eph: "ephemeralPubkey r = point_hex C (mulPoint C (base8 C) s)" "ephemeralKey r = fieldToHex s"
    and r: "sharedSecret r = field_hex C (poseidonF C [fst (mulPoint C ?V s), snd (mulPoint C ?V s)])"
      "stealthOwner r =
         field_hex C (poseidonF C [sp, poseidonF C [fst (mulPoint C ?V s), snd (mulPoint C ?V s)]])"
    by (rule stealthSend_form [OF assms(1,2) _ assms(4)])
  have agree: "mulPoint C (mulPoint C (base8 C) s) v = mulPoint C ?V s"
    by (rule curve_commutes [OF assms(1)])
  have "hexToFieldBjj C spendPub = Inr sp"
    using sp by simp
  from stealthScan_eq [OF assms(1) v this, of "mulPoint C (base8 C) s"] show ?thesis
    by (simp add: key eph(1) agree r Let_def)
qed

lemma stealth_scan_finds_own_witness:
  "\<exists>viewKey viewPub r. generateBjjKeypair byte_curve (replicate 31 0 @ [5]) = Inr (viewKey, viewPub)
     \<and> stealthSend byte_curve (replicate 32 9) \<lparr>spendingPubkey = ''2a'', viewingPubkey = viewPub\<rparr> = Inr r
     \<and> stealthScan byte_curve viewKey ''2a'' (ephemeralPubkey r) (stealthOwner r) =
         Inr \<lparr>isOurs = True, scannedSecret = Some (sharedSecret r)\<rparr>"
proof -
  have order: "1 < subOrder byte_curve"
    by (simp add: byte_curve_def)
  obtain s where s: "scalar_of_bytes byte_curve (replicate 31 0 @ [5]) = Inr s"
    using scalar_returns [of "replicate 31 0 @ [5]"] by auto
  then have key: "generateBjjKeypair byte_curve (replicate 31 0 @ [5]) =
      Inr (scalar_hex s, point_hex byte_curve (mulPoint byte_curve (base8 byte_curve) s))"
    by (simp add: generateBjjKeypair_def point_hex_def field_hex_eq Let_def)
  obtain e where "scalar_of_bytes byte_curve (replicate 32 9) = Inr e"
    using scalar_returns [of "replicate 32 9"] by auto
  moreover have "hexToFieldBjj byte_curve ''2a'' = Inr 42"
    by code_simp
  ultimately have "\<exists>r. stealthSend byte_curve (replicate 32 9)
      \<lparr>spendingPubkey = ''2a'', viewingPubkey = point_hex byte_curve (mulPoint byte_curve (base8 byte_curve) s)\<rparr> = Inr r"
    by (simp add: stealthSend_def Let_def point_hex_def field_hex_eq [symmetric] byte_curve_ok)
  with key stealth_scan_finds_own [OF byte_curve_ok order key] show ?thesis
    by blast
qed

text \<open>
  C39. An encrypted note reaches its recipient: for a key pair the SDK generated, encryption
  returns as soon as one draw is not a multiple of the subgroup order, and whatever it returns
  decrypts under the secret key to the plaintext with its value reduced modulo \<open>2 ^ 64\<close>, so to the
  plaintext itself for a 64-bit value, and is found by a scan of any batch that contains it.
\<close>

theorem encrypted_note_reaches_recipient:
  assumes "curve_ok C" "cipher_ok A" "1 < subOrder C" "length iv = IV_LENGTH"
    and "generateBjjKeypair C secretBytes = Inr (sk, pk)"
    and "hash_text (pt_blinding p)" "hash_text (pt_assetId p)"
    and "d \<in> set draws" "\<forall>x \<in> set draws. length x = 32"
    and "bigint_of_hex (bytesToHex d) = Some raw" "raw mod subOrder C \<noteq> 0"
  shows "\<exists>e. encryptNote C A draws iv p pk = Some (Inr e)
    \<and> decryptNote C A e sk = Some (p\<lparr>pt_value := pt_value p mod 2 ^ 64\<rparr>)
    \<and> (plaintext_ok p \<longrightarrow> (\<forall>batch. e \<in> set batch \<longrightarrow> p \<in> set (scanNotes C A batch sk)))"
proof -
  obtain s where "pk = point_hex C (mulPoint C (base8 C) s)"
    using generated_key [OF assms(5,3)] .
  from encrypt_returns [OF assms(1) this assms(8-11)]
  obtain e where e: "encryptNote C A draws iv p pk = Some (Inr e)" by blast
  have dec: "decryptNote C A e sk = decodePlaintext (encodePlaintext p)"
    by (rule decrypt_of_encrypt [OF assms(1,2) generated_key_pair [OF assms(5,3)] assms(4) e])
  then have p: "decryptNote C A e sk = Some (p\<lparr>pt_value := pt_value p mod 2 ^ 64\<rparr>)"
    by (simp add: decode_encode_value hash_text_bytes assms(6,7))
  have "p \<in> set (scanNotes C A batch sk)" if "plaintext_ok p" "e \<in> set batch" for batch
  proof -
    have "decryptNote C A e sk = Some p"
      using that(1) dec plaintext_layout.dec_enc by simp
    with that(2) show ?thesis
      by (force simp: scanNotes_def List.map_filter_def)
  qed
  with e p show ?thesis by blast
qed

lemma encrypted_note_reaches_recipient_witness:
  "\<exists>sk pk e. generateBjjKeypair byte_curve (replicate 31 0 @ [5]) = Inr (sk, pk)
     \<and> encryptNote byte_curve shift_cipher [replicate 32 0, replicate 31 0 @ [9]] (replicate 12 1)
         \<lparr>pt_value = 2 ^ 64 + 7, pt_blinding = buffer_to_hex (replicate 32 3),
          pt_assetId = buffer_to_hex (replicate 32 0)\<rparr> pk = Some (Inr e)
     \<and> map_option pt_value (decryptNote byte_curve shift_cipher e sk) = Some 7"
proof -
  let ?p = "\<lparr>pt_value = 2 ^ 64 + 7, pt_blinding = buffer_to_hex (replicate 32 3),
      pt_assetId = buffer_to_hex (replicate 32 0)\<rparr>"
  obtain sk pk where key: "generateBjjKeypair byte_curve (replicate 31 0 @ [5]) = Inr (sk, pk)"
    using scalar_returns [of "replicate 31 0 @ [5]" byte_curve]
    by (auto simp: generateBjjKeypair_def Let_def)
  have raw: "bigint_of_hex (bytesToHex (replicate 31 0 @ [9])) = Some 9"
    by code_simp
  have order: "subOrder byte_curve = 256"
    by (simp add: byte_curve_def)
  have hex: "hash_text (buffer_to_hex (replicate 32 b))" for b
    unfolding hash_text_def by (rule exI [of _ "replicate 32 b"]) simp
  from encrypted_note_reaches_recipient [OF byte_curve_ok shift_cipher_ok _ _ key, of "replicate 12 1" ?p
      "replicate 31 0 @ [9]" "[replicate 32 0, replicate 31 0 @ [9]]" 9]
  obtain e where "encryptNote byte_curve shift_cipher [replicate 32 0, replicate 31 0 @ [9]] (replicate 12 1) ?p pk = Some (Inr e)"
    "decryptNote byte_curve shift_cipher e sk = Some (?p\<lparr>pt_value := pt_value ?p mod 2 ^ 64\<rparr>)"
    by (auto simp: raw order hex IV_LENGTH_def)
  with key show ?thesis
    by auto
qed

end
