(* ===== verification/Sdk_Client.thy ===== *)
theory Sdk_Client
  imports Sdk_Wallet_Session Sdk_Prover Sdk_Rpc
begin

text \<open>
  sdk/typescript/src/client.ts: the instruction encoders, the account lists and the deposit,
  transfer and withdraw flows of \<open>HolancClient\<close>. web3.js, the prover back end and the Poseidon
  function are arguments, collected in \<open>client_env\<close>; a public key is its 32 bytes.
\<close>

section \<open>State and parameters\<close>

type_synonym pubkey = "byte list"

record account_meta =
  acct :: pubkey
  isSigner :: bool
  isWritable :: bool

record instruction =
  programId :: pubkey
  ix_keys :: "account_meta list"
  ix_data :: "byte list"

text \<open>
  \<open>pda\<close> is \<open>PublicKey.findProgramAddressSync\<close>, which throws for a seed of more than 32 bytes;
  \<open>computeLimit\<close> is \<open>ComputeBudgetProgram.setComputeUnitLimit\<close>; \<open>sendTx\<close> signs, sends and
  confirms a transaction over one connection.
\<close>

record 'c client_env =
  poseidon_fn :: "int list \<Rightarrow> int"
  full_prove_fn :: full_prove
  pda :: "byte list list \<Rightarrow> pubkey \<Rightarrow> js_error + pubkey"
  computeLimit :: "int \<Rightarrow> instruction"
  sendTx :: "instruction list \<Rightarrow> pubkey \<Rightarrow> ('c, string) rpc_call"
  getAccountInfo :: "pubkey \<Rightarrow> ('c, byte list option) rpc_call"
  toBase58 :: "pubkey \<Rightarrow> string"
  POOL_PROGRAM_ID :: pubkey
  VERIFIER_PROGRAM_ID :: pubkey
  NULLIFIER_PROGRAM_ID :: pubkey
  BRIDGE_PROGRAM_ID :: pubkey
  TOKEN_PROGRAM_ID :: pubkey

record 'c HolancClient =
  failover :: "'c FailoverConnection"
  cl_wallet :: Wallet
  circuitDir :: string
  payer :: pubkey

definition newHolancClient :: "'c FailoverConnection \<Rightarrow> pubkey \<Rightarrow> Wallet \<Rightarrow> 'c HolancClient" where
  "newHolancClient fc key w =
     \<lparr>failover = fc, cl_wallet = w, circuitDir = ''./circuits/build'', payer = key\<rparr>"

definition createWithFailover :: "(int list \<Rightarrow> int) \<Rightarrow> (string \<Rightarrow> 'c) \<Rightarrow> byte list \<Rightarrow>
    rpc_endpoint list \<Rightarrow> pubkey \<Rightarrow> FailoverConfig \<Rightarrow> Wallet option \<Rightarrow> js_error + 'c HolancClient" where
  "createWithFailover poseidon connect entropy eps key config wallet =
     bind_result (newFailoverConnection connect eps config) (\<lambda>fc.
     bind_result (case wallet of Some w \<Rightarrow> Inr w | None \<Rightarrow> random_wallet poseidon entropy) (\<lambda>w.
       Inr (newHolancClient fc key w)))"

definition create :: "(int list \<Rightarrow> int) \<Rightarrow> (string \<Rightarrow> 'c) \<Rightarrow> byte list \<Rightarrow>
    string \<Rightarrow> pubkey \<Rightarrow> Wallet option \<Rightarrow> js_error + 'c HolancClient" where
  "create poseidon connect entropy rpcUrl key wallet =
     createWithFailover poseidon connect entropy [Url rpcUrl] key
       \<lparr>cfg_maxFailures = None, cfg_cooldownMs = None, cfg_timeoutMs = None\<rparr> wallet"

text \<open>The wallet's part of a method and a call through the failover connection.\<close>

definition on_wallet :: "(Wallet, 'a) effect \<Rightarrow> ('c HolancClient, 'a) effect" where
  "on_wallet m c = (case m (cl_wallet c) of (w, res) \<Rightarrow> (c\<lparr>cl_wallet := w\<rparr>, res))"

definition on_failover :: "('c, 'a) rpc_call \<Rightarrow> int \<Rightarrow> ('c HolancClient, 'a) effect" where
  "on_failover fn t c = (case exec fn t (failover c) of (fc, _, res) \<Rightarrow> (c\<lparr>failover := fc\<rparr>, res))"

definition asking :: "('c HolancClient \<Rightarrow> js_error + 'a) \<Rightarrow> ('c HolancClient, 'a) effect" where
  "asking f c = (c, f c)"

section \<open>Instruction data\<close>

definition throw_if_none :: "js_error \<Rightarrow> 'a option \<Rightarrow> js_error + 'a" where
  "throw_if_none e x = (case x of None \<Rightarrow> Inl e | Some v \<Rightarrow> Inr v)"

definition DISC_DEPOSIT :: "byte list" where
  "DISC_DEPOSIT = [0xf2, 0x23, 0xc6, 0x89, 0x52, 0xe1, 0xf2, 0xb6]"

definition DISC_TRANSFER :: "byte list" where
  "DISC_TRANSFER = [0xa3, 0x34, 0xba, 0x5e, 0x51, 0x76, 0x90, 0x27]"

definition DISC_WITHDRAW :: "byte list" where
  "DISC_WITHDRAW = [0xb7, 0x12, 0x46, 0x9c, 0x94, 0x6d, 0xa1, 0x22]"

definition encodeDepositInstruction :: "int \<Rightarrow> byte list \<Rightarrow> byte list \<Rightarrow> js_error + byte list" where
  "encodeDepositInstruction amount cm encryptedNote =
     bind_result (throw_if_none RangeError (write_u64_le amount)) (\<lambda>amountBuf.
     bind_result (throw_if_none RangeError (write_u32_le (int (length encryptedNote)))) (\<lambda>noteLenBuf.
       Inr (DISC_DEPOSIT @ amountBuf @ copy_to_new 32 cm @ noteLenBuf @ encryptedNote)))"

text \<open>\<open>serializeProof\<close> checks the shape, then writes every coordinate as 32 big-endian bytes.\<close>

definition be_fields :: "string list \<Rightarrow> js_error + byte list" where
  "be_fields vals =
     bind_result (map_result (\<lambda>v. throw_if_none SyntaxError (bigint_of_string v)) vals)
       (\<lambda>ns. Inr (concat (map bigint_to_be_bytes ns)))"

definition proof_shape_ok :: "Groth16Proof \<Rightarrow> bool" where
  "proof_shape_ok p \<longleftrightarrow> 2 \<le> length (piA p) \<and> 2 \<le> length (piB p)
     \<and> list_all (\<lambda>pair. 2 \<le> length pair) (piB p) \<and> 2 \<le> length (piC p)"

definition serializeProof :: "Groth16Proof \<Rightarrow> js_error + byte list" where
  "serializeProof p =
     (if \<not> proof_shape_ok p
      then Inl (Error ''Invalid proof structure: expected piA[2+], piB[2+][2+], piC[2+]'')
      else bind_result (be_fields (piA p)) (\<lambda>a.
           bind_result (be_fields (concat (piB p))) (\<lambda>b.
           bind_result (be_fields (piC p)) (\<lambda>c.
             Inr (a @ b @ c)))))"

definition encodeTransferInstruction :: "byte list \<Rightarrow> byte list list \<Rightarrow> byte list list \<Rightarrow>
    Groth16Proof \<Rightarrow> js_error + byte list" where
  "encodeTransferInstruction merkleRoot nulls outs p =
     bind_result (serializeProof p) (\<lambda>proofBytes.
       Inr (DISC_TRANSFER @ copy_to_new 32 merkleRoot @ concat (map (copy_to_new 32) nulls)
            @ concat (map (copy_to_new 32) outs) @ proofBytes))"

definition encodeWithdrawInstruction :: "byte list \<Rightarrow> byte list list \<Rightarrow> int \<Rightarrow>
    Groth16Proof \<Rightarrow> js_error + byte list" where
  "encodeWithdrawInstruction merkleRoot nulls exitValue p =
     bind_result (throw_if_none RangeError (write_u64_le exitValue)) (\<lambda>exitBuf.
     bind_result (serializeProof p) (\<lambda>proofBytes.
       Inr (DISC_WITHDRAW @ copy_to_new 32 merkleRoot @ concat (map (copy_to_new 32) nulls)
            @ exitBuf @ proofBytes)))"

section \<open>Accounts\<close>

definition utf8 :: "string \<Rightarrow> byte list" where
  "utf8 s = map of_char s"

text \<open>\<open>proof.publicSignals[k]\<close> is undefined past the end; \<open>Buffer.from(undefined, "hex")\<close> throws.\<close>

definition signal :: "string list \<Rightarrow> nat \<Rightarrow> string option" where
  "signal xs k = (if k < length xs then Some (xs ! k) else None)"

definition hex_buffer :: "string option \<Rightarrow> js_error + byte list" where
  "hex_buffer s = (case s of None \<Rightarrow> Inl TypeError | Some hex \<Rightarrow> Inr (buffer_from_hex hex))"

record pool_accounts =
  poolPda :: pubkey
  vaultPda :: pubkey
  vaultAuthPda :: pubkey
  lockPda1 :: pubkey
  lockPda2 :: pubkey
  nullMgr :: pubkey
  nullPage :: pubkey

definition derive_accounts :: "'c client_env \<Rightarrow> pubkey \<Rightarrow> string option list \<Rightarrow> pubkey option \<Rightarrow>
    pubkey option \<Rightarrow> js_error + pool_accounts" where
  "derive_accounts env tokenMint nulls mgr page =
     bind_result (pda env [utf8 ''pool'', tokenMint] (POOL_PROGRAM_ID env)) (\<lambda>pool.
     bind_result (pda env [utf8 ''vault'', pool] (POOL_PROGRAM_ID env)) (\<lambda>vault.
     bind_result (pda env [utf8 ''vault_auth'', pool] (POOL_PROGRAM_ID env)) (\<lambda>vaultAuth.
     bind_result (hex_buffer (nulls ! 0)) (\<lambda>n0.
     bind_result (pda env [utf8 ''lock'', pool, n0] (BRIDGE_PROGRAM_ID env)) (\<lambda>lock1.
     bind_result (hex_buffer (nulls ! 1)) (\<lambda>n1.
     bind_result (pda env [utf8 ''lock'', pool, n1] (BRIDGE_PROGRAM_ID env)) (\<lambda>lock2.
     bind_result (case mgr of Some m \<Rightarrow> Inr m
                  | None \<Rightarrow> pda env [utf8 ''nullifier_mgr'', pool] (NULLIFIER_PROGRAM_ID env)) (\<lambda>m.
     bind_result (case page of Some p \<Rightarrow> Inr p
                  | None \<Rightarrow> pda env [utf8 ''nullifier_page'', pool, replicate 8 0]
                              (NULLIFIER_PROGRAM_ID env)) (\<lambda>p.
       Inr \<lparr>poolPda = pool, vaultPda = vault, vaultAuthPda = vaultAuth, lockPda1 = lock1,
            lockPda2 = lock2, nullMgr = m, nullPage = p\<rparr>)))))))))"

definition requireVerificationKey :: "pubkey option \<Rightarrow> js_error + pubkey" where
  "requireVerificationKey key =
     (case key of
        None \<Rightarrow> Inl (Error (''verificationKey is required for transfer/withdraw '' @ em_dash @
                    '' pass the on-chain verification key account''))
      | Some k \<Rightarrow> Inr k)"

definition account :: "pubkey \<Rightarrow> bool \<Rightarrow> bool \<Rightarrow> account_meta" where
  "account key sig wr = \<lparr>acct = key, isSigner = sig, isWritable = wr\<rparr>"

section \<open>Deposit, transfer, withdraw\<close>

record DepositResult =
  dr_commitment :: string
  dr_leafIndex :: int
  dr_txSignature :: string

definition deposit :: "'c client_env \<Rightarrow> int \<Rightarrow> int \<Rightarrow> int \<Rightarrow> pubkey \<Rightarrow> ('c HolancClient, DepositResult) effect" where
  "deposit env now t amount tokenMint =
     eff_bind (on_wallet (createDepositNote (poseidon_fn env) now amount)) (\<lambda>note.
     eff_bind (eff_lift (computeCommitment (poseidon_fn env) note)) (\<lambda>cm.
     eff_bind (eff_lift (pda env [utf8 ''pool'', tokenMint] (POOL_PROGRAM_ID env))) (\<lambda>pool.
     eff_bind (eff_lift (encodeDepositInstruction amount (buffer_from_hex cm) [])) (\<lambda>depositData.
     eff_bind (\<lambda>c. on_failover
         (sendTx env [computeLimit env 400000,
                      \<lparr>programId = POOL_PROGRAM_ID env, ix_keys = [account pool False True],
                       ix_data = depositData\<rparr>] (payer c)) t c) (\<lambda>sig.
       eff_return \<lparr>dr_commitment = cm,
                   dr_leafIndex = (case leafIndex note of None \<Rightarrow> 0 | Some l \<Rightarrow> l),
                   dr_txSignature = sig\<rparr>)))))"

text \<open>The optional arguments of \<open>transfer\<close> and \<open>withdraw\<close>.\<close>

record tx_options =
  feeCollector :: "pubkey option"
  verificationKey :: "pubkey option"
  nullifierManager :: "pubkey option"
  nullifierPage :: "pubkey option"

definition transfer_instruction :: "'c client_env \<Rightarrow> pubkey \<Rightarrow> pubkey \<Rightarrow> tx_options \<Rightarrow> ProveResult \<Rightarrow>
    js_error + instruction" where
  "transfer_instruction env self tokenMint opts proof =
     (let sig = signal (publicSignals proof); nulls = [sig 1, sig 2]; outs = [sig 3, sig 4] in
      bind_result (derive_accounts env tokenMint nulls (nullifierManager opts) (nullifierPage opts)) (\<lambda>a.
      bind_result (hex_buffer (sig 0)) (\<lambda>root.
      bind_result (map_result hex_buffer nulls) (\<lambda>nullBufs.
      bind_result (map_result hex_buffer outs) (\<lambda>outBufs.
      bind_result (encodeTransferInstruction root nullBufs outBufs (pr_proof proof)) (\<lambda>transferData.
      bind_result (requireVerificationKey (verificationKey opts)) (\<lambda>vk.
        Inr \<lparr>programId = POOL_PROGRAM_ID env,
             ix_keys = [account (poolPda a) False True, account (vaultPda a) False True,
               account (vaultAuthPda a) False False,
               account (or_default (feeCollector opts) self) False True,
               account (VERIFIER_PROGRAM_ID env) False False, account vk False False,
               account (NULLIFIER_PROGRAM_ID env) False False, account (nullMgr a) False True,
               account (nullPage a) False True, account self True False,
               account (lockPda1 a) False False, account (lockPda2 a) False False,
               account (TOKEN_PROGRAM_ID env) False False],
             ix_data = transferData\<rparr>)))))))"

record TransferResult =
  tr_nullifiers :: "string option list"
  tr_outputCommitments :: "string option list"
  tr_txSignature :: string

definition transfer :: "'c client_env \<Rightarrow> int \<Rightarrow> 32 word \<Rightarrow> int \<Rightarrow> string \<Rightarrow> int \<Rightarrow> pubkey \<Rightarrow> int \<Rightarrow>
    tx_options \<Rightarrow> ('c HolancClient, TransferResult) effect" where
  "transfer env now r t recipientOwner amount tokenMint fee opts =
     eff_bind (on_wallet (prepareTransfer (poseidon_fn env) now r recipientOwner amount fee)) (\<lambda>(ins, outs).
     eff_bind (asking (\<lambda>c. proveTransfer (full_prove_fn env) (circuitDir c)
         \<lparr>tp_spendingKey = spendingKeyHex (cl_wallet c), inputNotes = ins, outputNotes = outs,
          tp_fee = fee, merklePathElements = None, merklePathIndices = None\<rparr>)) (\<lambda>proof.
     eff_bind (on_wallet (eff_modify (markSpent ins))) (\<lambda>_.
     eff_bind (asking (\<lambda>c. transfer_instruction env (payer c) tokenMint opts proof)) (\<lambda>ix.
     eff_bind (\<lambda>c. on_failover (sendTx env [computeLimit env 400000, ix] (payer c)) t c) (\<lambda>sig.
       eff_return \<lparr>tr_nullifiers = map (signal (publicSignals proof)) [1, 2],
                   tr_outputCommitments = map (signal (publicSignals proof)) [3, 4],
                   tr_txSignature = sig\<rparr>)))))"

definition withdraw_instruction :: "'c client_env \<Rightarrow> pubkey \<Rightarrow> pubkey \<Rightarrow> pubkey \<Rightarrow> int \<Rightarrow> tx_options \<Rightarrow>
    ProveResult \<Rightarrow> js_error + instruction" where
  "withdraw_instruction env self tokenMint recipient amount opts proof =
     (let sig = signal (publicSignals proof); nulls = [sig 1, sig 2] in
      bind_result (derive_accounts env tokenMint nulls (nullifierManager opts) (nullifierPage opts)) (\<lambda>a.
      bind_result (hex_buffer (sig 0)) (\<lambda>root.
      bind_result (map_result hex_buffer nulls) (\<lambda>nullBufs.
      bind_result (encodeWithdrawInstruction root nullBufs amount (pr_proof proof)) (\<lambda>withdrawData.
      bind_result (requireVerificationKey (verificationKey opts)) (\<lambda>vk.
        Inr \<lparr>programId = POOL_PROGRAM_ID env,
             ix_keys = [account (poolPda a) False True, account (vaultPda a) False True,
               account (vaultAuthPda a) False False, account recipient False True,
               account (or_default (feeCollector opts) self) False True,
               account (VERIFIER_PROGRAM_ID env) False False, account vk False False,
               account (NULLIFIER_PROGRAM_ID env) False False, account (nullMgr a) False True,
               account (nullPage a) False True, account self True False,
               account (lockPda1 a) False False, account (lockPda2 a) False False,
               account (TOKEN_PROGRAM_ID env) False False],
             ix_data = withdrawData\<rparr>))))))"

record WithdrawResult =
  wr_nullifiers :: "string option list"
  wr_exitAmount :: int
  wr_txSignature :: string

definition withdraw :: "'c client_env \<Rightarrow> int \<Rightarrow> 32 word \<Rightarrow> int \<Rightarrow> int \<Rightarrow> pubkey \<Rightarrow> pubkey \<Rightarrow> int \<Rightarrow>
    tx_options \<Rightarrow> ('c HolancClient, WithdrawResult) effect" where
  "withdraw env now r t amount tokenMint recipient fee opts =
     eff_bind (on_wallet (prepareWithdraw (poseidon_fn env) now r amount fee)) (\<lambda>(ins, outs).
     eff_bind (asking (\<lambda>c. proveWithdraw (full_prove_fn env) (circuitDir c)
         \<lparr>wp_spendingKey = spendingKeyHex (cl_wallet c), wp_inputNotes = ins, wp_outputNotes = outs,
          wp_exitValue = amount, wp_fee = fee\<rparr>)) (\<lambda>proof.
     eff_bind (on_wallet (eff_modify (markSpent ins))) (\<lambda>_.
     eff_bind (asking (\<lambda>c. withdraw_instruction env (payer c) tokenMint recipient amount opts proof)) (\<lambda>ix.
     eff_bind (\<lambda>c. on_failover (sendTx env [computeLimit env 400000, ix] (payer c)) t c) (\<lambda>sig.
       eff_return \<lparr>wr_nullifiers = map (signal (publicSignals proof)) [1, 2],
                   wr_exitAmount = amount, wr_txSignature = sig\<rparr>)))))"

section \<open>Pool status\<close>

record PoolStatus =
  ps_poolAddress :: string
  ps_tokenMint :: string
  totalDeposited :: int
  nextLeafIndex :: int
  currentRoot :: string
  isPaused :: bool
  epoch :: int

definition read_pool :: "(pubkey \<Rightarrow> string) \<Rightarrow> pubkey \<Rightarrow> pubkey \<Rightarrow> byte list \<Rightarrow> js_error + PoolStatus" where
  "read_pool base58 pool tokenMint data =
     bind_result (throw_if_none RangeError (read_uint_le 8 data 8)) (\<lambda>total.
     bind_result (throw_if_none RangeError (read_uint_le 4 data 16)) (\<lambda>next.
     bind_result (throw_if_none RangeError (read_uint_le 4 data 53)) (\<lambda>ep.
       Inr \<lparr>ps_poolAddress = base58 pool, ps_tokenMint = base58 tokenMint,
            totalDeposited = int total, nextLeafIndex = int next,
            currentRoot = buffer_to_hex (subarray 20 52 data),
            isPaused = (52 < length data \<and> data ! 52 = 1), epoch = int ep\<rparr>)))"

definition getPoolStatus :: "'c client_env \<Rightarrow> int \<Rightarrow> pubkey \<Rightarrow> ('c HolancClient, PoolStatus) effect" where
  "getPoolStatus env t tokenMint =
     eff_bind (eff_lift (pda env [utf8 ''pool'', tokenMint] (POOL_PROGRAM_ID env))) (\<lambda>pool.
     eff_bind (on_failover (getAccountInfo env pool) t) (\<lambda>info.
       (case info of
          None \<Rightarrow> eff_lift (Inl (Error ''Pool not found''))
        | Some data \<Rightarrow> eff_lift (read_pool (toBase58 env) pool tokenMint data))))"

section \<open>Accessors\<close>

definition client_connection :: "'c HolancClient \<Rightarrow> int \<Rightarrow> 'c" where
  "client_connection c now = primary (failover c) now"

definition rpcStatus :: "'c HolancClient \<Rightarrow> int \<Rightarrow> endpoint_status list" where
  "rpcStatus c now = status (failover c) now"

definition client_balance :: "'c HolancClient \<Rightarrow> int" where
  "client_balance c = balance (cl_wallet c)"

definition client_history :: "'c HolancClient \<Rightarrow> TxRecord list" where
  "client_history c = history (cl_wallet c)"

definition client_unspentNotes :: "'c HolancClient \<Rightarrow> Note list" where
  "client_unspentNotes c = unspentNotes (cl_wallet c)"

end
