(* ===== verification/Sdk_Client_Flows.thy ===== *)
theory Sdk_Client_Flows
  imports Sdk_Client
begin

text \<open>
  What the flows of \<open>HolancClient\<close> do to the wallet on every path, errors included, and what the
  pool program receives: the lemmas and properties of \<open>Sdk_Client\<close>.
\<close>

section \<open>Hexadecimal text of a given length\<close>

lemma length_buffer_from_hex_all:
  "list_all is_hex_char s \<Longrightarrow> length (buffer_from_hex s) = length s div 2"
  by (induction s rule: buffer_from_hex.induct) (auto simp: is_hex_char_def)

lemma hex_char_nat_to_string: "2 \<le> b \<Longrightarrow> b \<le> 16 \<Longrightarrow> list_all is_hex_char (nat_to_string b n)"
  by (auto simp: list_all_iff dest: set_nat_to_string)

lemma length_nat_to_string_gt:
  assumes "2 \<le> b" "b ^ k \<le> n"
  shows "k < length (nat_to_string b n)"
proof -
  have "n < b ^ length (digits b n)"
    using digits_value_bound [of "digits b n" b] digits_less [OF assms(1)] by simp
  with assms show ?thesis
    by (simp add: nat_to_string_def) (metis le_less_trans power_less_imp_less_exp less_le_trans one_less_numeral_iff semiring_norm(76) Suc_1 Suc_le_lessD)
qed

section \<open>The course of a transfer and of a withdrawal\<close>

lemma transfer_eq:
  "transfer env now r t rcp amount mint fee opts c =
    (case prepareTransfer (poseidon_fn env) now r rcp amount fee (cl_wallet c) of
       (w', Inl e) \<Rightarrow> (c\<lparr>cl_wallet := w'\<rparr>, Inl e)
     | (w', Inr (ins, outs)) \<Rightarrow>
         (case proveTransfer (full_prove_fn env) (circuitDir c)
             \<lparr>tp_spendingKey = spendingKeyHex w', inputNotes = ins, outputNotes = outs, tp_fee = fee,
              merklePathElements = None, merklePathIndices = None\<rparr> of
            Inl e \<Rightarrow> (c\<lparr>cl_wallet := w'\<rparr>, Inl e)
          | Inr proof \<Rightarrow>
              (case transfer_instruction env (payer c) mint opts proof of
                 Inl e \<Rightarrow> (c\<lparr>cl_wallet := markSpent ins w'\<rparr>, Inl e)
               | Inr ix \<Rightarrow>
                   (case exec (sendTx env [computeLimit env 400000, ix] (payer c)) t (failover c) of
                      (fc, _, Inl e) \<Rightarrow> (c\<lparr>cl_wallet := markSpent ins w', failover := fc\<rparr>, Inl e)
                    | (fc, _, Inr sig) \<Rightarrow>
                        (c\<lparr>cl_wallet := markSpent ins w', failover := fc\<rparr>,
                         Inr \<lparr>tr_nullifiers = map (signal (publicSignals proof)) [1, 2],
                              tr_outputCommitments = map (signal (publicSignals proof)) [3, 4],
                              tr_txSignature = sig\<rparr>)))))"
  unfolding transfer_def eff_bind_def on_wallet_def asking_def on_failover_def eff_defs
  by (simp split: prod.split sum.split)

lemma withdraw_eq:
  "withdraw env now r t amount mint recipient fee opts c =
    (case prepareWithdraw (poseidon_fn env) now r amount fee (cl_wallet c) of
       (w', Inl e) \<Rightarrow> (c\<lparr>cl_wallet := w'\<rparr>, Inl e)
     | (w', Inr (ins, outs)) \<Rightarrow>
         (case proveWithdraw (full_prove_fn env) (circuitDir c)
             \<lparr>wp_spendingKey = spendingKeyHex w', wp_inputNotes = ins, wp_outputNotes = outs,
              wp_exitValue = amount, wp_fee = fee\<rparr> of
            Inl e \<Rightarrow> (c\<lparr>cl_wallet := w'\<rparr>, Inl e)
          | Inr proof \<Rightarrow>
              (case withdraw_instruction env (payer c) mint recipient amount opts proof of
                 Inl e \<Rightarrow> (c\<lparr>cl_wallet := markSpent ins w'\<rparr>, Inl e)
               | Inr ix \<Rightarrow>
                   (case exec (sendTx env [computeLimit env 400000, ix] (payer c)) t (failover c) of
                      (fc, _, Inl e) \<Rightarrow> (c\<lparr>cl_wallet := markSpent ins w', failover := fc\<rparr>, Inl e)
                    | (fc, _, Inr sig) \<Rightarrow>
                        (c\<lparr>cl_wallet := markSpent ins w', failover := fc\<rparr>,
                         Inr \<lparr>wr_nullifiers = map (signal (publicSignals proof)) [1, 2],
                              wr_exitAmount = amount, wr_txSignature = sig\<rparr>)))))"
  unfolding withdraw_def eff_bind_def on_wallet_def asking_def on_failover_def eff_defs
  by (simp split: prod.split sum.split)

text \<open>The two wallets a started transaction can end in, and what both have in common.\<close>

definition taken_out :: "Wallet \<Rightarrow> Note list \<Rightarrow> Wallet \<Rightarrow> bool" where
  "taken_out w ins w' \<longleftrightarrow>
     (\<forall>n \<in> set (unspentNotes w'). commitment n \<notin> commitment ` set ins)
     \<and> (balance w' = balance w \<or> balance w' = balance w - sum_list (map noteValue ins))"

lemma taken_out_reserved:
  assumes "reserved_inputs w w1 total_amount ins" "balance w1 = balance w" "distinct_commitments w"
  shows "taken_out w ins w1" "taken_out w ins (markSpent ins w1)"
proof -
  note ends = reserved_ends [OF assms]
  show "taken_out w ins w1"
    using ends assms(2) by (simp add: taken_out_def)
  have "unspentNotes (markSpent ins w1) = unspentNotes w1"
  proof -
    have unspent: "unspent_ix (markSpent ins w1) = unspent_ix w1"
      using ends by simp
    have "wnotes (markSpent ins w1) ! i = wnotes w1 ! i" if "i \<in> set (unspent_ix w1)" for i
    proof -
      have i: "i < length (wnotes w1)" "spendable (wnotes w1 ! i)"
        using that by (simp_all add: unspent_ix_def)
      then have "commitment (wnotes w1 ! i) \<notin> commitment ` set ins"
        using ends that by (auto simp: unspentNotes_def)
      then show ?thesis
        by (simp add: nth_markSpent i(1))
    qed
    then show ?thesis
      by (simp add: unspentNotes_def unspent)
  qed
  then show "taken_out w ins (markSpent ins w1)"
    using ends by (simp add: taken_out_def)
qed

section \<open>A client to evaluate the properties on\<close>

text \<open>
  A prover that answers every statement with the same well-formed proof, an address derivation
  that obeys the documented seed limit, and an endpoint that confirms everything.
\<close>

definition sample_proof :: "nat \<Rightarrow> snark_proof \<times> string list" where
  "sample_proof k = (\<lparr>pi_a = [''1'', ''2'', ''1''], pi_b = [[''3'', ''4''], [''5'', ''6''], [''1'', ''0'']],
     pi_c = [''7'', ''8'', ''1''], sp_protocol = ''groth16'', sp_curve = ''bn128''\<rparr>,
     map (nat_to_string 10) [10 ^ k, 10 ^ k + 1, 10 ^ k + 2, 10 ^ k + 3, 10 ^ k + 4, 0])"

definition sample_pda :: "byte list list \<Rightarrow> pubkey \<Rightarrow> js_error + pubkey" where
  "sample_pda seeds prog =
     (if list_ex (\<lambda>s. 32 < length s) seeds then Inl TypeError else Inr (replicate 32 9))"

definition sample_env :: "nat \<Rightarrow> unit client_env" where
  "sample_env k = \<lparr>poseidon_fn = sample_hash, full_prove_fn = (\<lambda>input wasm zkey. Inr (sample_proof k)),
     pda = sample_pda, computeLimit = (\<lambda>u. \<lparr>programId = [], ix_keys = [], ix_data = []\<rparr>),
     sendTx = (\<lambda>ixs p c t. (Inr ''sig'', 5)), getAccountInfo = (\<lambda>a c t. (Inr None, 5)),
     toBase58 = (\<lambda>k. ''''), POOL_PROGRAM_ID = replicate 32 1, VERIFIER_PROGRAM_ID = replicate 32 2,
     NULLIFIER_PROGRAM_ID = replicate 32 3, BRIDGE_PROGRAM_ID = replicate 32 4,
     TOKEN_PROGRAM_ID = replicate 32 5\<rparr>"

definition sample_client :: "unit HolancClient" where
  "sample_client = newHolancClient
     \<lparr>endpoints = [new_endpoint (\<lambda>u. ()) (Url ''rpc'')], maxFailures = 3, cooldownMs = 30000, timeoutMs = 0\<rparr>
     (replicate 32 7) sample_wallet"

definition no_options :: tx_options where
  "no_options = \<lparr>feeCollector = None, verificationKey = None, nullifierManager = None, nullifierPage = None\<rparr>"

lemma sample_client_wallet [simp]: "cl_wallet sample_client = sample_wallet"
  by (simp add: sample_client_def newHolancClient_def)

lemma sample_client_transfer:
  obtains w' ins outs where
    "prepareTransfer (poseidon_fn (sample_env k)) 0 0 ''05'' 9 1 (cl_wallet sample_client) = (w', Inr (ins, outs))"
  using prepareTransfer_returns [of sample_wallet 9 1 "[0, 1]" sample_hash 0 0 "''05''"] sample_wallet_covers
  by (auto simp: sample_env_def)

section \<open>Properties\<close>

text \<open>
  A transfer takes its inputs out of circulation whatever comes of it: once the wallet has
  prepared it, no later selection can see the inputs, be it that the transfer returned, that the
  proof failed, that the accounts or the verification key could not be resolved or that every
  endpoint failed; the client never unlocks them. When it returns, the balance has dropped by the
  whole value of the inputs (the change is not added back) and the signature is one an endpoint
  returned for exactly the instruction built from the proof.
\<close>

theorem transfer_takes_inputs_out:
  assumes "distinct_commitments (cl_wallet c)"
    and "prepareTransfer (poseidon_fn env) now r rcp amount fee (cl_wallet c) = (w', Inr (ins, outs))"
    and "transfer env now r t rcp amount mint fee opts c = (c', res)"
  shows "taken_out (cl_wallet c) ins (cl_wallet c')
    \<and> (\<forall>x. res = Inr x \<longrightarrow>
         balance (cl_wallet c') = balance (cl_wallet c) - sum_list (map noteValue outs) - fee
         \<and> (\<exists>proof ix t'. proveTransfer (full_prove_fn env) (circuitDir c)
               \<lparr>tp_spendingKey = spendingKeyHex w', inputNotes = ins, outputNotes = outs, tp_fee = fee,
                merklePathElements = None, merklePathIndices = None\<rparr> = Inr proof
             \<and> transfer_instruction env (payer c) mint opts proof = Inr ix
             \<and> tr_nullifiers x = map (signal (publicSignals proof)) [1, 2]
             \<and> exec (sendTx env [computeLimit env 400000, ix] (payer c)) t (failover c)
               = (failover c', t', Inr (tr_txSignature x))))"
proof -
  note prep = prepareTransfer_reserved [OF assms(2)]
  note out = taken_out_reserved [OF prep [THEN conjunct1] prep [THEN conjunct2] assms(1)]
  have "sum_list (map noteValue ins) = sum_list (map noteValue outs) + fee"
    using assms(2) by (rule prepareTransfer_cases) simp
  moreover have "balance (markSpent ins w') = balance (cl_wallet c) - sum_list (map noteValue ins)"
    using reserved_ends [OF prep [THEN conjunct1] prep [THEN conjunct2] assms(1)] by blast
  ultimately have spent: "balance (markSpent ins w') = balance (cl_wallet c) - sum_list (map noteValue outs) - fee"
    by simp
  from assms(3) show ?thesis
    unfolding transfer_eq assms(2)
    using out spent by (auto split: sum.splits prod.splits)
qed

lemma transfer_takes_inputs_out_witness:
  "\<exists>c' res w' ins outs. prepareTransfer sample_hash 0 0 ''05'' 9 1 sample_wallet = (w', Inr (ins, outs))
     \<and> transfer (sample_env 0) 0 0 0 ''05'' 9 (replicate 32 6) 1 no_options sample_client = (c', res)
     \<and> taken_out sample_wallet ins (cl_wallet c')"
proof -
  obtain w' ins outs where p:
    "prepareTransfer (poseidon_fn (sample_env 0)) 0 0 ''05'' 9 1 (cl_wallet sample_client) = (w', Inr (ins, outs))"
    by (rule sample_client_transfer)
  obtain c' res where "transfer (sample_env 0) 0 0 0 ''05'' 9 (replicate 32 6) 1 no_options sample_client = (c', res)"
    by fastforce
  with transfer_takes_inputs_out [OF _ p this] p sample_wallet_distinct show ?thesis
    by (auto simp: sample_env_def)
qed

text \<open>
  \<open>findProgramAddressSync\<close> as documented: a TypeError for a seed of more than 32 bytes, an address
  of 32 bytes otherwise.
\<close>

definition pda_ok :: "'c client_env \<Rightarrow> bool" where
  "pda_ok env \<longleftrightarrow>
     (\<forall>seeds prog. (\<exists>s \<in> set seeds. 32 < length s) \<longrightarrow> pda env seeds prog = Inl TypeError)
     \<and> (\<forall>seeds prog. (\<forall>s \<in> set seeds. length s \<le> 32) \<longrightarrow>
          (\<exists>k. pda env seeds prog = Inr k \<and> length k = 32))"

lemma sample_pda_ok: "pda_ok (sample_env k)"
  unfolding pda_ok_def by (intro conjI allI impI) (auto simp: sample_env_def sample_pda_def list_ex_iff)

lemma pda_long: "pda_ok env \<Longrightarrow> s \<in> set seeds \<Longrightarrow> 32 < length s \<Longrightarrow> pda env seeds prog = Inl TypeError"
  unfolding pda_ok_def by blast

lemma pda_short:
  "pda_ok env \<Longrightarrow> \<forall>s \<in> set seeds. length s \<le> 32 \<Longrightarrow> \<exists>k. pda env seeds prog = Inr k \<and> length k = 32"
  unfolding pda_ok_def by blast

lemma decimal_signal_too_long:
  assumes "10 ^ 65 \<le> nf"
  shows "32 < length (buffer_from_hex (nat_to_string 10 nf))"
proof -
  have "65 < length (nat_to_string 10 nf)"
    by (rule length_nat_to_string_gt) (use assms in simp_all)
  then show ?thesis
    by (simp add: length_buffer_from_hex_all hex_char_nat_to_string)
qed

lemma derive_accounts_decimal:
  assumes "pda_ok env" "length mint = 32" "nulls ! 0 = Some (nat_to_string 10 nf)" "10 ^ 65 \<le> nf"
  shows "derive_accounts env mint nulls mgr page = Inl TypeError"
proof -
  obtain pool where pool: "pda env [utf8 ''pool'', mint] (POOL_PROGRAM_ID env) = Inr pool" "length pool = 32"
    using pda_short [OF assms(1), of "[utf8 ''pool'', mint]" "POOL_PROGRAM_ID env"] assms(2)
    by (auto simp: utf8_def)
  obtain vault auth where "pda env [utf8 ''vault'', pool] (POOL_PROGRAM_ID env) = Inr vault"
    "pda env [utf8 ''vault_auth'', pool] (POOL_PROGRAM_ID env) = Inr auth"
    using pda_short [OF assms(1), of "[utf8 ''vault'', pool]" "POOL_PROGRAM_ID env"]
      pda_short [OF assms(1), of "[utf8 ''vault_auth'', pool]" "POOL_PROGRAM_ID env"] pool(2)
    by (auto simp: utf8_def)
  moreover  have "pda env [utf8 ''lock'', pool, buffer_from_hex (nat_to_string 10 nf)] (BRIDGE_PROGRAM_ID env) = Inl TypeError"
    by (rule pda_long [OF assms(1) _ decimal_signal_too_long [OF assms(4)]]) simp
  ultimately show ?thesis
    by (simp add: derive_accounts_def hex_buffer_def assms(3) pool(1))
qed

text \<open>
  A transfer or a withdrawal whose first nullifier has at least 66 decimal digits, as nearly
  every field element has, never reaches the chain and still spends its inputs: the public signals
  of the prover are decimal texts, the client reads them as hexadecimal, and the seed of the lock
  account becomes longer than the 32 bytes the address derivation admits. The call ends in a
  TypeError, the wallet has marked the inputs spent, and no endpoint was asked.
\<close>

theorem decimal_signals_burn_inputs:
  assumes "pda_ok env" "length mint = 32" "10 ^ 65 \<le> nf"
    and "signal (publicSignals proof) 1 = Some (nat_to_string 10 nf)"
  shows "(prepareTransfer (poseidon_fn env) now r rcp amount fee (cl_wallet c) = (w', Inr (ins, outs))
      \<and> proveTransfer (full_prove_fn env) (circuitDir c)
          \<lparr>tp_spendingKey = spendingKeyHex w', inputNotes = ins, outputNotes = outs, tp_fee = fee,
           merklePathElements = None, merklePathIndices = None\<rparr> = Inr proof \<longrightarrow>
      transfer env now r t rcp amount mint fee opts c = (c\<lparr>cl_wallet := markSpent ins w'\<rparr>, Inl TypeError))
    \<and> (prepareWithdraw (poseidon_fn env) now r amount fee (cl_wallet c) = (w', Inr (ins, outs))
      \<and> proveWithdraw (full_prove_fn env) (circuitDir c)
          \<lparr>wp_spendingKey = spendingKeyHex w', wp_inputNotes = ins, wp_outputNotes = outs,
           wp_exitValue = amount, wp_fee = fee\<rparr> = Inr proof \<longrightarrow>
      withdraw env now r t amount mint recipient fee opts c = (c\<lparr>cl_wallet := markSpent ins w'\<rparr>, Inl TypeError))"
proof -
  have derive: "derive_accounts env mint [signal (publicSignals proof) 1, n1] mgr page = Inl TypeError" for n1 mgr page
    by (rule derive_accounts_decimal [OF assms(1,2) _ assms(3)]) (use assms(4) in simp)
  have "transfer_instruction env (payer c) mint opts proof = Inl TypeError"
    "withdraw_instruction env (payer c) mint recipient amount opts proof = Inl TypeError"
    by (simp_all add: transfer_instruction_def withdraw_instruction_def Let_def derive del: One_nat_def)
  then show ?thesis
    by (simp add: transfer_eq withdraw_eq)
qed

lemma sample_params_proof:
  "proveTransfer (full_prove_fn (sample_env k)) dir sample_params
     = Inr \<lparr>pr_proof = \<lparr>piA = [''1'', ''2''], piB = [[''3'', ''4''], [''5'', ''6'']], piC = [''7'', ''8''],
          protocol = ''groth16'', gcurve = ''bn128''\<rparr>, publicSignals = snd (sample_proof k)\<rparr>"
  using sample_input by (auto simp: proveTransfer_def prove_def sample_env_def sample_proof_def Let_def)

lemma sample_env_poseidon [simp]: "poseidon_fn (sample_env k) = sample_hash"
  by (simp add: sample_env_def)

lemma decimal_signals_burn_inputs_witness:
  "\<exists>w'. prepareTransfer sample_hash 0 0 ''05'' 9 3 sample_wallet = (w', Inr (sample_inputs, sample_outputs))
     \<and> transfer (sample_env 65) 0 0 0 ''05'' 9 (replicate 32 6) 3 no_options sample_client
       = (sample_client\<lparr>cl_wallet := markSpent sample_inputs w'\<rparr>, Inl TypeError)"
proof -
  obtain w' where w': "prepareTransfer sample_hash 0 0 ''05'' 9 3 sample_wallet = (w', Inr (sample_inputs, sample_outputs))"
    using sample_transfer by blast
  then have "spendingKey w' = spendingKey sample_wallet"
    by (rule prepareTransfer_cases)
  then have key: "spendingKeyHex w' = ''01''"
    by (simp add: spendingKeyHex_def sample_wallet_def newWallet_def byte_hex_def hex_digit_def)
  have params: "\<lparr>tp_spendingKey = spendingKeyHex w', inputNotes = sample_inputs, outputNotes = sample_outputs,
      tp_fee = 3, merklePathElements = None, merklePathIndices = None\<rparr> = sample_params"
    by (simp add: sample_params_def key)
  have "signal (snd (sample_proof 65)) 1 = Some (nat_to_string 10 (10 ^ 65 + 1))"
    by (simp add: signal_def sample_proof_def)
  from decimal_signals_burn_inputs [OF sample_pda_ok, of "replicate 32 6" "10 ^ 65 + 1"
      "\<lparr>pr_proof = \<lparr>piA = [''1'', ''2''], piB = [[''3'', ''4''], [''5'', ''6'']], piC = [''7'', ''8''],
          protocol = ''groth16'', gcurve = ''bn128''\<rparr>, publicSignals = snd (sample_proof 65)\<rparr>"
      65 0 0 "''05''" 9 3 sample_client w' sample_inputs sample_outputs 0 no_options] this
  show ?thesis
    by (simp add: w' params sample_params_proof)
qed

lemma chunk_concat:
  assumes "\<forall>x \<in> set xs. length x = k" "i < length xs"
  shows "take k (drop (k * i) (concat xs)) = xs ! i"
  using assms
proof (induction xs arbitrary: i)
  case (Cons x xs)
  then show ?case
    by (cases i) (auto simp: algebra_simps)
qed simp

lemma length_concat_all: "\<forall>x \<in> set xs. length x = k \<Longrightarrow> length (concat xs) = k * length xs"
  by (induction xs) auto

definition be_groups :: "byte list \<Rightarrow> int list" where
  "be_groups bs = map (\<lambda>i. int (be_value (take 32 (drop (32 * i) bs)))) [0..<length bs div 32]"

lemma be_groups_concat:
  assumes "\<forall>n \<in> set ns. 0 \<le> n \<and> n < 2 ^ 256"
  shows "be_groups (concat (map bigint_to_be_bytes ns)) = ns"
proof -
  let ?f = "map bigint_to_be_bytes ns"
  have len: "\<forall>x \<in> set ?f. length x = 32" by simp
  have "map (\<lambda>i. int (be_value (take 32 (drop (32 * i) (concat ?f))))) [0..<length ns]
      = map (\<lambda>i. ns ! i) [0..<length ns]"
  proof (rule map_cong)
    fix i assume "i \<in> set [0..<length ns]"
    then have i: "i < length ns" by simp
    then have "0 \<le> ns ! i \<and> ns ! i < 2 ^ 256"
      using assms by simp
    then show "int (be_value (take 32 (drop (32 * i) (concat ?f)))) = ns ! i"
      using chunk_concat [OF len, of i] i by (simp add: be_value_bigint_to_be_bytes)
  qed simp
  then show ?thesis
    by (simp add: be_groups_def length_concat_all [OF len] map_nth)
qed

lemma be_fields_decimal:
  "be_fields (map (bigint_to_string 10) ns) = Inr (concat (map bigint_to_be_bytes ns))"
proof -
  have "map_result (\<lambda>v. throw_if_none SyntaxError (bigint_of_string v)) (map (bigint_to_string 10) ns)
      = Inr (map (\<lambda>v. the (bigint_of_string v)) (map (bigint_to_string 10) ns))"
    by (rule map_result_Inr) (auto simp: throw_if_none_def)
  then show ?thesis
    by (simp add: be_fields_def comp_def)
qed

text \<open>
  C38. A proof is serialised without loss: for every Groth16 proof of the prover's shape whose
  coordinates are decimal texts of 256-bit integers, \<open>serializeProof\<close> writes exactly 256 bytes, and
  the eight consecutive groups of 32 bytes are the coordinates of \<open>piA\<close>, \<open>piB\<close> (row by row) and
  \<open>piC\<close> as big-endian numbers.
\<close>

theorem serialized_proof_reads_back:
  assumes "piA p = map (bigint_to_string 10) as" "piB p = map (map (bigint_to_string 10)) bss"
    and "piC p = map (bigint_to_string 10) cs"
    and "length as = 2" "length bss = 2" "\<forall>bs \<in> set bss. length bs = 2" "length cs = 2"
    and "\<forall>n \<in> set (as @ concat bss @ cs). 0 \<le> n \<and> n < 2 ^ 256"
  shows "\<exists>bs. serializeProof p = Inr bs \<and> length bs = 256 \<and> be_groups bs = as @ concat bss @ cs"
proof -
  let ?ns = "as @ concat bss @ cs"
  have shape: "proof_shape_ok p"
    using assms(1-7) by (auto simp: proof_shape_ok_def list_all_iff)
  have "concat (piB p) = map (bigint_to_string 10) (concat bss)"
    by (simp add: assms(2) map_concat)
  then have "serializeProof p = Inr (concat (map bigint_to_be_bytes ?ns))"
    by (simp add: serializeProof_def shape assms(1,3) be_fields_decimal)
  moreover have "length ?ns = 8"
    using assms(4-7) length_concat_all [of bss 2] by simp
  then have "length (concat (map bigint_to_be_bytes ?ns)) = 256"
    using length_concat_all [of "map bigint_to_be_bytes ?ns" 32] by (simp del: map_append concat_append)
  ultimately show ?thesis
    using be_groups_concat [OF assms(8)] by blast
qed

lemma serialized_proof_reads_back_witness:
  "\<exists>bs. serializeProof \<lparr>piA = map (bigint_to_string 10) [1, 2],
       piB = map (map (bigint_to_string 10)) [[3, 4], [5, 6]], piC = map (bigint_to_string 10) [7, 8],
       protocol = ''groth16'', gcurve = ''bn128''\<rparr> = Inr bs \<and> be_groups bs = [1, 2, 3, 4, 5, 6, 7, 8]"
  using serialized_proof_reads_back [of "\<lparr>piA = map (bigint_to_string 10) [1, 2],
       piB = map (map (bigint_to_string 10)) [[3, 4], [5, 6]], piC = map (bigint_to_string 10) [7, 8],
       protocol = ''groth16'', gcurve = ''bn128''\<rparr>" "[1, 2]" "[[3, 4], [5, 6]]" "[7, 8]"]
  by force

section \<open>What the pool program reads\<close>

text \<open>Borsh, as the pool program's arguments and account are laid out.\<close>

definition borsh_vec :: "byte list \<Rightarrow> byte list" where
  "borsh_vec bs = le_bytes 4 (length bs) @ bs"

definition rust_deposit_args :: "nat \<Rightarrow> byte list \<Rightarrow> byte list \<Rightarrow> byte list" where
  "rust_deposit_args amount cm encrypted = le_bytes 8 amount @ cm @ borsh_vec encrypted"

definition rust_transfer_args :: "byte list \<Rightarrow> byte list list \<Rightarrow> byte list list \<Rightarrow> nat \<Rightarrow>
    byte list list \<Rightarrow> byte list \<Rightarrow> byte list" where
  "rust_transfer_args root nulls outs fee encrypted proof =
     root @ concat nulls @ concat outs @ le_bytes 8 fee
     @ le_bytes 4 (length encrypted) @ concat (map borsh_vec encrypted) @ proof"

definition rust_withdraw_args :: "byte list \<Rightarrow> byte list list \<Rightarrow> byte list list \<Rightarrow> nat \<Rightarrow> nat \<Rightarrow>
    byte list list \<Rightarrow> byte list \<Rightarrow> byte list" where
  "rust_withdraw_args root nulls outs exit_amount fee encrypted proof =
     root @ concat nulls @ concat outs @ le_bytes 8 exit_amount @ le_bytes 8 fee
     @ le_bytes 4 (length encrypted) @ concat (map borsh_vec encrypted) @ proof"

lemma serializeProof_length:
  assumes "serializeProof p = Inr bs" "length (piA p) = 2" "length (piB p) = 2"
    "\<forall>r \<in> set (piB p). length r = 2" "length (piC p) = 2"
  shows "length bs = 256"
proof -
  have fields: "length out = 32 * length vals" if "be_fields vals = Inr out" for vals out
    using that by (auto simp: be_fields_def bind_result_Inr_iff dest!: map_result_length
        intro: trans [OF length_concat_all [where k = 32]])
  have "length (concat (piB p)) = 4"
    using assms(3,4) length_concat_all [of "piB p" 2] by simp
  then show ?thesis
    using assms(1,2,5) by (auto simp: serializeProof_def bind_result_Inr_iff split: if_splits dest!: fields)
qed

lemma concat_copies: "length (concat (map (copy_to_new 32) xs)) = 32 * length xs"
  by (induction xs) auto

text \<open>
  Of the three instructions only the deposit is what the pool program decodes: for a 64-bit
  amount and a 32-byte commitment its data is the discriminator followed by the Borsh encoding of
  the arguments. The data of a transfer and of a withdrawal is shorter than every encoding of the
  program's arguments (no fee, no encrypted notes, for a withdrawal no output commitments), so it
  decodes as no call at all.
\<close>

theorem only_deposit_data_decodes:
  assumes "0 \<le> amount" "amount < 2 ^ 64" "length cm = 32" "length enc < 2 ^ 32"
    and "length nulls = 2" "length outs = 2"
    and "length (piA p) = 2" "length (piB p) = 2" "\<forall>r \<in> set (piB p). length r = 2" "length (piC p) = 2"
    and "length root' = 32" "length nulls' = 2" "length outs' = 2"
      "\<forall>x \<in> set (nulls' @ outs'). length x = 32" "length proof' = 256" "length disc = 8"
  shows "encodeDepositInstruction amount cm enc = Inr (DISC_DEPOSIT @ rust_deposit_args (nat amount) cm enc)
    \<and> encodeTransferInstruction root nulls outs p \<noteq> Inr (disc @ rust_transfer_args root' nulls' outs' fee notes' proof')
    \<and> encodeWithdrawInstruction root nulls amount p \<noteq>
        Inr (disc @ rust_withdraw_args root' nulls' outs' exit_amount fee notes' proof')"
proof (intro conjI)
  show "encodeDepositInstruction amount cm enc = Inr (DISC_DEPOSIT @ rust_deposit_args (nat amount) cm enc)"
    using assms(1-4)
    by (simp add: encodeDepositInstruction_def throw_if_none_def write_u64_le_def write_u32_le_def
        rust_deposit_args_def borsh_vec_def)
  have args: "length (concat nulls') = 64" "length (concat outs') = 64"
    using assms(12-14) length_concat_all [of nulls' 32] length_concat_all [of outs' 32] by auto
  have "436 \<le> length (disc @ rust_transfer_args root' nulls' outs' fee notes' proof')"
    using assms(11,15,16) by (simp add: rust_transfer_args_def args)
  moreover have "length data = 424" if "encodeTransferInstruction root nulls outs p = Inr data" for data
    using that serializeProof_length [OF _ assms(7-10)] assms(5,6)
    by (auto simp: encodeTransferInstruction_def bind_result_Inr_iff DISC_TRANSFER_def concat_copies)
  ultimately show "encodeTransferInstruction root nulls outs p \<noteq> Inr (disc @ rust_transfer_args root' nulls' outs' fee notes' proof')"
    by force
  have "444 \<le> length (disc @ rust_withdraw_args root' nulls' outs' exit_amount fee notes' proof')"
    using assms(11,15,16) by (simp add: rust_withdraw_args_def args)
  moreover have "length data = 368" if "encodeWithdrawInstruction root nulls amount p = Inr data" for data
    using that serializeProof_length [OF _ assms(7-10)] assms(5)
    by (auto simp: encodeWithdrawInstruction_def bind_result_Inr_iff throw_if_none_def DISC_WITHDRAW_def
        concat_copies split: option.splits dest!: write_u64_le_Some)
  ultimately show "encodeWithdrawInstruction root nulls amount p \<noteq>
      Inr (disc @ rust_withdraw_args root' nulls' outs' exit_amount fee notes' proof')"
    by force
qed

lemma only_deposit_data_decodes_witness:
  "encodeDepositInstruction 5 (replicate 32 1) [] = Inr (DISC_DEPOSIT @ rust_deposit_args 5 (replicate 32 1) [])
   \<and> encodeTransferInstruction [] [[], []] [[], []]
       \<lparr>piA = [''1'', ''2''], piB = [[''3'', ''4''], [''5'', ''6'']], piC = [''7'', ''8''],
          protocol = ''groth16'', gcurve = ''bn128''\<rparr>
     \<noteq> Inr (replicate 8 0 @ rust_transfer_args (replicate 32 0) [replicate 32 0, replicate 32 0]
         [replicate 32 0, replicate 32 0] 1 [] (replicate 256 0))"
  using only_deposit_data_decodes [of 5 "replicate 32 1" "[]" "[[], []]" "[[], []]"
      "\<lparr>piA = [''1'', ''2''], piB = [[''3'', ''4''], [''5'', ''6'']], piC = [''7'', ''8''],
          protocol = ''groth16'', gcurve = ''bn128''\<rparr>" "replicate 32 0" "[replicate 32 0, replicate 32 0]"
      "[replicate 32 0, replicate 32 0]" "replicate 256 0" "replicate 8 0" "[]" 1 "[]" 1]
  by simp

record rust_PoolState =
  authority :: pubkey
  token_mint :: pubkey
  vault :: pubkey
  next_leaf_index :: nat
  current_root :: "byte list"
  root_history :: "byte list list"
  root_history_index :: nat
  total_deposited :: nat
  bump :: nat
  is_paused :: bool
  rust_epoch :: nat
  last_commitment :: "byte list"
  filled_subtrees :: "byte list list"
  sha256_root :: "byte list"

definition pool_account_data :: "byte list \<Rightarrow> rust_PoolState \<Rightarrow> byte list" where
  "pool_account_data disc s =
     disc @ authority s @ token_mint s @ vault s @ le_bytes 8 (next_leaf_index s) @ current_root s
     @ concat (root_history s) @ le_bytes 1 (root_history_index s) @ le_bytes 8 (total_deposited s)
     @ le_bytes 1 (bump s) @ le_bytes 1 (of_bool (is_paused s)) @ le_bytes 8 (rust_epoch s)
     @ last_commitment s @ concat (filled_subtrees s) @ sha256_root s"

lemma read_pool_prefix:
  assumes "57 \<le> length xs"
  shows "read_pool b58 pool mint (xs @ ys) = read_pool b58 pool mint xs"
  using assms by (simp add: read_pool_def read_uint_le_def subarray_def nth_append)

text \<open>
  The pool status is read at the wrong place: on the account as the pool program writes it, the
  deposited total, the next leaf, the root, the pause flag and the epoch the client reports are
  bytes of the authority's and the mint's keys. Two pools with the same keys are reported alike,
  whatever they hold and whether or not they are paused.
\<close>

theorem status_reads_keys:
  assumes "length disc = 8" "length (authority s) = 32" "length (token_mint s) = 32"
    and "authority s' = authority s" "token_mint s' = token_mint s" "length disc' = 8"
  shows "read_pool b58 pool mint (pool_account_data disc s) = Inr \<lparr>ps_poolAddress = b58 pool,
      ps_tokenMint = b58 mint, totalDeposited = int (le_value (take 8 (authority s))),
      nextLeafIndex = int (le_value (take 4 (drop 8 (authority s)))),
      currentRoot = buffer_to_hex (drop 12 (authority s) @ take 12 (token_mint s)),
      isPaused = (token_mint s ! 12 = 1), epoch = int (le_value (take 4 (drop 13 (token_mint s))))\<rparr>
    \<and> read_pool b58 pool mint (pool_account_data disc' s') = read_pool b58 pool mint (pool_account_data disc s)"
proof -
  have keys: "read_pool b58 pool mint (d @ authority s @ token_mint s) = Inr \<lparr>ps_poolAddress = b58 pool,
      ps_tokenMint = b58 mint, totalDeposited = int (le_value (take 8 (authority s))),
      nextLeafIndex = int (le_value (take 4 (drop 8 (authority s)))),
      currentRoot = buffer_to_hex (drop 12 (authority s) @ take 12 (token_mint s)),
      isPaused = (token_mint s ! 12 = 1), epoch = int (le_value (take 4 (drop 13 (token_mint s))))\<rparr>"
    if "length d = 8" for d
    using that assms(2,3)
    by (simp add: read_pool_def read_uint_le_def subarray_def nth_append throw_if_none_def)
  have "read_pool b58 pool mint (pool_account_data d u) = read_pool b58 pool mint (d @ authority u @ token_mint u)"
    if "length d = 8" "authority u = authority s" "token_mint u = token_mint s" for d u
    using that assms(2,3) read_pool_prefix [of "d @ authority u @ token_mint u"]
    by (simp add: pool_account_data_def)
  with assms keys show ?thesis
    by simp
qed

definition sample_pool :: "bool \<Rightarrow> rust_PoolState" where
  "sample_pool p = \<lparr>authority = replicate 32 3, token_mint = replicate 32 4, vault = replicate 32 5,
     next_leaf_index = 77, current_root = replicate 32 6, root_history = [], root_history_index = 0,
     total_deposited = 1000, bump = 1, is_paused = p, rust_epoch = 2, last_commitment = replicate 32 7,
     filled_subtrees = [], sha256_root = replicate 32 8\<rparr>"

lemma status_reads_keys_witness:
  "\<exists>st. read_pool (\<lambda>k. '''') [] [] (pool_account_data (replicate 8 0) (sample_pool True)) = Inr st
     \<and> \<not> isPaused st"
proof -
  have "authority (sample_pool True) = replicate 32 3" "token_mint (sample_pool True) = replicate 32 4"
    by (simp_all add: sample_pool_def)
  then show ?thesis
    using status_reads_keys [of "replicate 8 0" "sample_pool True" "sample_pool True" "replicate 8 0"
        "\<lambda>k. ''''" "[]" "[]"]
    by simp
qed

text \<open>
  A deposit is credited before it happens: in every outcome of \<open>deposit\<close> after the note was
  created, errors of the encoding and of every endpoint included, the wallet holds the new note as
  spendable and its balance has grown by the amount. An amount that is not an unsigned 64-bit
  number fails with a RangeError after that, and no instruction is sent.
\<close>

theorem deposit_credits_before_chain:
  assumes "spendingKey (cl_wallet c) \<noteq> []" "field_hash (poseidon_fn env)"
    and "deposit env now t amount mint c = (c', res)"
  shows "balance (cl_wallet c') = balance (cl_wallet c) + amount
    \<and> (\<exists>n. wnotes (cl_wallet c') = wnotes (cl_wallet c) @ [n] \<and> noteValue n = amount \<and> spendable n
         \<and> (\<forall>x. res = Inr x \<longrightarrow> dr_commitment x = commitment n))
    \<and> (pda_ok env \<and> length mint \<le> 32 \<and> (amount < 0 \<or> 2 ^ 64 \<le> amount) \<longrightarrow>
         res = Inl RangeError \<and> failover c' = failover c)"
proof -
  obtain w n where create: "createDepositNote (poseidon_fn env) now amount (cl_wallet c) = (w, Inr n)"
    using createDepositNote_returns [OF assms(1,2)] by blast
  then obtain cm where n: "noteValue n = amount" "spendable n" "\<not> spent n" "commitment n = cm"
    and w: "wnotes w = wnotes (cl_wallet c) @ [n]"
    and cm: "computeCommitment (poseidon_fn env) n = Inr cm"
    by (elim createDepositNote_form) (auto simp: spendable_def)
  have bal: "balance w = balance (cl_wallet c) + amount"
    using n by (simp add: balance_as_map w)
  have wallet: "cl_wallet c' = w"
    using assms(3) create cm unfolding deposit_def
    by (auto simp: eff_bind_def on_wallet_def on_failover_def eff_defs split: sum.splits prod.splits)
  have "dr_commitment x = cm" if "res = Inr x" for x
    using assms(3) create cm that unfolding deposit_def
    by (auto simp: eff_bind_def on_wallet_def on_failover_def eff_defs split: sum.splits prod.splits)
  moreover have "res = Inl RangeError \<and> failover c' = failover c"
    if ok: "pda_ok env" "length mint \<le> 32" "amount < 0 \<or> 2 ^ 64 \<le> amount"
  proof -
    obtain pool where "pda env [utf8 ''pool'', mint] (POOL_PROGRAM_ID env) = Inr pool"
      using pda_short [OF ok(1), of "[utf8 ''pool'', mint]" "POOL_PROGRAM_ID env"] ok(2)
      by (auto simp: utf8_def)
    moreover have "encodeDepositInstruction amount (buffer_from_hex cm) [] = Inl RangeError"
      using ok(3) by (auto simp: encodeDepositInstruction_def write_u64_le_def throw_if_none_def)
    ultimately show ?thesis
      using assms(3) create cm unfolding deposit_def
      by (auto simp: eff_bind_def on_wallet_def eff_defs)
  qed
  ultimately show ?thesis
    using bal n w wallet by auto
qed

lemma deposit_credits_before_chain_witness:
  "\<exists>c' res. deposit (sample_env 0) 0 0 (2 ^ 64) (replicate 32 6) sample_client = (c', res)
     \<and> balance (cl_wallet c') = balance sample_wallet + 2 ^ 64 \<and> res = Inl RangeError"
proof -
  obtain c' res where run: "deposit (sample_env 0) 0 0 (2 ^ 64) (replicate 32 6) sample_client = (c', res)"
    by fastforce
  have "spendingKey (cl_wallet sample_client) \<noteq> []" "field_hash (poseidon_fn (sample_env 0))"
    by (simp_all add: field_hash_sample)
  from deposit_credits_before_chain [OF this run] run sample_pda_ok show ?thesis
    by auto
qed

end
