(* ===== verification/Js_Number.thy ===== *)
theory Js_Number
  imports Byte_Codec "HOL-Library.Log_Nat"
begin

text \<open>
  The conversion of bigints to numbers, which the readers of accounts and logs apply to 64-bit
  integers.
\<close>

text \<open>\<open>Number(b)\<close> of a bigint: exact below \<open>2 ^ 53\<close>, else rounded to 53 bits, ties to even.\<close>

definition number_of_bigint :: "int \<Rightarrow> int" where
  "number_of_bigint b =
     (let m = nat \<bar>b\<bar> in
      if m < 2 ^ 53 then b
      else (let e = floorlog 2 m - 53; q = m div 2 ^ e; r = m mod 2 ^ e;
                q' = (if 2 ^ e < 2 * r \<or> (2 * r = 2 ^ e \<and> odd q) then q + 1 else q)
            in sgn b * int (q' * 2 ^ e)))"

lemma number_of_bigint_small [simp]: "\<bar>b\<bar> < 2 ^ 53 \<Longrightarrow> number_of_bigint b = b"
  by (simp add: number_of_bigint_def Let_def nat_less_iff)

end
