(* ===== verification/Sdk_Bridge.thy ===== *)
theory Sdk_Bridge
  imports Sdk_Client Js_Number
begin

text \<open>
  sdk/typescript/src/bridge.ts: the addresses, account readers and instructions of the cross-chain
  bridge client. \<open>bridge_env\<close> collects what web3.js answers: address derivation, the account at an
  address, and what becomes of a transaction.
\<close>

section \<open>Numbers read from accounts\<close>

text \<open>\<open>buf.readBigInt64LE(off)\<close>: two's complement.\<close>

definition read_int64_le :: "byte list \<Rightarrow> nat \<Rightarrow> int option" where
  "read_int64_le bs off =
     map_option (\<lambda>v. if v < 2 ^ 63 then int v else int v - 2 ^ 64) (read_uint_le 8 bs off)"

definition read_u64 :: "byte list \<Rightarrow> nat \<Rightarrow> js_error + int" where
  "read_u64 bs off = throw_if_none RangeError (map_option int (read_uint_le 8 bs off))"

definition read_i64 :: "byte list \<Rightarrow> nat \<Rightarrow> js_error + int" where
  "read_i64 bs off = throw_if_none RangeError (read_int64_le bs off)"

text \<open>\<open>Buffer.alloc(8)\<close> with \<open>writeBigUInt64LE(BigInt(n))\<close>; \<open>Buffer.alloc(4)\<close> with \<open>writeUInt32LE(n)\<close>.\<close>

definition u64_buf :: "int \<Rightarrow> js_error + byte list" where
  "u64_buf n = throw_if_none RangeError (write_u64_le n)"

definition u32_buf :: "int \<Rightarrow> js_error + byte list" where
  "u32_buf n = throw_if_none RangeError (write_u32_le n)"

section \<open>Configuration\<close>

datatype SvmChain = Solana | Eclipse | Sonic

definition chain_number :: "SvmChain \<Rightarrow> int" where
  "chain_number c = (case c of Solana \<Rightarrow> 1 | Eclipse \<Rightarrow> 2 | Sonic \<Rightarrow> 3)"

record BridgeConfig =
  bridgeProgramId :: pubkey
  poolAddress :: pubkey
  localChainId :: SvmChain
  localAppId :: int

record bridge_env =
  find_pda :: "byte list list \<Rightarrow> pubkey \<Rightarrow> js_error + pubkey"
  account_info :: "pubkey \<Rightarrow> js_error + byte list option"
  send_tx :: "instruction list \<Rightarrow> pubkey \<Rightarrow> js_error + string"
  DEFAULT_BRIDGE_ID :: pubkey
  DEFAULT_KEY :: pubkey
  SYSTEM_PROGRAM :: pubkey

definition newHolancBridge :: "bridge_env \<Rightarrow> pubkey option \<Rightarrow> pubkey option \<Rightarrow> SvmChain option \<Rightarrow> int option \<Rightarrow>
    BridgeConfig" where
  "newHolancBridge env prog pool chain app =
     \<lparr>bridgeProgramId = or_default prog (DEFAULT_BRIDGE_ID env), poolAddress = or_default pool (DEFAULT_KEY env),
      localChainId = or_default chain Solana, localAppId = or_default app 0\<rparr>"

section \<open>Addresses\<close>

definition getBridgePda :: "bridge_env \<Rightarrow> BridgeConfig \<Rightarrow> pubkey \<Rightarrow> js_error + pubkey" where
  "getBridgePda env cfg pool = find_pda env [utf8 ''bridge'', pool] (bridgeProgramId cfg)"

definition getForeignRootPda :: "bridge_env \<Rightarrow> BridgeConfig \<Rightarrow> pubkey \<Rightarrow> SvmChain \<Rightarrow> int \<Rightarrow> js_error + pubkey" where
  "getForeignRootPda env cfg pool sourceChain ep =
     bind_result (u64_buf (chain_number sourceChain)) (\<lambda>chainBuf.
     bind_result (u64_buf ep) (\<lambda>epochBuf.
       find_pda env [utf8 ''foreign_root'', pool, chainBuf, epochBuf] (bridgeProgramId cfg)))"

definition getCommitmentLockPda :: "bridge_env \<Rightarrow> BridgeConfig \<Rightarrow> pubkey \<Rightarrow> string \<Rightarrow> js_error + pubkey" where
  "getCommitmentLockPda env cfg pool cm =
     find_pda env [utf8 ''lock'', pool, buffer_from_hex cm] (bridgeProgramId cfg)"

definition getOutboundPda :: "bridge_env \<Rightarrow> BridgeConfig \<Rightarrow> pubkey \<Rightarrow> int \<Rightarrow> js_error + pubkey" where
  "getOutboundPda env cfg pool seqno =
     bind_result (u64_buf seqno) (\<lambda>seqBuf.
       find_pda env [utf8 ''outbound'', pool, seqBuf] (bridgeProgramId cfg))"

definition getUnlockRecordPda :: "bridge_env \<Rightarrow> BridgeConfig \<Rightarrow> pubkey \<Rightarrow> SvmChain \<Rightarrow> string \<Rightarrow> js_error + pubkey" where
  "getUnlockRecordPda env cfg pool sourceChain cm =
     bind_result (u64_buf (chain_number sourceChain)) (\<lambda>chainBuf.
       find_pda env [utf8 ''unlock'', pool, chainBuf, buffer_from_hex cm] (bridgeProgramId cfg))"

section \<open>Foreign epoch roots\<close>

record ForeignEpochRoot =
  fr_sourceChain :: SvmChain
  fr_epoch :: int
  nullifierRoot :: string
  nullifierCount :: int
  vaaHash :: string
  receivedAt :: int

definition read_foreign_root :: "SvmChain \<Rightarrow> int \<Rightarrow> byte list \<Rightarrow> js_error + ForeignEpochRoot" where
  "read_foreign_root sourceChain ep account_data =
     (let data = drop 8 account_data in
      bind_result (read_u64 data 72) (\<lambda>cnt.
      bind_result (read_i64 data 112) (\<lambda>recv.
        Inr \<lparr>fr_sourceChain = sourceChain, fr_epoch = ep,
             nullifierRoot = bytesToHex (subarray 40 72 data), nullifierCount = number_of_bigint cnt,
             vaaHash = bytesToHex (subarray 80 112 data), receivedAt = number_of_bigint recv\<rparr>)))"

definition getForeignRoot :: "bridge_env \<Rightarrow> BridgeConfig \<Rightarrow> SvmChain \<Rightarrow> int \<Rightarrow> js_error + ForeignEpochRoot option" where
  "getForeignRoot env cfg sourceChain ep =
     bind_result (getForeignRootPda env cfg (poolAddress cfg) sourceChain ep) (\<lambda>addr.
     bind_result (account_info env addr) (\<lambda>info.
       (case info of
          None \<Rightarrow> Inr None
        | Some data \<Rightarrow> bind_result (read_foreign_root sourceChain ep data) (\<lambda>r. Inr (Some r)))))"

record foreign_search =
  found :: bool
  found_epoch :: "int option"

fun isNullifierOnForeignChain :: "bridge_env \<Rightarrow> BridgeConfig \<Rightarrow> string \<Rightarrow> SvmChain \<Rightarrow> int list \<Rightarrow>
    js_error + foreign_search" where
  "isNullifierOnForeignChain env cfg nf sourceChain [] = Inr \<lparr>found = False, found_epoch = None\<rparr>"
| "isNullifierOnForeignChain env cfg nf sourceChain (ep # epochs) =
     bind_result (getForeignRoot env cfg sourceChain ep) (\<lambda>rt.
       (case rt of
          Some r \<Rightarrow> Inr \<lparr>found = False, found_epoch = Some ep\<rparr>
        | None \<Rightarrow> isNullifierOnForeignChain env cfg nf sourceChain epochs))"

section \<open>Instructions\<close>

definition four_keys :: "bridge_env \<Rightarrow> pubkey \<Rightarrow> pubkey \<Rightarrow> pubkey \<Rightarrow> account_meta list" where
  "four_keys env bridge other self =
     [account bridge False True, account other False True, account self True True,
      account (SYSTEM_PROGRAM env) False False]"

definition publish_data :: "int \<Rightarrow> string \<Rightarrow> int \<Rightarrow> js_error + byte list" where
  "publish_data ep rt cnt =
     bind_result (u64_buf ep) (\<lambda>epochBuf.
     bind_result (u64_buf cnt) (\<lambda>countBuf.
       Inr ([0x5b, 0x8d, 0x4a, 0x2e, 0x13, 0xf7, 0x6c, 0x91] @ epochBuf @ buffer_from_hex rt @ countBuf)))"

definition publishEpochRoot :: "bridge_env \<Rightarrow> BridgeConfig \<Rightarrow> pubkey \<Rightarrow> int \<Rightarrow> string \<Rightarrow> int \<Rightarrow> js_error + string" where
  "publishEpochRoot env cfg self ep rt cnt =
     bind_result (getBridgePda env cfg (poolAddress cfg)) (\<lambda>bridgePda.
     bind_result (getOutboundPda env cfg (poolAddress cfg) ep) (\<lambda>outboundPda.
     bind_result (publish_data ep rt cnt) (\<lambda>data.
       send_tx env [\<lparr>programId = bridgeProgramId cfg,
          ix_keys = four_keys env bridgePda outboundPda self, ix_data = data\<rparr>] self)))"

definition receive_data :: "SvmChain \<Rightarrow> int \<Rightarrow> string \<Rightarrow> int \<Rightarrow> string \<Rightarrow> js_error + byte list" where
  "receive_data sourceChain ep rt cnt vaa =
     bind_result (u64_buf (chain_number sourceChain)) (\<lambda>chainBuf.
     bind_result (u64_buf ep) (\<lambda>epochBuf.
     bind_result (u64_buf cnt) (\<lambda>countBuf.
       Inr ([0x7a, 0x1e, 0xd3, 0x5f, 0x82, 0xab, 0x44, 0xc7] @ chainBuf @ epochBuf
            @ buffer_from_hex rt @ countBuf @ buffer_from_hex vaa))))"

definition receiveEpochRoot :: "bridge_env \<Rightarrow> BridgeConfig \<Rightarrow> pubkey \<Rightarrow> SvmChain \<Rightarrow> int \<Rightarrow> string \<Rightarrow> int \<Rightarrow> string \<Rightarrow>
    js_error + string" where
  "receiveEpochRoot env cfg self sourceChain ep rt cnt vaa =
     bind_result (getBridgePda env cfg (poolAddress cfg)) (\<lambda>bridgePda.
     bind_result (getForeignRootPda env cfg (poolAddress cfg) sourceChain ep) (\<lambda>foreignRootPda.
     bind_result (receive_data sourceChain ep rt cnt vaa) (\<lambda>data.
       send_tx env [\<lparr>programId = bridgeProgramId cfg,
          ix_keys = four_keys env bridgePda foreignRootPda self, ix_data = data\<rparr>] self)))"

definition lock_data :: "string \<Rightarrow> SvmChain \<Rightarrow> byte list \<Rightarrow> js_error + byte list" where
  "lock_data cm destinationChain proof =
     bind_result (u64_buf (chain_number destinationChain)) (\<lambda>chainBuf.
     bind_result (u32_buf (int (length proof))) (\<lambda>proofLenBuf.
       Inr ([0x3c, 0xf2, 0x91, 0xe8, 0x65, 0xd4, 0xa3, 0x17] @ buffer_from_hex cm @ chainBuf
            @ proofLenBuf @ proof)))"

definition lockCommitment :: "bridge_env \<Rightarrow> BridgeConfig \<Rightarrow> pubkey \<Rightarrow> string \<Rightarrow> SvmChain \<Rightarrow> byte list \<Rightarrow>
    js_error + string" where
  "lockCommitment env cfg self cm destinationChain proof =
     bind_result (getBridgePda env cfg (poolAddress cfg)) (\<lambda>bridgePda.
     bind_result (getCommitmentLockPda env cfg (poolAddress cfg) cm) (\<lambda>lockPda.
     bind_result (lock_data cm destinationChain proof) (\<lambda>data.
       send_tx env [\<lparr>programId = bridgeProgramId cfg,
          ix_keys = four_keys env bridgePda lockPda self, ix_data = data\<rparr>] self)))"

definition unlock_data :: "string \<Rightarrow> SvmChain \<Rightarrow> string \<Rightarrow> js_error + byte list" where
  "unlock_data cm sourceChain vaa =
     bind_result (u64_buf (chain_number sourceChain)) (\<lambda>chainBuf.
       Inr ([0x4d, 0xa8, 0x72, 0xb5, 0x3e, 0x1c, 0xf9, 0x06] @ buffer_from_hex cm @ chainBuf
            @ buffer_from_hex vaa))"

definition unlockCommitment :: "bridge_env \<Rightarrow> BridgeConfig \<Rightarrow> pubkey \<Rightarrow> string \<Rightarrow> SvmChain \<Rightarrow> string \<Rightarrow>
    js_error + string" where
  "unlockCommitment env cfg self cm sourceChain vaa =
     bind_result (getBridgePda env cfg (poolAddress cfg)) (\<lambda>bridgePda.
     bind_result (getUnlockRecordPda env cfg (poolAddress cfg) sourceChain cm) (\<lambda>unlockPda.
     bind_result (unlock_data cm sourceChain vaa) (\<lambda>data.
       send_tx env [\<lparr>programId = bridgeProgramId cfg,
          ix_keys = four_keys env bridgePda unlockPda self, ix_data = data\<rparr>] self)))"

section \<open>What the bridge program stores and decodes\<close>

record rust_ForeignRoot =
  rf_pool :: pubkey
  rf_source_chain :: nat
  rf_epoch :: nat
  rf_nullifier_root :: "byte list"
  rf_nullifier_count :: nat
  rf_vaa_hash :: "byte list"
  rf_received_at :: int

definition foreign_root_data :: "byte list \<Rightarrow> rust_ForeignRoot \<Rightarrow> byte list" where
  "foreign_root_data disc s =
     disc @ rf_pool s @ le_bytes 8 (rf_source_chain s) @ le_bytes 8 (rf_epoch s) @ rf_nullifier_root s
     @ le_bytes 8 (rf_nullifier_count s) @ rf_vaa_hash s @ set_big_uint64_le (rf_received_at s)"

definition rust_publish_args :: "nat \<Rightarrow> byte list \<Rightarrow> nat \<Rightarrow> byte list" where
  "rust_publish_args ep rt cnt = le_bytes 8 ep @ rt @ le_bytes 8 cnt"

definition rust_receive_args :: "nat \<Rightarrow> nat \<Rightarrow> byte list \<Rightarrow> nat \<Rightarrow> byte list \<Rightarrow> byte list list \<Rightarrow> byte list" where
  "rust_receive_args chain ep rt cnt vaa sigs =
     le_bytes 8 chain @ le_bytes 8 ep @ rt @ le_bytes 8 cnt @ vaa @ le_bytes 4 (length sigs) @ concat sigs"

definition rust_lock_args :: "byte list \<Rightarrow> nat \<Rightarrow> byte list \<Rightarrow> byte list" where
  "rust_lock_args cm chain proof = cm @ le_bytes 8 chain @ le_bytes 4 (length proof) @ proof"

definition rust_unlock_args :: "byte list \<Rightarrow> nat \<Rightarrow> byte list \<Rightarrow> byte list" where
  "rust_unlock_args cm chain vaa = cm @ le_bytes 8 chain @ vaa"

lemma u64_buf_Inr: "0 \<le> v \<Longrightarrow> v < 2 ^ 64 \<Longrightarrow> u64_buf v = Inr (le_bytes 8 (nat v))"
  by (simp add: u64_buf_def throw_if_none_def write_u64_le_def)

lemma u64_buf_chain: "u64_buf (chain_number c) = Inr (le_bytes 8 (nat (chain_number c)))"
  by (rule u64_buf_Inr) (simp_all add: chain_number_def split: SvmChain.split)

lemma u32_buf_length: "length xs < 2 ^ 32 \<Longrightarrow> u32_buf (int (length xs)) = Inr (le_bytes 4 (length xs))"
  by (simp add: u32_buf_def throw_if_none_def write_u32_le_def)

text \<open>
  The bridge client encodes the arguments the bridge program declares, with one exception: for
  32-byte hashes in hexadecimal and counters of 64 bits, publishing, locking and unlocking send
  exactly the Borsh encoding after the eight discriminator bytes; the data of
  \<open>receiveEpochRoot\<close> lacks the guardian signatures and equals no encoding of that call's arguments.
\<close>

theorem bridge_data_encodes_arguments:
  assumes "0 \<le> ep" "ep < 2 ^ 64" "0 \<le> cnt" "cnt < 2 ^ 64" "length proof < 2 ^ 32"
    and "length rt = 32" "length vaa = 32" "length rt' = 32" "length vaa' = 32" "length disc = 8"
  shows "(\<exists>d. length d = 8 \<and> publish_data ep (buffer_to_hex rt) cnt = Inr (d @ rust_publish_args (nat ep) rt (nat cnt)))
    \<and> (\<exists>d. length d = 8 \<and> lock_data (buffer_to_hex rt) chain proof
          = Inr (d @ rust_lock_args rt (nat (chain_number chain)) proof))
    \<and> (\<exists>d. length d = 8 \<and> unlock_data (buffer_to_hex rt) chain (buffer_to_hex vaa)
          = Inr (d @ rust_unlock_args rt (nat (chain_number chain)) vaa))
    \<and> receive_data chain ep (buffer_to_hex rt) cnt (buffer_to_hex vaa)
          \<noteq> Inr (disc @ rust_receive_args chain' ep' rt' cnt' vaa' sigs)"
proof (intro conjI)
  show "\<exists>d. length d = 8 \<and> publish_data ep (buffer_to_hex rt) cnt = Inr (d @ rust_publish_args (nat ep) rt (nat cnt))"
    by (rule exI [of _ "[0x5b, 0x8d, 0x4a, 0x2e, 0x13, 0xf7, 0x6c, 0x91]"])
      (simp add: publish_data_def u64_buf_Inr [OF assms(1,2)] u64_buf_Inr [OF assms(3,4)] codec_simps
        rust_publish_args_def)
  show "\<exists>d. length d = 8 \<and> lock_data (buffer_to_hex rt) chain proof
          = Inr (d @ rust_lock_args rt (nat (chain_number chain)) proof)"
    by (rule exI [of _ "[0x3c, 0xf2, 0x91, 0xe8, 0x65, 0xd4, 0xa3, 0x17]"])
      (simp add: lock_data_def u64_buf_chain u32_buf_length [OF assms(5)] codec_simps rust_lock_args_def)
  show "\<exists>d. length d = 8 \<and> unlock_data (buffer_to_hex rt) chain (buffer_to_hex vaa)
          = Inr (d @ rust_unlock_args rt (nat (chain_number chain)) vaa)"
    by (rule exI [of _ "[0x4d, 0xa8, 0x72, 0xb5, 0x3e, 0x1c, 0xf9, 0x06]"])
      (simp add: unlock_data_def u64_buf_chain codec_simps rust_unlock_args_def)
  have "length data = 96" if "receive_data chain ep (buffer_to_hex rt) cnt (buffer_to_hex vaa) = Inr data" for data
    using that by (auto simp: receive_data_def u64_buf_chain u64_buf_Inr [OF assms(1,2)] u64_buf_Inr [OF assms(3,4)]
        assms(6,7) codec_simps)
  moreover have "100 \<le> length (disc @ rust_receive_args chain' ep' rt' cnt' vaa' sigs)"
    using assms(8-10) by (simp add: rust_receive_args_def)
  ultimately show "receive_data chain ep (buffer_to_hex rt) cnt (buffer_to_hex vaa)
          \<noteq> Inr (disc @ rust_receive_args chain' ep' rt' cnt' vaa' sigs)"
    by force
qed

lemma bridge_data_encodes_arguments_witness:
  "\<exists>d. length d = 8 \<and> publish_data 7 (buffer_to_hex (replicate 32 1)) 3 = Inr (d @ rust_publish_args 7 (replicate 32 1) 3)"
  using bridge_data_encodes_arguments [of 7 3 "[]" "replicate 32 1" "replicate 32 2" "replicate 32 0"
      "replicate 32 0" "replicate 8 0" Solana 0 0 0 "[]"] by simp

text \<open>
  A foreign epoch root is read eight bytes too early: on the account as the bridge program writes
  it, the root the client reports is the epoch number followed by the first 24 bytes of the root,
  the count is the last eight bytes of the root, and the message hash and the time are shifted
  likewise. The stored count and time do not influence what is reported as such.
\<close>

theorem foreign_root_shifted:
  assumes "length disc = 8" "length (rf_pool s) = 32" "length (rf_nullifier_root s) = 32" "length (rf_vaa_hash s) = 32"
  shows "\<exists>r. read_foreign_root chain ep (foreign_root_data disc s) = Inr r
    \<and> nullifierRoot r = buffer_to_hex (le_bytes 8 (rf_epoch s) @ take 24 (rf_nullifier_root s))
    \<and> nullifierCount r = number_of_bigint (int (le_value (drop 24 (rf_nullifier_root s))))
    \<and> vaaHash r = buffer_to_hex (le_bytes 8 (rf_nullifier_count s) @ take 24 (rf_vaa_hash s))
    \<and> (read_foreign_root chain ep (foreign_root_data disc (s\<lparr>rf_received_at := z\<rparr>)) = Inr r)"
proof -
  let ?a = "rf_pool s @ le_bytes 8 (rf_source_chain s)"
  have split24: "xs = take 24 xs @ drop 24 xs" for xs :: "byte list"
    by simp
  have rt: "length (take 24 (rf_nullifier_root s)) = 24" "length (drop 24 (rf_nullifier_root s)) = 8"
    and vaa: "length (take 24 (rf_vaa_hash s)) = 24" "length (drop 24 (rf_vaa_hash s)) = 8"
    using assms by simp_all
  have data: "drop 8 (foreign_root_data disc u) = ?a @ (le_bytes 8 (rf_epoch s) @ take 24 (rf_nullifier_root s))
      @ drop 24 (rf_nullifier_root s) @ (le_bytes 8 (rf_nullifier_count s) @ take 24 (rf_vaa_hash s))
      @ drop 24 (rf_vaa_hash s) @ set_big_uint64_le (rf_received_at u)"
    if "u = s \<or> u = s\<lparr>rf_received_at := z\<rparr>" for u
    using that assms(1) by (auto simp: foreign_root_data_def)
  let ?r = "read_foreign_root chain ep"
  have read: "\<exists>r. ?r (foreign_root_data disc u) = Inr r
      \<and> nullifierRoot r = buffer_to_hex (le_bytes 8 (rf_epoch s) @ take 24 (rf_nullifier_root s))
      \<and> nullifierCount r = number_of_bigint (int (le_value (drop 24 (rf_nullifier_root s))))
      \<and> vaaHash r = buffer_to_hex (le_bytes 8 (rf_nullifier_count s) @ take 24 (rf_vaa_hash s))
      \<and> r = \<lparr>fr_sourceChain = chain, fr_epoch = ep, nullifierRoot = nullifierRoot r, nullifierCount = nullifierCount r,
             vaaHash = vaaHash r, receivedAt = number_of_bigint
               (if le_value (drop 24 (rf_vaa_hash s)) < 2 ^ 63 then int (le_value (drop 24 (rf_vaa_hash s)))
                else int (le_value (drop 24 (rf_vaa_hash s))) - 2 ^ 64)\<rparr>"
    if "u = s \<or> u = s\<lparr>rf_received_at := z\<rparr>" for u
    using assms(2) rt vaa
    by (simp add: read_foreign_root_def data [OF that] Let_def read_u64_def read_i64_def read_int64_le_def
        read_uint_le_def throw_if_none_def subarray_def codec_simps)
  then show ?thesis
    using read [of s] read [of "s\<lparr>rf_received_at := z\<rparr>"] by (metis (no_types, lifting))
qed

lemma foreign_root_shifted_witness:
  "\<exists>r. read_foreign_root Eclipse 5 (foreign_root_data (replicate 8 0)
       \<lparr>rf_pool = replicate 32 1, rf_source_chain = 2, rf_epoch = 5, rf_nullifier_root = replicate 32 9,
        rf_nullifier_count = 3, rf_vaa_hash = replicate 32 8, rf_received_at = 100\<rparr>) = Inr r
     \<and> nullifierRoot r = buffer_to_hex (le_bytes 8 5 @ replicate 24 9)"
  using foreign_root_shifted [of "replicate 8 0" "\<lparr>rf_pool = replicate 32 1, rf_source_chain = 2, rf_epoch = 5,
        rf_nullifier_root = replicate 32 9, rf_nullifier_count = 3, rf_vaa_hash = replicate 32 8,
        rf_received_at = 100\<rparr>" Eclipse 5 0] by auto

end
