(* ===== verification/Sdk_Compliance.thy ===== *)
theory Sdk_Compliance
  imports Sdk_Bridge
begin

text \<open>
  sdk/typescript/src/compliance.ts: the addresses, account readers and instructions of the compliance
  client, and what they make of the accounts the compliance program writes. The oracle's name is the
  one text that need not be ASCII: it is a list of code points. Web3.js is the same record as for
  the bridge.
\<close>

section \<open>Data\<close>

datatype ComplianceMode = Permissionless | OptionalDisclosure | MandatoryDisclosure

datatype DisclosureScope = Full | TimeBounded | AmountBounded

definition OraclePermissions :: "(string \<times> int) list" where
  "OraclePermissions = [(''ViewBalance'', push_bit 0 1), (''ViewTransactions'', push_bit 1 1),
     (''ViewIdentity'', push_bit 2 1), (''AttestWealth'', push_bit 3 1), (''Freeze'', push_bit 4 1)]"

record ComplianceConfig =
  complianceProgramId :: pubkey
  cc_poolAddress :: pubkey

definition newHolancCompliance :: "bridge_env \<Rightarrow> pubkey \<Rightarrow> pubkey option \<Rightarrow> pubkey option \<Rightarrow> ComplianceConfig" where
  "newHolancCompliance env COMPLIANCE_PROGRAM_ID prog pool =
     \<lparr>complianceProgramId = or_default prog COMPLIANCE_PROGRAM_ID, cc_poolAddress = or_default pool (DEFAULT_KEY env)\<rparr>"

record OracleRecord =
  or_oracle :: pubkey
  or_name :: "nat list"
  or_permissions :: int
  or_isActive :: bool
  or_registeredAt :: int

record WealthAttestation =
  wa_owner :: pubkey
  thresholdLamports :: int
  attestedAt :: int
  expiresAt :: int
  wa_oracle :: pubkey
  isValid :: bool

section \<open>Text\<close>

text \<open>UTF-8 bytes and UTF-16 length of a text given by its code points.\<close>

definition utf8_units :: "nat \<Rightarrow> nat list" where
  "utf8_units c =
     (if c < 0x80 then [c]
      else if c < 0x800 then [0xC0 + c div 64, 0x80 + c mod 64]
      else if c < 0x10000 then [0xE0 + c div 4096, 0x80 + c div 64 mod 64, 0x80 + c mod 64]
      else [0xF0 + c div 262144, 0x80 + c div 4096 mod 64, 0x80 + c div 64 mod 64, 0x80 + c mod 64])"

definition utf8_encode :: "nat list \<Rightarrow> byte list" where
  "utf8_encode cs = map of_nat (concat (map utf8_units cs))"

definition js_length :: "nat list \<Rightarrow> nat" where
  "js_length cs = sum_list (map (\<lambda>c. if c < 0x10000 then 1 else 2) cs)"

text \<open>
  \<open>toString("utf8")\<close>: the decoder holds the number of continuation bytes it still needs, the range
  the next one must lie in and the bits read so far; an ill-formed sequence gives U+FFFD and the
  offending byte is looked at again.
\<close>

function utf8_decode :: "nat \<Rightarrow> nat \<Rightarrow> nat \<Rightarrow> nat \<Rightarrow> nat list \<Rightarrow> nat list" where
  "utf8_decode needed lo hi cp [] = (if needed = 0 then [] else [0xFFFD])"
| "utf8_decode needed lo hi cp (b # bs) =
     (if needed = 0 then
        (if b < 0x80 then b # utf8_decode 0 0x80 0xBF 0 bs
         else if 0xC2 \<le> b \<and> b \<le> 0xDF then utf8_decode 1 0x80 0xBF (b - 0xC0) bs
         else if 0xE0 \<le> b \<and> b \<le> 0xEF then
           utf8_decode 2 (if b = 0xE0 then 0xA0 else 0x80) (if b = 0xED then 0x9F else 0xBF) (b - 0xE0) bs
         else if 0xF0 \<le> b \<and> b \<le> 0xF4 then
           utf8_decode 3 (if b = 0xF0 then 0x90 else 0x80) (if b = 0xF4 then 0x8F else 0xBF) (b - 0xF0) bs
         else 0xFFFD # utf8_decode 0 0x80 0xBF 0 bs)
      else if b < lo \<or> hi < b then 0xFFFD # utf8_decode 0 0x80 0xBF 0 (b # bs)
      else if needed = 1 then (cp * 64 + (b - 0x80)) # utf8_decode 0 0x80 0xBF 0 bs
      else utf8_decode (needed - 1) 0x80 0xBF (cp * 64 + (b - 0x80)) bs)"
  by pat_completeness auto

termination
  by (relation "measures [\<lambda>(n, lo, hi, cp, bs). length bs, \<lambda>(n, lo, hi, cp, bs). n]") auto

definition utf8_text :: "byte list \<Rightarrow> nat list" where
  "utf8_text bs = utf8_decode 0 0x80 0xBF 0 (map unat bs)"

section \<open>Addresses\<close>

definition getCompliancePda :: "bridge_env \<Rightarrow> ComplianceConfig \<Rightarrow> pubkey \<Rightarrow> js_error + pubkey" where
  "getCompliancePda env cfg pool = find_pda env [utf8 ''compliance'', pool] (complianceProgramId cfg)"

definition getOraclePda :: "bridge_env \<Rightarrow> ComplianceConfig \<Rightarrow> pubkey \<Rightarrow> pubkey \<Rightarrow> js_error + pubkey" where
  "getOraclePda env cfg pool oracle = find_pda env [utf8 ''oracle'', pool, oracle] (complianceProgramId cfg)"

definition getDisclosurePda :: "bridge_env \<Rightarrow> ComplianceConfig \<Rightarrow> pubkey \<Rightarrow> pubkey \<Rightarrow> pubkey \<Rightarrow> js_error + pubkey" where
  "getDisclosurePda env cfg pool user oracle =
     find_pda env [utf8 ''disclosure'', pool, user, oracle] (complianceProgramId cfg)"

definition getWealthAttestationPda :: "bridge_env \<Rightarrow> ComplianceConfig \<Rightarrow> pubkey \<Rightarrow> pubkey \<Rightarrow> js_error + pubkey" where
  "getWealthAttestationPda env cfg pool own =
     find_pda env [utf8 ''wealth'', pool, own] (complianceProgramId cfg)"

section \<open>Account readers\<close>

definition read_u8 :: "byte list \<Rightarrow> nat \<Rightarrow> js_error + int" where
  "read_u8 bs off = throw_if_none RangeError (map_option int (read_uint_le 1 bs off))"

definition read_oracle :: "pubkey \<Rightarrow> byte list \<Rightarrow> js_error + OracleRecord" where
  "read_oracle oracle account_data =
     (let data = drop 8 account_data in
      bind_result (read_u8 data 64) (\<lambda>perms.
      bind_result (read_u8 data 65) (\<lambda>active.
      bind_result (read_i64 data 66) (\<lambda>registered.
        Inr \<lparr>or_oracle = oracle, or_name = filter (\<lambda>c. c \<noteq> 0) (utf8_text (subarray 32 64 data)),
             or_permissions = perms, or_isActive = (active = 1),
             or_registeredAt = number_of_bigint registered\<rparr>))))"

definition getOracle :: "bridge_env \<Rightarrow> ComplianceConfig \<Rightarrow> pubkey \<Rightarrow> js_error + OracleRecord option" where
  "getOracle env cfg oracle =
     bind_result (getOraclePda env cfg (cc_poolAddress cfg) oracle) (\<lambda>addr.
     bind_result (account_info env addr) (\<lambda>info.
       (case info of
          None \<Rightarrow> Inr None
        | Some data \<Rightarrow> bind_result (read_oracle oracle data) (\<lambda>r. Inr (Some r)))))"

text \<open>\<open>new PublicKey(bytes)\<close> throws for more than 32 bytes and pads a shorter key on the left.\<close>

definition new_PublicKey :: "byte list \<Rightarrow> js_error + pubkey" where
  "new_PublicKey bs =
     (if 32 < length bs then Inl (Error ''Invalid public key input'')
      else Inr (replicate (32 - length bs) 0 @ bs))"

definition read_attestation :: "pubkey \<Rightarrow> byte list \<Rightarrow> js_error + WealthAttestation" where
  "read_attestation own account_data =
     (let data = drop 8 account_data in
      bind_result (read_u64 data 32) (\<lambda>thr.
      bind_result (read_i64 data 40) (\<lambda>attested.
      bind_result (read_i64 data 48) (\<lambda>expires.
      bind_result (new_PublicKey (subarray 56 88 data)) (\<lambda>oracle.
      bind_result (read_u8 data 88) (\<lambda>valid.
        Inr \<lparr>wa_owner = own, thresholdLamports = thr, attestedAt = number_of_bigint attested,
             expiresAt = number_of_bigint expires, wa_oracle = oracle, isValid = (valid = 1)\<rparr>))))))"

definition getWealthAttestation :: "bridge_env \<Rightarrow> ComplianceConfig \<Rightarrow> pubkey \<Rightarrow> js_error + WealthAttestation option" where
  "getWealthAttestation env cfg own =
     bind_result (getWealthAttestationPda env cfg (cc_poolAddress cfg) own) (\<lambda>addr.
     bind_result (account_info env addr) (\<lambda>info.
       (case info of
          None \<Rightarrow> Inr None
        | Some data \<Rightarrow> bind_result (read_attestation own data) (\<lambda>r. Inr (Some r)))))"

definition isWealthAttestationValid :: "bridge_env \<Rightarrow> ComplianceConfig \<Rightarrow> int \<Rightarrow> pubkey \<Rightarrow> js_error + bool" where
  "isWealthAttestationValid env cfg now_ms own =
     bind_result (getWealthAttestation env cfg own) (\<lambda>attestation.
       (case attestation of
          None \<Rightarrow> Inr False
        | Some a \<Rightarrow> if \<not> isValid a then Inr False else Inr (now_ms div 1000 < expiresAt a)))"

section \<open>Instructions\<close>

record oracle_permissions =
  canView :: bool
  canRequestWealthProof :: bool
  canFlag :: bool

text \<open>\<open>Buffer.alloc(32)\<close>, then a copy of at most \<open>min(oracleName.length, 32)\<close> bytes of the UTF-8 text.\<close>

definition name_buf :: "nat list \<Rightarrow> byte list" where
  "name_buf oracleName = copy_to_new 32 (take (min (js_length oracleName) 32) (utf8_encode oracleName))"

definition register_data :: "pubkey \<Rightarrow> nat list \<Rightarrow> oracle_permissions \<Rightarrow> byte list" where
  "register_data oraclePubkey oracleName perms =
     [0x6e, 0x2a, 0xf1, 0xc5, 0x83, 0xd9, 0x47, 0xb2] @ oraclePubkey @ name_buf oracleName
     @ [of_bool (canView perms), of_bool (canRequestWealthProof perms), of_bool (canFlag perms)]"

definition registerOracle :: "bridge_env \<Rightarrow> ComplianceConfig \<Rightarrow> pubkey \<Rightarrow> pubkey \<Rightarrow> nat list \<Rightarrow>
    oracle_permissions \<Rightarrow> js_error + string" where
  "registerOracle env cfg self oraclePubkey oracleName perms =
     bind_result (getCompliancePda env cfg (cc_poolAddress cfg)) (\<lambda>compliancePda.
     bind_result (getOraclePda env cfg (cc_poolAddress cfg) oraclePubkey) (\<lambda>oraclePda.
       send_tx env [\<lparr>programId = complianceProgramId cfg,
          ix_keys = four_keys env compliancePda oraclePda self,
          ix_data = register_data oraclePubkey oracleName perms\<rparr>] self))"

definition serializeDisclosureScope :: "DisclosureScope \<Rightarrow> byte list" where
  "serializeDisclosureScope scope =
     (if scope = Full then [0] else if scope = TimeBounded then [1] else [2])"

definition disclose_data :: "byte list \<Rightarrow> DisclosureScope \<Rightarrow> js_error + byte list" where
  "disclose_data encryptedViewingKey scope =
     bind_result (u32_buf (int (length encryptedViewingKey))) (\<lambda>keyLenBuf.
       Inr ([0x8f, 0x3c, 0xe7, 0x54, 0x19, 0xab, 0x62, 0xd8] @ keyLenBuf @ encryptedViewingKey
            @ serializeDisclosureScope scope))"

definition discloseViewingKey :: "bridge_env \<Rightarrow> ComplianceConfig \<Rightarrow> pubkey \<Rightarrow> pubkey \<Rightarrow> byte list \<Rightarrow>
    DisclosureScope \<Rightarrow> js_error + string" where
  "discloseViewingKey env cfg self oracle encryptedViewingKey scope =
     bind_result (getCompliancePda env cfg (cc_poolAddress cfg)) (\<lambda>compliancePda.
     bind_result (getOraclePda env cfg (cc_poolAddress cfg) oracle) (\<lambda>oraclePda.
     bind_result (getDisclosurePda env cfg (cc_poolAddress cfg) self oracle) (\<lambda>disclosurePda.
     bind_result (disclose_data encryptedViewingKey scope) (\<lambda>data.
       send_tx env [\<lparr>programId = complianceProgramId cfg,
          ix_keys = [account compliancePda False True, account oraclePda False False,
            account disclosurePda False True, account self True True,
            account (SYSTEM_PROGRAM env) False False],
          ix_data = data\<rparr>] self))))"

definition revokeDisclosure :: "bridge_env \<Rightarrow> ComplianceConfig \<Rightarrow> pubkey \<Rightarrow> pubkey \<Rightarrow> js_error + string" where
  "revokeDisclosure env cfg self oracle =
     bind_result (getDisclosurePda env cfg (cc_poolAddress cfg) self oracle) (\<lambda>disclosurePda.
       send_tx env [\<lparr>programId = complianceProgramId cfg,
          ix_keys = [account disclosurePda False True, account self True False],
          ix_data = [0xa1, 0x5b, 0xe4, 0x37, 0xc2, 0x68, 0xf9, 0x13]\<rparr>] self)"

definition wealth_data :: "int \<Rightarrow> byte list \<Rightarrow> int \<Rightarrow> js_error + byte list" where
  "wealth_data thr proofData circuitType =
     bind_result (u64_buf thr) (\<lambda>thresholdBuf.
     bind_result (u32_buf (int (length proofData))) (\<lambda>proofLenBuf.
       Inr ([0xd2, 0x47, 0x83, 0xbc, 0x5a, 0xf1, 0x96, 0x0e] @ thresholdBuf @ proofLenBuf @ proofData
            @ [word_of_int circuitType])))"

definition submitWealthProof :: "bridge_env \<Rightarrow> ComplianceConfig \<Rightarrow> pubkey \<Rightarrow> int \<Rightarrow> byte list \<Rightarrow> int \<Rightarrow>
    js_error + string" where
  "submitWealthProof env cfg self thr proofData circuitType =
     bind_result (getCompliancePda env cfg (cc_poolAddress cfg)) (\<lambda>compliancePda.
     bind_result (getWealthAttestationPda env cfg (cc_poolAddress cfg) self) (\<lambda>wealthPda.
     bind_result (wealth_data thr proofData circuitType) (\<lambda>data.
       send_tx env [\<lparr>programId = complianceProgramId cfg,
          ix_keys = [account compliancePda False False, account wealthPda False True,
            account self True True, account (SYSTEM_PROGRAM env) False False],
          ix_data = data\<rparr>] self)))"

section \<open>What the compliance program stores\<close>

record rust_WealthAttestation =
  rw_pool :: pubkey
  rw_prover :: pubkey
  rw_threshold :: nat
  rw_proof_hash :: "byte list"
  rw_circuit_type :: byte
  rw_attested_at :: int
  rw_is_valid :: bool
  rw_expiry :: int

definition attestation_data :: "byte list \<Rightarrow> rust_WealthAttestation \<Rightarrow> byte list" where
  "attestation_data disc s =
     disc @ rw_pool s @ rw_prover s @ le_bytes 8 (rw_threshold s) @ rw_proof_hash s @ [rw_circuit_type s]
     @ set_big_uint64_le (rw_attested_at s) @ [of_bool (rw_is_valid s)] @ set_big_uint64_le (rw_expiry s)"

definition int64_of_bytes :: "byte list \<Rightarrow> int" where
  "int64_of_bytes bs = (if le_value bs < 2 ^ 63 then int (le_value bs) else int (le_value bs) - 2 ^ 64)"

text \<open>The fields the reader takes from an account, by offset.\<close>

lemma read_attestation_parts:
  assumes "length disc = 8" "length pre = 32" "length t = 8" "length a = 8" "length e = 8" "length k = 32"
  shows "read_attestation own (disc @ pre @ t @ a @ e @ k @ b # rest) =
    Inr \<lparr>wa_owner = own, thresholdLamports = int (le_value t), attestedAt = number_of_bigint (int64_of_bytes a),
         expiresAt = number_of_bigint (int64_of_bytes e), wa_oracle = k, isValid = (b = 1)\<rparr>"
proof -
  have "uint b = 1 \<longleftrightarrow> b = 1"
    by (simp add: word_uint_eq_iff)
  then show ?thesis
    using assms by (simp add: read_attestation_def read_u64_def read_i64_def read_u8_def read_int64_le_def read_uint_le_def
      throw_if_none_def subarray_def new_PublicKey_def int64_of_bytes_def)
qed

lemma take_drop_24: "xs = take 8 xs @ take 8 (drop 8 xs) @ take 8 (drop 16 xs) @ drop 24 xs"
proof -
  have "xs = take 8 xs @ drop 8 xs" "drop 8 xs = take 8 (drop 8 xs) @ drop 16 xs"
    "drop 16 xs = take 8 (drop 16 xs) @ drop 24 xs"
    using append_take_drop_id [of 8 xs] append_take_drop_id [of 8 "drop 8 xs"] append_take_drop_id [of 8 "drop 16 xs"]
    by simp_all
  then show ?thesis by simp
qed

text \<open>
  The verdict on a wealth attestation does not depend on what the program recorded about it: on
  the account as the program writes it, the flag read is byte 16 of the proof hash, and the expiry,
  the attestation time and the threshold are bytes of the prover's key. Revoking the attestation or
  letting it expire on chain leaves the verdict of \<open>isWealthAttestationValid\<close> unchanged.
\<close>

theorem attestation_verdict_ignores_chain:
  assumes "length disc = 8" "length (rw_pool s) = 32" "length (rw_prover s) = 32" "length (rw_proof_hash s) = 32"
    and "getWealthAttestationPda env cfg (cc_poolAddress cfg) own = Inr addr"
    and "account_info env addr = Inr (Some (attestation_data disc (s\<lparr>rw_is_valid := v, rw_expiry := e\<rparr>)))"
  shows "isWealthAttestationValid env cfg now_ms own =
    Inr (rw_proof_hash s ! 16 = 1 \<and>
         now_ms div 1000 < number_of_bigint (int64_of_bytes (take 8 (drop 16 (rw_prover s)))))"
proof -
  let ?h = "rw_proof_hash s" and ?p = "rw_prover s"
  have h: "?h @ r = take 16 ?h @ ?h ! 16 # drop 17 ?h @ r" for r
    using arg_cong [OF id_take_nth_drop [of 16 ?h], of "\<lambda>xs. xs @ r"] assms(4) by simp
  have p: "?p @ r = take 8 ?p @ take 8 (drop 8 ?p) @ take 8 (drop 16 ?p) @ drop 24 ?p @ r" for r
    using arg_cong [OF take_drop_24 [of ?p], of "\<lambda>xs. xs @ r"] by simp
  have "attestation_data disc (s\<lparr>rw_is_valid := v, rw_expiry := e\<rparr>) =
      disc @ rw_pool s @ take 8 ?p @ take 8 (drop 8 ?p) @ take 8 (drop 16 ?p)
      @ (drop 24 ?p @ le_bytes 8 (rw_threshold s) @ take 16 ?h) @ ?h ! 16 # (drop 17 ?h @ [rw_circuit_type s]
      @ set_big_uint64_le (rw_attested_at s) @ [of_bool v] @ set_big_uint64_le e)"
    by (simp add: attestation_data_def flip: p h)
  then have "\<exists>r. read_attestation own (attestation_data disc (s\<lparr>rw_is_valid := v, rw_expiry := e\<rparr>)) = Inr r
      \<and> isValid r = (?h ! 16 = 1) \<and> expiresAt r = number_of_bigint (int64_of_bytes (take 8 (drop 16 ?p)))"
    by (simp only: read_attestation_parts assms(1-4) length_take length_drop length_append length_le_bytes) simp
  then show ?thesis
    using assms(5,6) by (auto simp: isWealthAttestationValid_def getWealthAttestation_def)
qed

definition revoked_attestation :: rust_WealthAttestation where
  "revoked_attestation = \<lparr>rw_pool = replicate 32 0, rw_prover = replicate 16 0 @ [0, 0, 0, 0, 1, 0, 0, 0] @ replicate 8 0, rw_threshold = 0,
     rw_proof_hash = replicate 16 0 @ [1] @ replicate 15 0, rw_circuit_type = 0, rw_attested_at = 0,
     rw_is_valid = True, rw_expiry = 50\<rparr>"

lemma attestation_verdict_ignores_chain_witness:
  "isWealthAttestationValid
     \<lparr>find_pda = (\<lambda>_ _. Inr []),
      account_info = (\<lambda>_. Inr (Some (attestation_data (replicate 8 0) (revoked_attestation\<lparr>rw_is_valid := False, rw_expiry := 0\<rparr>)))),
      send_tx = (\<lambda>_ _. Inr []), DEFAULT_BRIDGE_ID = [], DEFAULT_KEY = [], SYSTEM_PROGRAM = []\<rparr>
     \<lparr>complianceProgramId = [], cc_poolAddress = []\<rparr> 60000 [] = Inr True"
  by (subst attestation_verdict_ignores_chain [where disc = "replicate 8 0" and s = revoked_attestation
        and addr = "[]" and v = False and e = 0])
    (simp_all add: revoked_attestation_def getWealthAttestationPda_def int64_of_bytes_def nth_append)

section \<open>The oracle's name\<close>

lemma utf8_encode_Cons: "utf8_encode (c # cs) = map of_nat (utf8_units c) @ utf8_encode cs"
  by (simp add: utf8_encode_def)

lemma utf8_ascii: "\<forall>c \<in> set cs. c < 0x80 \<Longrightarrow> utf8_encode cs = map of_nat cs \<and> js_length cs = length cs"
  by (induction cs) (auto simp: utf8_encode_def js_length_def utf8_units_def)

lemma utf8_decode_ascii: "\<forall>c \<in> set cs. c < 0x80 \<Longrightarrow> utf8_decode 0 0x80 0xBF 0 (cs @ replicate n 0) = cs @ replicate n 0"
proof (induction cs)
  case Nil
  show ?case by (induction n) auto
qed auto

lemma utf8_units_lengths:
  "js_length [c] \<le> length (utf8_units c)" "0x80 \<le> c \<Longrightarrow> js_length [c] < length (utf8_units c)"
  by (auto simp: js_length_def utf8_units_def)

lemma js_length_Cons: "js_length (c # cs) = js_length [c] + js_length cs"
  by (simp add: js_length_def)

lemma js_length_le: "js_length cs \<le> length (utf8_encode cs)"
proof (induction cs)
  case (Cons c cs)
  then show ?case
    using utf8_units_lengths(1) [of c] js_length_Cons [of c cs] by (simp add: utf8_encode_Cons)
qed (simp add: js_length_def)

lemma js_length_less: "\<exists>c \<in> set cs. 0x80 \<le> c \<Longrightarrow> js_length cs < length (utf8_encode cs)"
proof (induction cs)
  case (Cons c cs)
  then show ?case
    using utf8_units_lengths [of c] js_length_Cons [of c cs] js_length_le [of cs]
    by (cases "0x80 \<le> c") (auto simp: utf8_encode_Cons intro: add_le_less_mono add_less_le_mono)
qed simp

lemma byte_nonzero: "0 < n \<Longrightarrow> n < 256 \<Longrightarrow> (of_nat n :: byte) \<noteq> 0"
  by (metis less_irrefl mod_less unat_of_nat_byte unsigned_0)

lemma utf8_units_range: "c < 0x110000 \<Longrightarrow> n \<in> set (utf8_units c) \<Longrightarrow> n < 256 \<and> (0 < c \<longrightarrow> 0 < n)"
proof -
  assume c: "c < 0x110000" and n: "n \<in> set (utf8_units c)"
  have "c < 0x800 \<Longrightarrow> c div 64 < 32" "c < 0x10000 \<Longrightarrow> c div 4096 < 16" "c div 262144 < 8"
    using c by (simp_all add: less_mult_imp_div_less)
  moreover have "c mod 64 < 64" "c div 64 mod 64 < 64" "c div 4096 mod 64 < 64"
    by simp_all
  ultimately show ?thesis
    using n by (simp add: utf8_units_def split: if_splits) (elim disjE; linarith)+
qed

lemma utf8_nonzero: "\<forall>c \<in> set cs. 0 < c \<and> c < 0x110000 \<Longrightarrow> \<forall>b \<in> set (utf8_encode cs). b \<noteq> 0"
  using utf8_units_range byte_nonzero by (fastforce simp: utf8_encode_def)

definition rust_register_args :: "pubkey \<Rightarrow> byte list \<Rightarrow> bool \<Rightarrow> bool \<Rightarrow> bool \<Rightarrow> byte list" where
  "rust_register_args key nm v w f = key @ nm @ [of_bool v, of_bool w, of_bool f]"

lemma name_buf_cut:
  assumes "js_length cs < length (utf8_encode cs)" "length (utf8_encode cs) \<le> 32" "\<forall>b \<in> set (utf8_encode cs). b \<noteq> 0"
  shows "name_buf cs \<noteq> copy_to_new 32 (utf8_encode cs)"
proof
  let ?u = "utf8_encode cs" and ?n = "js_length cs"
  assume eq: "name_buf cs = copy_to_new 32 ?u"
  have "name_buf cs ! ?n = 0"
    using assms(1,2) by (simp add: name_buf_def copy_to_new_def nth_append)
  moreover have "copy_to_new 32 ?u ! ?n = ?u ! ?n"
    using assms(1,2) by (simp add: copy_to_new_def nth_append)
  moreover have "?u ! ?n \<noteq> 0"
    using assms(1,3) nth_mem by blast
  ultimately show False using eq by simp
qed

text \<open>
  Registration sends the oracle's key, its name and the three permission flags as the program
  declares them. An ASCII name of at most 32 characters fills the name field with its own bytes,
  padded with zeros, and decoding the field and dropping the zeros gives the name back. A name with
  any other character is cut short although it fits: the field is not the padded UTF-8 text.
\<close>

theorem oracle_name_field:
  assumes "\<forall>c \<in> set cs. 0 < c \<and> c < 0x110000" "length (utf8_encode cs) \<le> 32"
  shows "(\<exists>d. length d = 8 \<and> register_data key cs p
      = d @ rust_register_args key (name_buf cs) (canView p) (canRequestWealthProof p) (canFlag p))
    \<and> length (name_buf cs) = 32
    \<and> ((\<forall>c \<in> set cs. c < 0x80) \<longleftrightarrow> name_buf cs = copy_to_new 32 (utf8_encode cs))
    \<and> ((\<forall>c \<in> set cs. c < 0x80) \<longrightarrow> filter (\<lambda>c. c \<noteq> 0) (utf8_text (name_buf cs)) = cs)"
proof -
  let ?ascii = "\<forall>c \<in> set cs. c < 0x80"
  have encodes: "\<exists>d. length d = 8 \<and> register_data key cs p
      = d @ rust_register_args key (name_buf cs) (canView p) (canRequestWealthProof p) (canFlag p)"
    by (rule exI [of _ "[0x6e, 0x2a, 0xf1, 0xc5, 0x83, 0xd9, 0x47, 0xb2]"])
      (simp add: register_data_def rust_register_args_def)
  have full: "name_buf cs = copy_to_new 32 (utf8_encode cs)" if "?ascii"
    using utf8_ascii [OF that] assms(2) by (simp add: name_buf_def)
  have cut: "name_buf cs \<noteq> copy_to_new 32 (utf8_encode cs)" if "\<not> ?ascii"
    using name_buf_cut [of cs] js_length_less [of cs] utf8_nonzero [OF assms(1)] assms(2) that by (auto simp: not_less)
  have read_back: "filter (\<lambda>c. c \<noteq> 0) (utf8_text (name_buf cs)) = cs" if "?ascii"
  proof -
    have small: "map (unat \<circ> (of_nat :: nat \<Rightarrow> byte)) cs = cs"
      using that by (intro map_idI) auto
    have "map unat (name_buf cs) = cs @ replicate (32 - length cs) 0"
      using full [OF that] utf8_ascii [OF that] assms(2) small by (simp add: copy_to_new_def)
    then have "utf8_text (name_buf cs) = cs @ replicate (32 - length cs) 0"
      using utf8_decode_ascii [OF that] by (simp add: utf8_text_def)
    then show ?thesis
      using assms(1) by (simp add: filter_id_conv)
  qed
  show ?thesis
    using encodes full cut read_back by (auto simp: name_buf_def)
qed

lemma oracle_name_field_witness:
  "filter (\<lambda>c. c \<noteq> 0) (utf8_text (name_buf [65, 109, 121])) = [65, 109, 121]
   \<and> name_buf [0x42, 0xE9] \<noteq> copy_to_new 32 (utf8_encode [0x42, 0xE9])"
  using oracle_name_field [of "[65, 109, 121]" "[]" "\<lparr>canView = True, canRequestWealthProof = True, canFlag = True\<rparr>"]
    oracle_name_field [of "[0x42, 0xE9]" "[]" "\<lparr>canView = True, canRequestWealthProof = True, canFlag = True\<rparr>"]
  by (auto simp: utf8_encode_def utf8_units_def)

end
