(* ===== verification/Sdk_Adapters.thy ===== *)
theory Sdk_Adapters
  imports Sdk_Client_Flows Indexer_Server Js_Number
begin

text \<open>
  sdk/typescript/src/adapters: the common interface of both chains (types.ts), the adapter for EVM
  chains (evm.ts), the one that wraps \<open>HolancClient\<close> (solana.ts) and the factory (factory.ts). An
  EVM chain is a state with the answers ethers.js gives and the effect of a call that is sent and
  mined; hex texts are as the code passes them.
\<close>

section \<open>The common interface\<close>

record DepositParams =
  dp_amount :: int
  dp_commitment :: string
  dp_encryptedNote :: "byte list"
  dp_tokenAddress :: string

record TransferParams =
  tf_amount :: int
  tf_merkleRoot :: string
  tf_nullifiers :: "string list"
  tf_outputCommitments :: "string list"
  tf_fee :: int
  tf_encryptedNotes :: "byte list list"
  tf_proof :: Groth16Proof

record WithdrawParams =
  wd_merkleRoot :: string
  wd_nullifiers :: "string list"
  wd_outputCommitments :: "string list"
  wd_exitAmount :: int
  wd_fee :: int
  wd_recipientAddress :: string
  wd_encryptedNotes :: "byte list list"
  wd_proof :: Groth16Proof

record AdapterPoolStatus =
  as_poolAddress :: string
  as_tokenAddress :: string
  as_totalDeposited :: int
  as_nextLeafIndex :: int
  as_currentRoot :: string
  as_isPaused :: bool
  as_epoch :: int

record CommitmentEvent =
  ev_leafIndex :: int
  ev_commitment :: string
  ev_encryptedNote :: "byte list"
  ev_txHash :: string
  ev_blockNumber :: int

record ChainConfig =
  chainType :: string
  cc_chainName :: string
  cc_chainId :: "int option"
  cc_rpcUrl :: string
  cc_pool :: string
  cc_token :: string
  cc_verifier :: "string option"
  cc_nullifier :: "string option"
  cc_bridge :: "string option"
  cc_compliance :: "string option"
  cc_explorerUrl :: "string option"
  cc_nativeCurrency :: "string option"

section \<open>EVM: values\<close>

definition bigint_at :: "string list \<Rightarrow> nat \<Rightarrow> js_error + int" where
  "bigint_at xs i =
     (if i < length xs then throw_if_none SyntaxError (bigint_of_string (xs ! i)) else Inl TypeError)"

definition bigint_pair :: "string list \<Rightarrow> js_error + int \<times> int" where
  "bigint_pair xs = bind_result (bigint_at xs 0) (\<lambda>x. bind_result (bigint_at xs 1) (\<lambda>y. Inr (x, y)))"

definition row_at :: "string list list \<Rightarrow> nat \<Rightarrow> js_error + string list" where
  "row_at xss i = (if i < length xss then Inr (xss ! i) else Inl TypeError)"

record evm_proof =
  proofA :: "int \<times> int"
  proofB :: "(int \<times> int) \<times> (int \<times> int)"
  proofC :: "int \<times> int"

definition formatProofForEvm :: "Groth16Proof \<Rightarrow> js_error + evm_proof" where
  "formatProofForEvm p =
     bind_result (bigint_pair (piA p)) (\<lambda>a.
     bind_result (row_at (piB p) 0) (\<lambda>row0. bind_result (bigint_pair row0) (\<lambda>b0.
     bind_result (row_at (piB p) 1) (\<lambda>row1. bind_result (bigint_pair row1) (\<lambda>b1.
     bind_result (bigint_pair (piC p)) (\<lambda>c.
       Inr \<lparr>proofA = a, proofB = (b0, b1), proofC = c\<rparr>))))))"

definition evm_hexToBytes32 :: "string \<Rightarrow> string" where
  "evm_hexToBytes32 hex = pad_end 66 (CHR ''0'') (if starts_with ''0x'' hex then hex else ''0x'' @ hex)"

section \<open>EVM: the chain\<close>

text \<open>The functions of the three ABIs the adapter calls, with the arguments it passes.\<close>

datatype evm_call =
    Approve string string int
  | PoolDeposit string int string "byte list"
  | PoolTransfer string string "string list" "string list" int "byte list list" evm_proof
  | PoolWithdraw string string "string list" "string list" int int string "byte list list" evm_proof

text \<open>A log as \<open>parseLog\<close> gives it: it throws, or finds no event, or gives a name and first argument.\<close>

type_synonym parsed_log = "js_error + (string \<times> int) option"

record evm_receipt =
  logs :: "parsed_log list"

record evm_log =
  log_leaf :: int
  log_commitment :: string
  log_data :: "byte list"
  log_txHash :: string
  log_blockNumber :: int

record 'm evm_chain =
  signer_address :: "js_error + string"
  has_provider :: bool
  token_allowance :: "string \<Rightarrow> string \<Rightarrow> string \<Rightarrow> 'm \<Rightarrow> js_error + int"
  send_call :: "evm_call \<Rightarrow> 'm \<Rightarrow> 'm \<times> (js_error + string)"
  wait_tx :: "string \<Rightarrow> 'm \<Rightarrow> 'm \<times> (js_error + evm_receipt option)"
  chain_root :: "string \<Rightarrow> 'm \<Rightarrow> js_error + string"
  chain_nextLeaf :: "string \<Rightarrow> 'm \<Rightarrow> js_error + int"
  chain_deposited :: "string \<Rightarrow> 'm \<Rightarrow> js_error + int"
  chain_paused :: "string \<Rightarrow> 'm \<Rightarrow> js_error + bool"
  chain_epoch :: "string \<Rightarrow> 'm \<Rightarrow> js_error + int"
  chain_token :: "string \<Rightarrow> 'm \<Rightarrow> js_error + string"
  chain_spent :: "string \<Rightarrow> int \<Rightarrow> string \<Rightarrow> 'm \<Rightarrow> js_error + bool"
  chain_logs :: "string \<Rightarrow> int \<Rightarrow> int \<Rightarrow> 'm \<Rightarrow> js_error + evm_log list"

record EvmAdapterConfig =
  ec_rpcUrl :: string
  ec_poolAddress :: string
  ec_verifierAddress :: "string option"
  ec_nullifierAddress :: "string option"
  skipApproval :: bool

definition createEvmAdapter :: "ChainConfig \<Rightarrow> js_error + EvmAdapterConfig" where
  "createEvmAdapter config =
     (if chainType config \<noteq> ''evm'' then
        Inl (Error (''createEvmAdapter requires chainType \"evm\", got \"'' @ chainType config @ ''\"''))
      else Inr \<lparr>ec_rpcUrl = cc_rpcUrl config, ec_poolAddress = cc_pool config,
                ec_verifierAddress = cc_verifier config, ec_nullifierAddress = cc_nullifier config,
                skipApproval = False\<rparr>)"

definition requireProvider :: "'m evm_chain \<Rightarrow> js_error + unit" where
  "requireProvider ch =
     (if has_provider ch then Inr () else Inl (Error ''EvmAdapter signer must be connected to a provider''))"

text \<open>A contract call and the wait for its receipt.\<close>

definition send_and_wait :: "'m evm_chain \<Rightarrow> evm_call \<Rightarrow> ('m, string \<times> evm_receipt option) effect" where
  "send_and_wait ch call =
     eff_bind (send_call ch call) (\<lambda>hash. eff_bind (wait_tx ch hash) (\<lambda>receipt. eff_return (hash, receipt)))"

definition ensureApproval :: "'m evm_chain \<Rightarrow> EvmAdapterConfig \<Rightarrow> string \<Rightarrow> int \<Rightarrow> ('m, unit) effect" where
  "ensureApproval ch cfg token amount =
     eff_bind (eff_lift (signer_address ch)) (\<lambda>self.
     eff_bind (\<lambda>m. (m, token_allowance ch token self (ec_poolAddress cfg) m)) (\<lambda>allowance.
       if allowance < amount
       then eff_bind (send_and_wait ch (Approve token (ec_poolAddress cfg) amount)) (\<lambda>_. eff_return ())
       else eff_return ()))"

fun deposit_leaf :: "parsed_log list \<Rightarrow> int" where
  "deposit_leaf [] = 0"
| "deposit_leaf (l # ls) =
     (case l of
        Inr (Some (name, arg0)) \<Rightarrow> if name = ''DepositEvent'' then number_of_bigint arg0 else deposit_leaf ls
      | _ \<Rightarrow> deposit_leaf ls)"

section \<open>EVM: operations\<close>

text \<open>The deposit call of \<open>deposit\<close> and the search for its event.\<close>

definition mined_deposit :: "'m evm_chain \<Rightarrow> EvmAdapterConfig \<Rightarrow> DepositParams \<Rightarrow> ('m, DepositResult) effect" where
  "mined_deposit ch cfg ps =
     eff_bind (send_and_wait ch (PoolDeposit (ec_poolAddress cfg) (dp_amount ps)
        (evm_hexToBytes32 (dp_commitment ps)) (dp_encryptedNote ps))) (\<lambda>(hash, receipt).
       (case receipt of
          None \<Rightarrow> eff_lift (Inl (Error ''Transaction receipt not found''))
        | Some rc \<Rightarrow> eff_return \<lparr>dr_commitment = dp_commitment ps, dr_leafIndex = deposit_leaf (logs rc),
                                 dr_txSignature = hash\<rparr>))"

definition evm_deposit :: "'m evm_chain \<Rightarrow> EvmAdapterConfig \<Rightarrow> DepositParams \<Rightarrow> ('m, DepositResult) effect" where
  "evm_deposit ch cfg ps =
     eff_bind (if \<not> skipApproval cfg then ensureApproval ch cfg (dp_tokenAddress ps) (dp_amount ps)
               else eff_return ()) (\<lambda>_. mined_deposit ch cfg ps)"

definition evm_transfer :: "'m evm_chain \<Rightarrow> EvmAdapterConfig \<Rightarrow> TransferParams \<Rightarrow> ('m, TransferResult) effect" where
  "evm_transfer ch cfg ps =
     eff_bind (eff_lift (formatProofForEvm (tf_proof ps))) (\<lambda>proof.
     eff_bind (send_and_wait ch (PoolTransfer (ec_poolAddress cfg) (evm_hexToBytes32 (tf_merkleRoot ps))
        (map evm_hexToBytes32 (tf_nullifiers ps)) (map evm_hexToBytes32 (tf_outputCommitments ps))
        (tf_fee ps) (tf_encryptedNotes ps) proof)) (\<lambda>(hash, receipt).
       eff_return \<lparr>tr_nullifiers = map Some (tf_nullifiers ps),
                   tr_outputCommitments = map Some (tf_outputCommitments ps), tr_txSignature = hash\<rparr>))"

definition evm_withdraw :: "'m evm_chain \<Rightarrow> EvmAdapterConfig \<Rightarrow> WithdrawParams \<Rightarrow> ('m, WithdrawResult) effect" where
  "evm_withdraw ch cfg ps =
     eff_bind (eff_lift (formatProofForEvm (wd_proof ps))) (\<lambda>proof.
     eff_bind (send_and_wait ch (PoolWithdraw (ec_poolAddress cfg) (evm_hexToBytes32 (wd_merkleRoot ps))
        (map evm_hexToBytes32 (wd_nullifiers ps)) (map evm_hexToBytes32 (wd_outputCommitments ps))
        (wd_exitAmount ps) (wd_fee ps) (wd_recipientAddress ps) (wd_encryptedNotes ps) proof)) (\<lambda>(hash, receipt).
       eff_return \<lparr>wr_nullifiers = map Some (wd_nullifiers ps), wr_exitAmount = wd_exitAmount ps,
                   wr_txSignature = hash\<rparr>))"

text \<open>\<open>Promise.all\<close> over six reads: of several failures the first to settle is thrown, here in order.\<close>

definition evm_getPoolStatus :: "'m evm_chain \<Rightarrow> EvmAdapterConfig \<Rightarrow> ('m, AdapterPoolStatus) effect" where
  "evm_getPoolStatus ch cfg m =
     (m, let pool = ec_poolAddress cfg in
         bind_result (requireProvider ch) (\<lambda>_.
         bind_result (chain_root ch pool m) (\<lambda>rt.
         bind_result (chain_nextLeaf ch pool m) (\<lambda>next.
         bind_result (chain_deposited ch pool m) (\<lambda>dep.
         bind_result (chain_paused ch pool m) (\<lambda>paused.
         bind_result (chain_epoch ch pool m) (\<lambda>ep.
         bind_result (chain_token ch pool m) (\<lambda>token.
           Inr \<lparr>as_poolAddress = pool, as_tokenAddress = token, as_totalDeposited = dep,
                as_nextLeafIndex = number_of_bigint next, as_currentRoot = rt, as_isPaused = paused,
                as_epoch = number_of_bigint ep\<rparr>))))))))"

definition evm_isNullifierSpent :: "'m evm_chain \<Rightarrow> EvmAdapterConfig \<Rightarrow> string \<Rightarrow> ('m, bool) effect" where
  "evm_isNullifierSpent ch cfg nf m =
     (m, case ec_nullifierAddress cfg of
           None \<Rightarrow> Inl (Error ''nullifierAddress not configured'')
         | Some addr \<Rightarrow>
             (if addr = [] then Inl (Error ''nullifierAddress not configured'')
              else bind_result (requireProvider ch) (\<lambda>_. chain_spent ch addr 0 (evm_hexToBytes32 nf) m)))"

definition evm_getMerkleRoot :: "'m evm_chain \<Rightarrow> EvmAdapterConfig \<Rightarrow> ('m, string) effect" where
  "evm_getMerkleRoot ch cfg m =
     (m, bind_result (requireProvider ch) (\<lambda>_. chain_root ch (ec_poolAddress cfg) m))"

definition evm_getCommitments :: "'m evm_chain \<Rightarrow> EvmAdapterConfig \<Rightarrow> int \<Rightarrow> int \<Rightarrow>
    ('m, CommitmentEvent list) effect" where
  "evm_getCommitments ch cfg fromBlock toBlock m =
     (m, bind_result (requireProvider ch) (\<lambda>_.
         bind_result (chain_logs ch (ec_poolAddress cfg) fromBlock toBlock m) (\<lambda>ls.
           Inr (map (\<lambda>l. \<lparr>ev_leafIndex = number_of_bigint (log_leaf l), ev_commitment = log_commitment l,
                          ev_encryptedNote = log_data l, ev_txHash = log_txHash l,
                          ev_blockNumber = log_blockNumber l\<rparr>) ls))))"

section \<open>Solana: the adapter\<close>

text \<open>
  The adapter's wallet is the object the client holds. \<open>key_of_base58\<close> is \<open>new PublicKey(text)\<close>; an
  absent and an empty optional address are both left out.
\<close>

record SolanaAdapterConfig =
  sa_rpcUrl :: string
  sa_payer :: pubkey
  sa_wallet :: "Wallet option"
  sa_indexerUrl :: "string option"
  sa_tokenMint :: string
  sa_failoverEndpoints :: "rpc_endpoint list option"
  sa_failoverConfig :: "FailoverConfig option"
  sa_verificationKey :: "string option"
  sa_nullifierManager :: "string option"
  sa_nullifierPage :: "string option"
  sa_feeCollector :: "string option"

record 'c SolanaAdapter =
  sa_client :: "'c HolancClient"
  sa_config :: SolanaAdapterConfig

definition createSolanaAdapter :: "(int list \<Rightarrow> int) \<Rightarrow> (string \<Rightarrow> 'c) \<Rightarrow> byte list \<Rightarrow> byte list \<Rightarrow> SolanaAdapterConfig \<Rightarrow>
    js_error + 'c SolanaAdapter" where
  "createSolanaAdapter poseidon connect entropy entropy' config =
     bind_result (case sa_wallet config of Some w \<Rightarrow> Inr w | None \<Rightarrow> random_wallet poseidon entropy) (\<lambda>w.
     bind_result
       (case sa_failoverEndpoints config of
          Some (e # es) \<Rightarrow>
            createWithFailover poseidon connect entropy' (Url (sa_rpcUrl config) # e # es) (sa_payer config)
              (or_default (sa_failoverConfig config)
                 \<lparr>cfg_maxFailures = None, cfg_cooldownMs = None, cfg_timeoutMs = None\<rparr>) (Some w)
        | _ \<Rightarrow> create poseidon connect entropy' (sa_rpcUrl config) (sa_payer config) (Some w)) (\<lambda>client.
       Inr \<lparr>sa_client = client, sa_config = config\<rparr>))"

definition on_client :: "('c HolancClient, 'a) effect \<Rightarrow> ('c SolanaAdapter, 'a) effect" where
  "on_client m a = (case m (sa_client a) of (c, res) \<Rightarrow> (a\<lparr>sa_client := c\<rparr>, res))"

definition optional_key :: "(string \<Rightarrow> js_error + pubkey) \<Rightarrow> string option \<Rightarrow> js_error + pubkey option" where
  "optional_key key_of_base58 x =
     (case x of
        None \<Rightarrow> Inr None
      | Some s \<Rightarrow> if s = [] then Inr None else bind_result (key_of_base58 s) (\<lambda>k. Inr (Some k)))"

definition adapter_options :: "(string \<Rightarrow> js_error + pubkey) \<Rightarrow> SolanaAdapterConfig \<Rightarrow> js_error + tx_options" where
  "adapter_options key_of_base58 cfg =
     bind_result (optional_key key_of_base58 (sa_feeCollector cfg)) (\<lambda>fc.
     bind_result (optional_key key_of_base58 (sa_verificationKey cfg)) (\<lambda>vk.
     bind_result (optional_key key_of_base58 (sa_nullifierManager cfg)) (\<lambda>mgr.
     bind_result (optional_key key_of_base58 (sa_nullifierPage cfg)) (\<lambda>page.
       Inr \<lparr>feeCollector = fc, verificationKey = vk, nullifierManager = mgr, nullifierPage = page\<rparr>))))"

definition sol_deposit :: "'c client_env \<Rightarrow> (string \<Rightarrow> js_error + pubkey) \<Rightarrow> int \<Rightarrow> int \<Rightarrow> DepositParams \<Rightarrow>
    ('c SolanaAdapter, DepositResult) effect" where
  "sol_deposit env key_of_base58 now t ps a =
     (let mint = (if dp_tokenAddress ps = [] then sa_tokenMint (sa_config a) else dp_tokenAddress ps) in
      eff_bind (eff_lift (key_of_base58 mint)) (\<lambda>tokenMint.
        on_client (deposit env now t (dp_amount ps) tokenMint)) a)"

definition sol_transfer :: "'c client_env \<Rightarrow> (string \<Rightarrow> js_error + pubkey) \<Rightarrow> int \<Rightarrow> 32 word \<Rightarrow> int \<Rightarrow>
    TransferParams \<Rightarrow> ('c SolanaAdapter, TransferResult) effect" where
  "sol_transfer env key_of_base58 now r t ps a =
     eff_bind (eff_lift (key_of_base58 (sa_tokenMint (sa_config a)))) (\<lambda>tokenMint.
     eff_bind (eff_lift (adapter_options key_of_base58 (sa_config a))) (\<lambda>opts.
       if tf_amount ps < 0 then eff_lift (Inl (Error ''transfer amount must be non-negative''))
       else on_client (transfer env now r t (hd (tf_outputCommitments ps)) (tf_amount ps) tokenMint
              (tf_fee ps) opts))) a"

definition sol_withdraw :: "'c client_env \<Rightarrow> (string \<Rightarrow> js_error + pubkey) \<Rightarrow> int \<Rightarrow> 32 word \<Rightarrow> int \<Rightarrow>
    WithdrawParams \<Rightarrow> ('c SolanaAdapter, WithdrawResult) effect" where
  "sol_withdraw env key_of_base58 now r t ps a =
     eff_bind (eff_lift (key_of_base58 (sa_tokenMint (sa_config a)))) (\<lambda>tokenMint.
     eff_bind (eff_lift (key_of_base58 (wd_recipientAddress ps))) (\<lambda>recipient.
     eff_bind (eff_lift (adapter_options key_of_base58 (sa_config a))) (\<lambda>opts.
       on_client (withdraw env now r t (wd_exitAmount ps) tokenMint recipient (wd_fee ps) opts)))) a"

definition sol_getPoolStatus :: "'c client_env \<Rightarrow> (string \<Rightarrow> js_error + pubkey) \<Rightarrow> int \<Rightarrow>
    ('c SolanaAdapter, AdapterPoolStatus) effect" where
  "sol_getPoolStatus env key_of_base58 t a =
     eff_bind (eff_lift (key_of_base58 (sa_tokenMint (sa_config a)))) (\<lambda>tokenMint.
     eff_bind (on_client (getPoolStatus env t tokenMint)) (\<lambda>status.
       eff_return \<lparr>as_poolAddress = ps_poolAddress status, as_tokenAddress = ps_tokenMint status,
                   as_totalDeposited = totalDeposited status, as_nextLeafIndex = nextLeafIndex status,
                   as_currentRoot = currentRoot status, as_isPaused = isPaused status,
                   as_epoch = epoch status\<rparr>)) a"

definition sol_isNullifierSpent :: "string \<Rightarrow> ('c SolanaAdapter, bool) effect" where
  "sol_isNullifierSpent nf =
     eff_lift (Inl (Error ''SolanaAdapter.isNullifierSpent is not implemented in HolancClient yet''))"

definition sol_getMerkleRoot :: "'c client_env \<Rightarrow> (string \<Rightarrow> js_error + pubkey) \<Rightarrow> int \<Rightarrow>
    ('c SolanaAdapter, string) effect" where
  "sol_getMerkleRoot env key_of_base58 t a =
     eff_bind (eff_lift (key_of_base58 (sa_tokenMint (sa_config a)))) (\<lambda>tokenMint.
     eff_bind (on_client (getPoolStatus env t tokenMint)) (\<lambda>status. eff_return (currentRoot status))) a"

text \<open>The indexer's reply: a status that is not ok with its text, or the \<open>notes\<close> of the parsed body.\<close>

datatype notes_response = NotesFailed int string | NotesOk "IndexedNote list option"

definition range_path :: "int \<Rightarrow> int \<Rightarrow> string" where
  "range_path fromBlock toBlock =
     ''/notes?from='' @ bigint_to_string 10 fromBlock @ ''&to='' @ bigint_to_string 10 toBlock"

definition commitment_event :: "IndexedNote \<Rightarrow> CommitmentEvent" where
  "commitment_event n =
     \<lparr>ev_leafIndex = in_leafIndex n, ev_commitment = in_commitment n,
      ev_encryptedNote = buffer_from_hex (in_encryptedNote n), ev_txHash = txSignature n, ev_blockNumber = slot n\<rparr>"

definition sol_getCommitments :: "string option \<Rightarrow> string option \<Rightarrow> (string \<Rightarrow> string \<Rightarrow> js_error + notes_response) \<Rightarrow>
    int \<Rightarrow> int \<Rightarrow> ('c SolanaAdapter, CommitmentEvent list) effect" where
  "sol_getCommitments INDEXER_URL NEXT_PUBLIC_INDEXER_URL fetch fromBlock toBlock a =
     (a, case (case sa_indexerUrl (sa_config a) of Some u \<Rightarrow> Some u
               | None \<Rightarrow> (case INDEXER_URL of Some u \<Rightarrow> Some u | None \<Rightarrow> NEXT_PUBLIC_INDEXER_URL)) of
           None \<Rightarrow> Inl (Error ''SolanaAdapter.getCommitments requires indexerUrl or INDEXER_URL'')
         | Some indexerUrl \<Rightarrow>
             (if indexerUrl = [] then Inl (Error ''SolanaAdapter.getCommitments requires indexerUrl or INDEXER_URL'')
              else bind_result (fetch indexerUrl (range_path fromBlock toBlock)) (\<lambda>res.
                (case res of
                   NotesFailed code text \<Rightarrow>
                     Inl (Error (''Indexer returned '' @ bigint_to_string 10 code @ '': '' @ text))
                 | NotesOk None \<Rightarrow> Inl TypeError
                 | NotesOk (Some ns) \<Rightarrow> Inr (map commitment_event ns)))))"

section \<open>The interface as a contract\<close>

text \<open>
  What the callers of a \<open>ChainAdapter\<close> rely on and both adapters keep: the root reported alone is the
  root of the status, and reading neither changes the pool's state.
\<close>

locale chain_adapter =
  fixes get_status :: "'s \<Rightarrow> 's \<times> (js_error + AdapterPoolStatus)"
    and get_root :: "'s \<Rightarrow> 's \<times> (js_error + string)"
  assumes root_of_status: "get_status s = (s', Inr st) \<Longrightarrow> get_root s = (s', Inr (as_currentRoot st))"
begin

lemma roots_agree: "get_status s = (s1, Inr st) \<Longrightarrow> get_root s = (s2, Inr r) \<Longrightarrow> r = as_currentRoot st \<and> s1 = s2"
  using root_of_status by fastforce

lemma failed_root_failed_status: "get_root s = (s1, Inl e) \<Longrightarrow> \<exists>s2 e'. get_status s = (s2, Inl e')"
  using root_of_status by (metis Inl_Inr_False obj_sumE prod.exhaust prod.inject)

end

interpretation evm_adapter: chain_adapter "evm_getPoolStatus ch cfg" "evm_getMerkleRoot ch cfg" for ch cfg
proof unfold_locales
  fix m m' st
  assume "evm_getPoolStatus ch cfg m = (m', Inr st)"
  then show "evm_getMerkleRoot ch cfg m = (m', Inr (as_currentRoot st))"
    by (auto simp: evm_getPoolStatus_def evm_getMerkleRoot_def Let_def bind_result_Inr_iff)
qed

interpretation solana_adapter: chain_adapter "sol_getPoolStatus env key_of_base58 t" "sol_getMerkleRoot env key_of_base58 t"
  for env key_of_base58 t
proof unfold_locales
  fix a a' st
  assume "sol_getPoolStatus env key_of_base58 t a = (a', Inr st)"
  then show "sol_getMerkleRoot env key_of_base58 t a = (a', Inr (as_currentRoot st))"
    by (auto simp: sol_getPoolStatus_def sol_getMerkleRoot_def eff_bind_Inr_iff eff_defs)
qed

section \<open>Both chains get the same proof\<close>

definition coordinates :: "evm_proof \<Rightarrow> int list" where
  "coordinates e =
     [fst (proofA e), snd (proofA e), fst (fst (proofB e)), snd (fst (proofB e)),
      fst (snd (proofB e)), snd (snd (proofB e)), fst (proofC e), snd (proofC e)]"

lemma bigint_to_be_bytes_mod: "bigint_to_be_bytes (n mod 2 ^ 256) = bigint_to_be_bytes n"
  by (simp add: bigint_to_be_bytes_def be_loop_le_bytes)

lemma be_groups_mod: "be_groups (concat (map bigint_to_be_bytes ns)) = map (\<lambda>n. n mod 2 ^ 256) ns"
proof -
  have "map bigint_to_be_bytes ns = map bigint_to_be_bytes (map (\<lambda>n. n mod 2 ^ 256) ns)"
    unfolding map_map comp_def bigint_to_be_bytes_mod ..
  moreover have "\<forall>n \<in> set (map (\<lambda>n. n mod 2 ^ 256) ns). 0 \<le> n \<and> n < (2 :: int) ^ 256"
    by auto
  ultimately show ?thesis
    using be_groups_concat by metis
qed

lemma be_fields_pair:
  "be_fields [x, y] = bind_result (bigint_pair [x, y])
     (\<lambda>(a, b). Inr (concat (map bigint_to_be_bytes [a, b])))"
  by (auto simp: be_fields_def bigint_pair_def bigint_at_def throw_if_none_def bind_result_def
      split: option.splits)

lemma pair_list: "length xs = 2 \<longleftrightarrow> (\<exists>x y. xs = [x, y])"
  by (auto simp: length_Suc_conv numeral_2_eq_2)

text \<open>
  C31. Both chains get the same proof: for a proof of the prover's shape the EVM adapter and the Solana
  client throw the same error, or the EVM call carries eight coordinates and the Solana instruction
  data is these coordinates, in the same order, as 32-byte big-endian numbers modulo \<open>2 ^ 256\<close>.
\<close>

theorem both_chains_get_same_proof:
  assumes "length (piA p) = 2" "length (piB p) = 2" "\<forall>row \<in> set (piB p). length row = 2" "length (piC p) = 2"
  shows "case formatProofForEvm p of
      Inl e \<Rightarrow> serializeProof p = Inl e
    | Inr v \<Rightarrow> \<exists>bs. serializeProof p = Inr bs \<and> be_groups bs = map (\<lambda>n. n mod 2 ^ 256) (coordinates v)"
proof -
  obtain a0 a1 b00 b01 b10 b11 c0 c1 where p: "piA p = [a0, a1]" "piB p = [[b00, b01], [b10, b11]]" "piC p = [c0, c1]"
    using assms by (auto simp: pair_list)
  have shape: "proof_shape_ok p"
    by (simp add: proof_shape_ok_def p)
  have four: "be_fields [b00, b01, b10, b11] = bind_result (be_fields [b00, b01]) (\<lambda>x.
      bind_result (be_fields [b10, b11]) (\<lambda>y. Inr (x @ y)))"
    by (auto simp: be_fields_def throw_if_none_def bind_result_def split: option.splits)
  have "serializeProof p = bind_result (formatProofForEvm p)
      (\<lambda>v. Inr (concat (map bigint_to_be_bytes (coordinates v))))"
    by (auto simp: serializeProof_def shape p four be_fields_pair formatProofForEvm_def row_at_def coordinates_def
        bind_result_def split: sum.split prod.split)
  then show ?thesis
    by (auto simp: be_groups_mod bind_result_def split: sum.split)
qed

lemma both_chains_get_same_proof_witness:
  "\<exists>bs. serializeProof \<lparr>piA = [''1'', ''2''], piB = [[''3'', ''4''], [''5'', ''6'']], piC = [''7'', ''8''],
       protocol = ''groth16'', gcurve = ''bn128''\<rparr> = Inr bs \<and> be_groups bs = [1, 2, 3, 4, 5, 6, 7, 8]"
proof -
  let ?p = "\<lparr>piA = [''1'', ''2''], piB = [[''3'', ''4''], [''5'', ''6'']], piC = [''7'', ''8''],
       protocol = ''groth16'', gcurve = ''bn128''\<rparr>"
  have "formatProofForEvm ?p = Inr \<lparr>proofA = (1, 2), proofB = ((3, 4), (5, 6)), proofC = (7, 8)\<rparr>"
    by code_simp
  then show ?thesis
    using both_chains_get_same_proof [of ?p] by (simp add: coordinates_def)
qed

section \<open>Deposits on an EVM chain\<close>

definition deposit_calls :: "EvmAdapterConfig \<Rightarrow> DepositParams \<Rightarrow> int \<Rightarrow> evm_call list" where
  "deposit_calls cfg ps allowance =
     (if skipApproval cfg \<or> dp_amount ps \<le> allowance then []
      else [Approve (dp_tokenAddress ps) (ec_poolAddress cfg) (dp_amount ps)])
     @ [PoolDeposit (ec_poolAddress cfg) (dp_amount ps) (evm_hexToBytes32 (dp_commitment ps)) (dp_encryptedNote ps)]"

definition records_calls :: "('m \<Rightarrow> evm_call list) \<Rightarrow> 'm evm_chain \<Rightarrow> bool" where
  "records_calls sent ch \<longleftrightarrow>
     (\<forall>call m. sent (fst (send_call ch call m)) = sent m @ [call]) \<and> (\<forall>h m. sent (fst (wait_tx ch h m)) = sent m)"

lemma send_and_wait_sent:
  assumes "records_calls sent ch" "send_and_wait ch call m = (m', res)"
  shows "sent m' = sent m @ [call]"
proof -
  obtain m1 r1 where s: "send_call ch call m = (m1, r1)" by fastforce
  have sent1: "sent m1 = sent m @ [call]"
    using assms(1) s by (metis fst_conv records_calls_def)
  show ?thesis
  proof (cases r1)
    case (Inl e)
    then show ?thesis using assms(2) s sent1 by (simp add: send_and_wait_def)
  next
    case (Inr h)
    obtain m2 r2 where w: "wait_tx ch h m1 = (m2, r2)" by fastforce
    then have "sent m2 = sent m1"
      using assms(1) by (metis fst_conv records_calls_def)
    moreover have "m' = m2"
      using assms(2) s w Inr by (cases r2) (simp_all add: send_and_wait_def eff_defs)
    ultimately show ?thesis using sent1 by simp
  qed
qed

lemma mined_deposit_sent:
  assumes "records_calls sent ch" "mined_deposit ch cfg ps m = (m', res)"
  shows "sent m' = sent m @ [PoolDeposit (ec_poolAddress cfg) (dp_amount ps) (evm_hexToBytes32 (dp_commitment ps))
      (dp_encryptedNote ps)] \<and> (\<forall>r. res = Inr r \<longrightarrow> dr_commitment r = dp_commitment ps)"
proof -
  let ?dep = "PoolDeposit (ec_poolAddress cfg) (dp_amount ps) (evm_hexToBytes32 (dp_commitment ps)) (dp_encryptedNote ps)"
  obtain m2 r2 where s: "send_and_wait ch ?dep m = (m2, r2)" by fastforce
  have "m' = m2 \<and> (\<forall>r. res = Inr r \<longrightarrow> dr_commitment r = dp_commitment ps)"
    using assms(2) s by (cases r2) (auto simp: mined_deposit_def eff_defs split: prod.splits option.splits)
  then show ?thesis
    using send_and_wait_sent [OF assms(1) s] by simp
qed

lemma ensureApproval_cases:
  assumes "signer_address ch = Inr self" "token_allowance ch token self (ec_poolAddress cfg) m = Inr al"
  shows "al \<ge> amount \<Longrightarrow> ensureApproval ch cfg token amount m = (m, Inr ())"
    and "al < amount \<Longrightarrow> send_and_wait ch (Approve token (ec_poolAddress cfg) amount) m = (m1, Inl e) \<Longrightarrow>
      ensureApproval ch cfg token amount m = (m1, Inl e)"
    and "al < amount \<Longrightarrow> send_and_wait ch (Approve token (ec_poolAddress cfg) amount) m = (m1, Inr x) \<Longrightarrow>
      ensureApproval ch cfg token amount m = (m1, Inr ())"
  using assms by (simp_all add: ensureApproval_def eff_defs eff_bind_def)

text \<open>
  A deposit sends what it should and nothing else, in this order: an approval of exactly the
  amount when approvals are not skipped and the allowance is too small, then the deposit with the
  normalised commitment. When a step fails the later calls are not sent, and a result is returned
  only after all of them.
\<close>

lemma evm_deposit_sends:
  assumes "records_calls sent ch" "signer_address ch = Inr self"
    and "token_allowance ch (dp_tokenAddress ps) self (ec_poolAddress cfg) m = Inr allowance"
    and "evm_deposit ch cfg ps m = (m', res)"
  shows "\<exists>calls rest. sent m' = sent m @ calls \<and> calls @ rest = deposit_calls cfg ps allowance
    \<and> calls \<noteq> [] \<and> (\<forall>r. res = Inr r \<longrightarrow> rest = [] \<and> dr_commitment r = dp_commitment ps)"
proof -
  let ?pool = "ec_poolAddress cfg"
  let ?app = "Approve (dp_tokenAddress ps) ?pool (dp_amount ps)"
  show ?thesis
  proof (cases "skipApproval cfg \<or> dp_amount ps \<le> allowance")
    case True
    then have "mined_deposit ch cfg ps m = (m', res)"
      using assms(4) ensureApproval_cases(1) [OF assms(2,3)]
      by (cases "skipApproval cfg") (simp_all add: evm_deposit_def eff_defs)
    from mined_deposit_sent [OF assms(1) this] show ?thesis
      using True by (auto simp: deposit_calls_def)
  next
    case False
    obtain m1 r1 where a: "send_and_wait ch ?app m = (m1, r1)" by fastforce
    note sent1 = send_and_wait_sent [OF assms(1) a]
    have less: "allowance < dp_amount ps" using False by simp
    show ?thesis
    proof (cases r1)
      case (Inl e)
      then have "m' = m1" "res = Inl e"
        using assms(4) False ensureApproval_cases(2) [OF assms(2,3) less a [unfolded Inl]]
        by (auto simp: evm_deposit_def)
      then show ?thesis
        using sent1 False by (auto simp: deposit_calls_def)
    next
      case (Inr x)
      then have "mined_deposit ch cfg ps m1 = (m', res)"
        using assms(4) False ensureApproval_cases(3) [OF assms(2,3) less a [unfolded Inr]]
        by (auto simp: evm_deposit_def)
      from mined_deposit_sent [OF assms(1) this] show ?thesis
        using sent1 False by (auto simp: deposit_calls_def)
    qed
  qed
qed

definition recording_chain :: "int \<Rightarrow> evm_call list evm_chain" where
  "recording_chain allowance =
     \<lparr>signer_address = Inr ''0xme'', has_provider = True, token_allowance = (\<lambda>_ _ _ _. Inr allowance),
      send_call = (\<lambda>call m. (m @ [call], Inr ''0xaa'')), wait_tx = (\<lambda>_ m. (m, Inr (Some \<lparr>logs = [Inr (Some (''DepositEvent'', 7))]\<rparr>))),
      chain_root = (\<lambda>_ _. Inr ''''), chain_nextLeaf = (\<lambda>_ _. Inr 0), chain_deposited = (\<lambda>_ _. Inr 0),
      chain_paused = (\<lambda>_ _. Inr False), chain_epoch = (\<lambda>_ _. Inr 0), chain_token = (\<lambda>_ _. Inr ''''),
      chain_spent = (\<lambda>_ _ _ _. Inr False), chain_logs = (\<lambda>_ _ _ _. Inr [])\<rparr>"

lemma evm_deposit_sends_witness:
  "\<exists>calls rest. fst (evm_deposit (recording_chain 3)
       \<lparr>ec_rpcUrl = '''', ec_poolAddress = ''0xp'', ec_verifierAddress = None, ec_nullifierAddress = None, skipApproval = False\<rparr>
       \<lparr>dp_amount = 5, dp_commitment = ''0xcc'', dp_encryptedNote = [], dp_tokenAddress = ''0xt''\<rparr> []) = calls
     \<and> calls @ rest = [Approve ''0xt'' ''0xp'' 5, PoolDeposit ''0xp'' 5 (evm_hexToBytes32 ''0xcc'') []] \<and> calls \<noteq> []"
proof -
  have "records_calls id (recording_chain 3)"
    by (simp add: records_calls_def recording_chain_def)
  from evm_deposit_sends [OF this, of "''0xme''" "\<lparr>dp_amount = 5, dp_commitment = ''0xcc'', dp_encryptedNote = [],
        dp_tokenAddress = ''0xt''\<rparr>" "\<lparr>ec_rpcUrl = '''', ec_poolAddress = ''0xp'', ec_verifierAddress = None,
        ec_nullifierAddress = None, skipApproval = False\<rparr>" "[]" 3] show ?thesis
    by (cases "evm_deposit (recording_chain 3) \<lparr>ec_rpcUrl = '''', ec_poolAddress = ''0xp'', ec_verifierAddress = None,
        ec_nullifierAddress = None, skipApproval = False\<rparr> \<lparr>dp_amount = 5, dp_commitment = ''0xcc'',
        dp_encryptedNote = [], dp_tokenAddress = ''0xt''\<rparr> []")
      (auto simp: recording_chain_def deposit_calls_def)
qed

end
