(* ===== verification/Sync_With_Indexer.thy ===== *)
theory Sync_With_Indexer
  imports Sdk_Adapters
begin

text \<open>
  The wallet and the Solana adapter against the indexer's own request handler: the path they build is
  parsed, served over a note store, and the reply read back. A round is one call of
  \<open>fetchIncomingNotes\<close>; the theorem on rounds is that the wallet catches up with the store.
\<close>

section \<open>Paths, requests and replies\<close>

text \<open>\<open>new URL(path)\<close> and \<open>searchParams.get\<close> for paths of digits, letters and signs only.\<close>

definition cut_at :: "char \<Rightarrow> string \<Rightarrow> string \<times> string" where
  "cut_at c s = (takeWhile (\<lambda>x. x \<noteq> c) s, tl (dropWhile (\<lambda>x. x \<noteq> c) s))"

definition request_of_path :: "string \<Rightarrow> http_request" where
  "request_of_path p =
     (case cut_at (CHR ''?'') p of (path, query) \<Rightarrow>
        \<lparr>http_method = ''GET'', pathname = path,
         search_param = map_of (map (cut_at (CHR ''='')) (split_on (CHR ''&'') query))\<rparr>)"

definition json_item :: "IndexedNote \<Rightarrow> IndexedJson" where
  "json_item n = \<lparr>js_commitment = in_commitment n, js_leafIndex = in_leafIndex n, js_encryptedNote = in_encryptedNote n\<rparr>"

definition error_text :: "reply_body \<Rightarrow> string" where
  "error_text b = (case b of ErrorBody e \<Rightarrow> ''{\"error\":\"'' @ e @ ''\"}'' | _ \<Rightarrow> '''')"

definition http_of_reply :: "http_reply \<Rightarrow> http_response" where
  "http_of_reply rep =
     (case rep of (code, body) \<Rightarrow>
        if 200 \<le> code \<and> code < 300 then HttpOk (case body of NotesBody ns \<Rightarrow> Some (map json_item ns) | _ \<Rightarrow> None)
        else HttpError code (error_text body))"

definition notes_of_reply :: "http_reply \<Rightarrow> notes_response" where
  "notes_of_reply rep =
     (case rep of (code, body) \<Rightarrow>
        if 200 \<le> code \<and> code < 300 then NotesOk (case body of NotesBody ns \<Rightarrow> Some ns | _ \<Rightarrow> None)
        else NotesFailed code (error_text body))"

definition indexer_reply :: "NoteStore \<Rightarrow> string \<Rightarrow> http_reply" where
  "indexer_reply s p = snd (handle_request (\<lambda>_. False) (request_of_path p) (Plain s))"

definition sync_round :: "(int list \<Rightarrow> int) \<Rightarrow> (EncryptedNote \<Rightarrow> string \<Rightarrow> NotePlaintext option) \<Rightarrow> NoteStore \<Rightarrow>
    (Wallet, nat) effect" where
  "sync_round poseidon decrypt s = fetchIncomingNotes poseidon decrypt (\<lambda>p. http_of_reply (indexer_reply s p))"

fun sync_rounds :: "(int list \<Rightarrow> int) \<Rightarrow> (EncryptedNote \<Rightarrow> string \<Rightarrow> NotePlaintext option) \<Rightarrow> NoteStore \<Rightarrow> nat \<Rightarrow>
    (Wallet, nat) effect" where
  "sync_rounds poseidon decrypt s 0 = eff_return 0"
| "sync_rounds poseidon decrypt s (Suc k) =
     eff_bind (sync_round poseidon decrypt s) (\<lambda>a.
     eff_bind (sync_rounds poseidon decrypt s k) (\<lambda>b. eff_return (a + b)))"

section \<open>Parsing what was built\<close>

lemma cut_at_append: "c \<notin> set s \<Longrightarrow> cut_at c (s @ c # r) = (s, r)"
  by (simp add: cut_at_def takeWhile_append dropWhile_append)

lemma decimal_plain: "CHR ''&'' \<notin> set (bigint_to_string 10 i)" "CHR ''='' \<notin> set (bigint_to_string 10 i)"
    "CHR ''?'' \<notin> set (bigint_to_string 10 i)"
  using decimal_char [of "CHR ''&''" "nat i"] decimal_char [of "CHR ''&''" "nat (- i)"]
    decimal_char [of "CHR ''=''" "nat i"] decimal_char [of "CHR ''=''" "nat (- i)"]
    decimal_char [of "CHR ''?''" "nat i"] decimal_char [of "CHR ''?''" "nat (- i)"]
  by (auto simp: bigint_to_string_def)

lemma two_params:
  assumes "CHR ''&'' \<notin> set k1" "CHR ''='' \<notin> set k1" "CHR ''?'' \<notin> set p"
    and "CHR ''&'' \<notin> set k2" "CHR ''='' \<notin> set k2" "CHR ''&'' \<notin> set v2"
  shows "request_of_path (p @ CHR ''?'' # k1 @ CHR ''='' # bigint_to_string 10 i @ CHR ''&'' # k2 @ CHR ''='' # v2) =
    \<lparr>http_method = ''GET'', pathname = p, search_param = map_of [(k1, bigint_to_string 10 i), (k2, v2)]\<rparr>"
proof -
  have "split_on CHR ''&'' ((k1 @ CHR ''='' # bigint_to_string 10 i) @ CHR ''&'' # k2 @ CHR ''='' # v2)
      = [k1 @ CHR ''='' # bigint_to_string 10 i, k2 @ CHR ''='' # v2]"
    using assms decimal_plain(1) [of i] by (subst split_on_append) (auto simp: split_on_none)
  then show ?thesis
    using assms by (simp add: request_of_path_def cut_at_append)
qed

lemma serve_after:
  "indexer_reply s (''/notes?after='' @ bigint_to_string 10 a @ ''&limit='' @ bigint_to_string 10 k) =
    (if 1 \<le> k \<and> k \<le> 10000 then (200, NotesBody (getNotesAfter a k s))
     else (400, ErrorBody ''Invalid limit (1-10000)''))"
proof -
  have "bigint_to_string 10 k \<noteq> []"
    by (simp add: bigint_to_string_def)
  then show ?thesis
    using two_params [of "''after''" "''/notes''" "''limit''" "bigint_to_string 10 k" a] decimal_plain(1) [of k]
    by (auto simp: indexer_reply_def handle_request_def handleNotes_def Let_def codec_simps)
qed

lemma serve_range:
  "indexer_reply s (range_path a b) = (200, NotesBody (getNotesByRange a b s))"
  using two_params [of "''from''" "''/notes''" "''to''" "bigint_to_string 10 b" a] decimal_plain(1) [of b]
  by (auto simp: indexer_reply_def range_path_def handle_request_def handleNotes_def Let_def codec_simps)

lemma sync_round_page:
  "http_of_reply (indexer_reply s (fetch_path w)) = HttpOk (Some (map json_item (getNotesAfter (lastSyncedLeaf w) 500 s)))"
proof -
  have "bigint_to_string 10 500 = ''500''"
    by code_simp
  then show ?thesis
    using serve_after [of s "lastSyncedLeaf w" 500] by (simp add: fetch_path_def http_of_reply_def)
qed

section \<open>The adapter's block range\<close>

text \<open>
  \<open>getCommitments(fromBlock, toBlock)\<close> of the Solana adapter does not look at blocks: served by the
  indexer it returns exactly the notes whose leaf index lies between the two block numbers, in
  leaf order, and the block number of a note plays no part in the choice.
\<close>

theorem adapter_takes_blocks_for_leaves:
  assumes "sa_indexerUrl (sa_config a) = Some u" "u \<noteq> []"
    and "\<And>p. fetch u p = Inr (notes_of_reply (indexer_reply s p))"
  shows "\<exists>evs. sol_getCommitments env1 env2 fetch fromBlock toBlock a = (a, Inr evs)
    \<and> sorted (map ev_leafIndex evs)
    \<and> set evs = commitment_event ` {n \<in> set (rows s). fromBlock \<le> in_leafIndex n \<and> in_leafIndex n \<le> toBlock}"
proof -
  let ?ns = "getNotesByRange fromBlock toBlock s"
  have "fetch u (range_path fromBlock toBlock) = Inr (NotesOk (Some ?ns))"
    by (simp add: assms(3) serve_range notes_of_reply_def)
  then have "sol_getCommitments env1 env2 fetch fromBlock toBlock a = (a, Inr (map commitment_event ?ns))"
    using assms(1,2) by (simp add: sol_getCommitments_def bind_result_def)
  moreover have "ev_leafIndex \<circ> commitment_event = in_leafIndex"
    by (simp add: commitment_event_def fun_eq_iff)
  moreover have "sorted (map in_leafIndex ?ns)"
    by (simp add: getNotesByRange_def by_leaf_def)
  moreover have "set ?ns = {n \<in> set (rows s). fromBlock \<le> in_leafIndex n \<and> in_leafIndex n \<le> toBlock}"
    by (auto simp: getNotesByRange_def by_leaf_def)
  ultimately show ?thesis
    by simp
qed

definition sample_adapter :: "unit SolanaAdapter" where
  "sample_adapter =
     \<lparr>sa_client = sample_client,
      sa_config = \<lparr>sa_rpcUrl = '''', sa_payer = [], sa_wallet = None, sa_indexerUrl = Some ''http://i'', sa_tokenMint = '''',
        sa_failoverEndpoints = None, sa_failoverConfig = None, sa_verificationKey = None,
        sa_nullifierManager = None, sa_nullifierPage = None, sa_feeCollector = None\<rparr>\<rparr>"

lemma adapter_takes_blocks_for_leaves_witness:
  "\<exists>evs. sol_getCommitments None None (\<lambda>_ p. Inr (notes_of_reply (indexer_reply sample_store p))) 2 3 sample_adapter
       = (sample_adapter, Inr evs)
     \<and> commitment_event (sample_row ''c3'' 3) \<in> set evs \<and> ev_blockNumber (commitment_event (sample_row ''c3'' 3)) = 1"
proof -
  have "sa_indexerUrl (sa_config sample_adapter) = Some ''http://i''"
    by (simp add: sample_adapter_def)
  then obtain evs where "sol_getCommitments None None (\<lambda>_ p. Inr (notes_of_reply (indexer_reply sample_store p))) 2 3
      sample_adapter = (sample_adapter, Inr evs)"
    and "set evs = commitment_event ` {n \<in> set (rows sample_store). 2 \<le> in_leafIndex n \<and> in_leafIndex n \<le> 3}"
    using adapter_takes_blocks_for_leaves [of sample_adapter "''http://i''"
        "\<lambda>_ p. Inr (notes_of_reply (indexer_reply sample_store p))" sample_store None None 2 3] by auto
  moreover have "sample_row ''c3'' 3 \<in> {n \<in> set (rows sample_store). 2 \<le> in_leafIndex n \<and> in_leafIndex n \<le> 3}"
    by (simp add: sample_store_def sample_row_def)
  moreover have "ev_blockNumber (commitment_event (sample_row ''c3'' 3)) = 1"
    by (simp add: sample_row_def commitment_event_def)
  ultimately show ?thesis
    by blast
qed

section \<open>Rounds of the wallet\<close>

text \<open>What a wallet that has seen an item knows of it.\<close>

definition covered :: "(EncryptedNote \<Rightarrow> string \<Rightarrow> NotePlaintext option) \<Rightarrow> Wallet \<Rightarrow> IndexedJson \<Rightarrow> bool" where
  "covered decrypt w it \<longleftrightarrow>
     js_commitment it \<in> set (map commitment (wnotes w)) \<or>
     (\<forall>enc pt. parse_bundle (js_encryptedNote it) = Some enc \<longrightarrow> decrypt enc (spendingKeyHex w) = Some pt \<longrightarrow>
        (\<exists>n \<in> set (wnotes w). noteValue n = pt_value pt \<and> blinding n = pt_blinding pt \<and> leafIndex n = Some (js_leafIndex it)))"

definition readable :: "(int list \<Rightarrow> int) \<Rightarrow> (EncryptedNote \<Rightarrow> string \<Rightarrow> NotePlaintext option) \<Rightarrow> string \<Rightarrow> bool" where
  "readable poseidon decrypt key \<longleftrightarrow>
     (\<forall>enc pt w leaf. decrypt enc key = Some pt \<longrightarrow> spendingKeyHex w = key \<longrightarrow>
        (\<exists>n. incoming_note poseidon w leaf pt = Inr n))"

lemma covered_mono:
  "covered decrypt w it \<Longrightarrow> wnotes v = wnotes w @ new \<Longrightarrow> spendingKeyHex v = spendingKeyHex w \<Longrightarrow> covered decrypt v it"
  by (fastforce simp: covered_def)

lemma key_of_watermark [simp]: "spendingKeyHex (advance_watermark it w) = spendingKeyHex w"
  "wnotes (advance_watermark it w) = wnotes w"
  by (simp_all add: advance_watermark_def)

lemma incoming_fields:
  "incoming_note poseidon w leaf pt = Inr n \<Longrightarrow>
     noteValue n = pt_value pt \<and> blinding n = pt_blinding pt \<and> leafIndex n = Some leaf"
  by (auto simp: incoming_note_def Let_def bind_result_Inr_iff)

lemma fetch_loop_covers:
  assumes "readable poseidon decrypt (spendingKeyHex w)" "set ex = set (map commitment (wnotes w))"
  shows "\<exists>w' d' new. fetch_loop poseidon decrypt its ex d w = (w', Inr d') \<and> wnotes w' = wnotes w @ new
    \<and> spendingKeyHex w' = spendingKeyHex w \<and> (\<forall>it \<in> set its. covered decrypt w' it)
    \<and> lastSyncedLeaf w' = foldl max (lastSyncedLeaf w) (map js_leafIndex its)"
  using assms
proof (induction its arbitrary: ex d w)
  case (Cons it its)
  let ?w1 = "advance_watermark it w"
  have mark: "lastSyncedLeaf ?w1 = max (lastSyncedLeaf w) (js_leafIndex it)"
    by (auto simp: advance_watermark_def)
  have skip: ?case
    if "fetch_loop poseidon decrypt (it # its) ex d w = fetch_loop poseidon decrypt its ex d ?w1" "covered decrypt w it"
  proof -
    obtain w' d' new where "fetch_loop poseidon decrypt its ex d ?w1 = (w', Inr d')" "wnotes w' = wnotes w @ new"
      "spendingKeyHex w' = spendingKeyHex w" "\<forall>it \<in> set its. covered decrypt w' it"
      "lastSyncedLeaf w' = foldl max (lastSyncedLeaf ?w1) (map js_leafIndex its)"
      using Cons.IH [of ?w1 ex d] Cons.prems by auto
    then show ?thesis
      using that covered_mono [OF that(2)] by (auto simp: mark)
  qed
  show ?case
  proof (cases "js_commitment it \<in> set ex \<or> parse_bundle (js_encryptedNote it) = None")
    case True
    then show ?thesis
      using Cons.prems(2) by (intro skip) (auto simp: covered_def Let_def)
  next
    case False
    then obtain enc where enc: "parse_bundle (js_encryptedNote it) = Some enc" "js_commitment it \<notin> set ex" by auto
    show ?thesis
    proof (cases "decrypt enc (spendingKeyHex w)")
      case None
      then show ?thesis
        using enc by (intro skip) (auto simp: covered_def Let_def)
    next
      case (Some pt)
      then obtain n where n: "incoming_note poseidon ?w1 (js_leafIndex it) pt = Inr n"
        using Cons.prems(1) unfolding readable_def by (metis key_of_watermark(1))
      let ?w2 = "?w1\<lparr>wnotes := wnotes w @ [n]\<rparr>"
      have key: "spendingKeyHex ?w2 = spendingKeyHex w"
        by (simp add: spendingKeyHex_def advance_watermark_def)
      have step: "fetch_loop poseidon decrypt (it # its) ex d w
          = fetch_loop poseidon decrypt its (commitment n # ex) (d + 1) ?w2"
        using enc Some n by (simp add: Let_def)
      have "covered decrypt ?w2 it"
        using enc Some incoming_fields [OF n] by (auto simp: covered_def key)
      moreover obtain w' d' new where "fetch_loop poseidon decrypt its (commitment n # ex) (d + 1) ?w2 = (w', Inr d')"
        "wnotes w' = wnotes ?w2 @ new" "spendingKeyHex w' = spendingKeyHex ?w2" "\<forall>it \<in> set its. covered decrypt w' it"
        "lastSyncedLeaf w' = foldl max (lastSyncedLeaf ?w2) (map js_leafIndex its)"
        using Cons.IH [of ?w2 "commitment n # ex" "d + 1"] Cons.prems key by auto
      moreover have "lastSyncedLeaf ?w2 = max (lastSyncedLeaf w) (js_leafIndex it)"
        using mark by simp
      ultimately show ?thesis
        using step key covered_mono [of decrypt ?w2 it w' new] by auto
    qed
  qed
qed auto

lemma foldl_max_sorted: "sorted xs \<Longrightarrow> \<forall>x \<in> set xs. a \<le> x \<Longrightarrow> xs \<noteq> [] \<Longrightarrow> foldl max a xs = last xs" for a :: int
proof (induction xs arbitrary: a)
  case (Cons x xs)
  then show ?case by (cases "xs = []") auto
qed simp

abbreviation page_of :: "NoteStore \<Rightarrow> Wallet \<Rightarrow> IndexedNote list" where
  "page_of s w \<equiv> getNotesAfter (lastSyncedLeaf w) 500 s"

definition wanted :: "NoteStore \<Rightarrow> int \<Rightarrow> IndexedNote set" where
  "wanted s l = {n \<in> set (rows s). l \<le> in_leafIndex n}"

lemma finite_wanted [simp]: "finite (wanted s l)"
  by (simp add: wanted_def)

lemma page_sorted: "sorted (map in_leafIndex (page_of s w))"
  by (simp add: getNotesAfter_def sql_limit_def by_leaf_def take_map [symmetric] sorted_wrt_take)

lemma le_last: "sorted (map f xs) \<Longrightarrow> x \<in> set xs \<Longrightarrow> f x \<le> f (last xs)"
  by (induction xs) auto

lemma sync_round_covers:
  assumes "readable poseidon decrypt (spendingKeyHex w)"
  shows "\<exists>w' d new. sync_round poseidon decrypt s w = (w', Inr d) \<and> wnotes w' = wnotes w @ new
    \<and> spendingKeyHex w' = spendingKeyHex w \<and> (\<forall>n \<in> set (page_of s w). covered decrypt w' (json_item n))
    \<and> lastSyncedLeaf w' = (if page_of s w = [] then lastSyncedLeaf w else in_leafIndex (last (page_of s w)))"
proof (cases "page_of s w = []")
  case True
  then show ?thesis
    using sync_round_page [of s w] by (simp add: sync_round_def fetchIncomingNotes_def)
next
  case False
  let ?p = "page_of s w"
  have leaves: "map js_leafIndex (map json_item ?p) = map in_leafIndex ?p"
    by (simp add: json_item_def)
  have "sync_round poseidon decrypt s w =
      fetch_loop poseidon decrypt (map json_item ?p) (map commitment (wnotes w)) 0 w"
    using sync_round_page [of s w] False by (simp add: sync_round_def fetchIncomingNotes_def)
  moreover have "\<forall>x \<in> set (map in_leafIndex ?p). lastSyncedLeaf w \<le> x"
    by (auto simp: getNotesAfter_def sql_limit_def by_leaf_def dest: in_set_takeD)
  with page_sorted have "foldl max (lastSyncedLeaf w) (map in_leafIndex ?p) = in_leafIndex (last ?p)"
    using foldl_max_sorted False by (simp add: last_map)
  ultimately show ?thesis
    using fetch_loop_covers [OF assms, of "map commitment (wnotes w)" "map json_item ?p" 0] False
    unfolding leaves by auto
qed

lemma sync_rounds_total:
  assumes "readable poseidon decrypt (spendingKeyHex w)"
  shows "\<exists>w' d new. sync_rounds poseidon decrypt s k w = (w', Inr d) \<and> wnotes w' = wnotes w @ new
    \<and> spendingKeyHex w' = spendingKeyHex w \<and> lastSyncedLeaf w \<le> lastSyncedLeaf w'"
  using assms
proof (induction k arbitrary: w)
  case (Suc k)
  obtain w1 d1 new1 where one: "sync_round poseidon decrypt s w = (w1, Inr d1)" "wnotes w1 = wnotes w @ new1"
    "spendingKeyHex w1 = spendingKeyHex w"
    "lastSyncedLeaf w1 = (if page_of s w = [] then lastSyncedLeaf w else in_leafIndex (last (page_of s w)))"
    using sync_round_covers [OF Suc.prems, of s] by blast
  have "in_leafIndex n \<ge> lastSyncedLeaf w" if "n \<in> set (page_of s w)" for n
    using that by (auto simp: getNotesAfter_def sql_limit_def by_leaf_def dest: in_set_takeD)
  then have "lastSyncedLeaf w \<le> lastSyncedLeaf w1"
    using one(4) by (simp split: if_splits)
  moreover obtain w2 d2 new2 where "sync_rounds poseidon decrypt s k w1 = (w2, Inr d2)" "wnotes w2 = wnotes w1 @ new2"
    "spendingKeyHex w2 = spendingKeyHex w1" "lastSyncedLeaf w1 \<le> lastSyncedLeaf w2"
    using Suc.IH [of w1] Suc.prems one(3) by auto
  ultimately show ?case
    using one by (auto simp: eff_defs)
qed (simp add: eff_defs)

text \<open>A full page moves the position past 499 of the wanted notes; a shorter one holds them all.\<close>

lemma page_progress:
  fixes w :: Wallet and s :: NoteStore
  assumes "distinct (map in_leafIndex (rows s))"
  defines "l \<equiv> lastSyncedLeaf w" and "p \<equiv> page_of s w"
  shows "set p = wanted s l \<or>
    (p \<noteq> [] \<and> card (wanted s (in_leafIndex (last p))) + 499 \<le> card (wanted s l)
      \<and> wanted s l \<subseteq> set p \<union> wanted s (in_leafIndex (last p)))"
proof -
  define all_notes where "all_notes = by_leaf (filter (\<lambda>n. l \<le> in_leafIndex n) (rows s))"
  have p: "p = take 500 all_notes"
    by (simp add: p_def l_def all_notes_def getNotesAfter_def sql_limit_def)
  have members: "set all_notes = wanted s l"
    by (auto simp: all_notes_def by_leaf_def wanted_def)
  have "distinct (rows s)"
    using assms(1) by (simp add: distinct_map)
  then have dist: "distinct all_notes"
    by (simp add: all_notes_def by_leaf_def)
  have inj: "inj_on in_leafIndex (set all_notes)"
    using assms(1) unfolding members wanted_def by (auto simp: distinct_map intro: inj_on_subset)
  have sorted: "sorted (map in_leafIndex all_notes)"
    by (simp add: all_notes_def by_leaf_def)
  show ?thesis
  proof (cases "length all_notes \<le> 500")
    case True
    then show ?thesis using p members by simp
  next
    case False
    then have "length p = 500" by (simp add: p)
    moreover from this have ne: "p \<noteq> []"
      by (metis list.size(3) zero_neq_numeral)
    ultimately have last_p: "last p = all_notes ! 499"
      by (simp add: last_conv_nth p del: take_eq_Nil)
    let ?m = "in_leafIndex (last p)"
    have strict: "in_leafIndex (all_notes ! i) < ?m" if "i < 499" for i
    proof -
      have "in_leafIndex (all_notes ! i) \<le> ?m"
        using sorted_nth_mono [OF sorted, of i 499] that False by (simp add: last_p)
      moreover have "all_notes ! i \<noteq> all_notes ! 499"
        using that False nth_eq_iff_index_eq [OF dist, of i 499] by simp
      moreover have "all_notes ! i \<in> set all_notes" "all_notes ! 499 \<in> set all_notes"
        using that False by simp_all
      ultimately have "in_leafIndex (all_notes ! i) \<noteq> ?m" "in_leafIndex (all_notes ! i) \<le> ?m"
        using inj_onD [OF inj, of "all_notes ! i" "all_notes ! 499"] by (auto simp: last_p)
      then show ?thesis by simp
    qed
    have late: "wanted s ?m \<subseteq> set (drop 499 all_notes)"
    proof
      fix n assume n: "n \<in> wanted s ?m"
      have "l \<le> ?m"
        using nth_mem [of 499 all_notes] False members by (simp add: last_p wanted_def)
      then have "n \<in> set all_notes"
        using n by (auto simp: members wanted_def)
      then obtain i where i: "i < length all_notes" "n = all_notes ! i"
        by (auto simp: in_set_conv_nth)
      then have "499 \<le> i"
        using strict [of i] n by (auto simp: wanted_def not_less [symmetric])
      then have "n = drop 499 all_notes ! (i - 499)" "i - 499 < length (drop 499 all_notes)"
        using i by simp_all
      then show "n \<in> set (drop 499 all_notes)"
        using nth_mem by metis
    qed
    then have "card (wanted s ?m) \<le> length all_notes - 499"
      using card_mono [OF _ late] card_length [of "drop 499 all_notes"] by simp
    moreover have "card (wanted s l) = length all_notes"
      using distinct_card [OF dist] members by simp
    moreover have "n \<in> set p \<union> wanted s ?m" if n: "n \<in> wanted s l" for n
    proof -
      obtain i where i: "i < length all_notes" "n = all_notes ! i"
        using n unfolding members [symmetric] in_set_conv_nth by blast
      show ?thesis
      proof (cases "i < 500")
        case True
        then show ?thesis
          using i nth_mem [of i "take 500 all_notes"] by (simp add: p)
      next
        case False
        then have "?m \<le> in_leafIndex n"
          using sorted_nth_mono [OF sorted, of 499 i] i by (simp add: last_p)
        then show ?thesis
          using n by (simp add: wanted_def)
      qed
    qed
    ultimately show ?thesis
      using ne False by auto
  qed
qed

text \<open>
  C21. The wallet catches up with the indexer: against a store whose notes have different leaf indices,
  and when what decrypts under the wallet's key is a well-formed note, k calls of
  \<open>fetchIncomingNotes\<close> succeed, and as soon as 499 k reaches the number of notes from the wallet's
  position on, every one of them has been dealt with: its commitment is held, or it does not decrypt
  under the wallet's key, or the note it decrypts to is in the wallet; and the position is past it.
\<close>

theorem wallet_catches_up:
  assumes "distinct (map in_leafIndex (rows s))" "readable poseidon decrypt (spendingKeyHex w)"
    and "card (wanted s (lastSyncedLeaf w)) \<le> 499 * k"
  shows "\<exists>w' d new. sync_rounds poseidon decrypt s k w = (w', Inr d) \<and> wnotes w' = wnotes w @ new
    \<and> (\<forall>n \<in> wanted s (lastSyncedLeaf w). covered decrypt w' (json_item n) \<and> in_leafIndex n \<le> lastSyncedLeaf w')"
proof -
  have "\<exists>w' d new. sync_rounds poseidon decrypt s k w = (w', Inr d) \<and> wnotes w' = wnotes w @ new
      \<and> spendingKeyHex w' = spendingKeyHex w
      \<and> (\<forall>n \<in> wanted s (lastSyncedLeaf w). covered decrypt w' (json_item n) \<and> in_leafIndex n \<le> lastSyncedLeaf w')"
    using assms(2,3)
  proof (induction k arbitrary: w)
    case 0
    then show ?case by (simp add: eff_defs)
  next
    case (Suc k)
    let ?l = "lastSyncedLeaf w" and ?p = "page_of s w"
    obtain w1 d1 new1 where one: "sync_round poseidon decrypt s w = (w1, Inr d1)" "wnotes w1 = wnotes w @ new1"
      "spendingKeyHex w1 = spendingKeyHex w" "\<forall>n \<in> set ?p. covered decrypt w1 (json_item n)"
      "lastSyncedLeaf w1 = (if ?p = [] then ?l else in_leafIndex (last ?p))"
      using sync_round_covers [OF Suc.prems(1), of s] by blast
    have reached: "in_leafIndex n \<le> lastSyncedLeaf w1" if "n \<in> set ?p" for n
    proof -
      have "?p \<noteq> []" using that by (metis list.set(1) empty_iff)
      then show ?thesis
        using le_last [OF page_sorted that] one(5) by simp
    qed
    obtain w2 d2 new2 where two: "sync_rounds poseidon decrypt s k w1 = (w2, Inr d2)" "wnotes w2 = wnotes w1 @ new2"
      "spendingKeyHex w2 = spendingKeyHex w1" "lastSyncedLeaf w1 \<le> lastSyncedLeaf w2"
      "?p \<noteq> [] \<Longrightarrow> card (wanted s (in_leafIndex (last ?p))) + 499 \<le> card (wanted s ?l) \<Longrightarrow>
        \<forall>n \<in> wanted s (in_leafIndex (last ?p)). covered decrypt w2 (json_item n) \<and> in_leafIndex n \<le> lastSyncedLeaf w2"
    proof (cases "?p \<noteq> [] \<and> card (wanted s (in_leafIndex (last ?p))) + 499 \<le> card (wanted s ?l)")
      case True
      moreover obtain w2 d2 new2 where "sync_rounds poseidon decrypt s k w1 = (w2, Inr d2)" "wnotes w2 = wnotes w1 @ new2"
        "spendingKeyHex w2 = spendingKeyHex w1"
        "\<forall>n \<in> wanted s (lastSyncedLeaf w1). covered decrypt w2 (json_item n) \<and> in_leafIndex n \<le> lastSyncedLeaf w2"
        using Suc.IH [of w1] Suc.prems one(3,5) True by auto
      moreover obtain w3 d3 where "sync_rounds poseidon decrypt s k w1 = (w3, Inr d3)" "lastSyncedLeaf w1 \<le> lastSyncedLeaf w3"
        using sync_rounds_total [of poseidon decrypt w1 s k] Suc.prems one(3) by auto
      ultimately show ?thesis
        using that one(5) by auto
    next
      case False
      then show ?thesis
        using that sync_rounds_total [of poseidon decrypt w1 s k] Suc.prems one(3) by metis
    qed
    have "covered decrypt w2 (json_item n) \<and> in_leafIndex n \<le> lastSyncedLeaf w2" if "n \<in> set ?p" for n
      using one(4) that covered_mono [of decrypt w1 "json_item n" w2 new2] two(2-4) reached by fastforce
    then have "\<forall>n \<in> wanted s ?l. covered decrypt w2 (json_item n) \<and> in_leafIndex n \<le> lastSyncedLeaf w2"
      using page_progress [OF assms(1), of w] two(5) by blast
    moreover have "sync_rounds poseidon decrypt s (Suc k) w = (w2, Inr (d1 + d2))"
      using one(1) two(1) by (simp add: eff_defs)
    ultimately show ?case
      using one(2,3) two(2,3) by auto
  qed
  then show ?thesis by blast
qed

lemma wallet_catches_up_witness:
  "\<exists>w' d. sync_rounds sample_hash sample_decrypt sample_store 1 sample_wallet = (w', Inr d)
     \<and> (\<forall>n \<in> wanted sample_store (lastSyncedLeaf sample_wallet). in_leafIndex n \<le> lastSyncedLeaf w')"
proof -
  have "readable sample_hash sample_decrypt (spendingKeyHex sample_wallet)"
    using sample_incoming by (auto simp: readable_def sample_decrypt_def)
  moreover have "distinct (map in_leafIndex (rows sample_store))"
    by (simp add: sample_store_def sample_row_def)
  moreover have "card (wanted sample_store (lastSyncedLeaf sample_wallet)) \<le> 3"
  proof -
    have "wanted sample_store (lastSyncedLeaf sample_wallet) \<subseteq> set (rows sample_store)"
      by (auto simp: wanted_def)
    then have "card (wanted sample_store (lastSyncedLeaf sample_wallet)) \<le> card (set (rows sample_store))"
      by (simp add: card_mono)
    also have "\<dots> \<le> length (rows sample_store)"
      by (rule card_length)
    finally show ?thesis by (simp add: sample_store_def)
  qed
  ultimately show ?thesis
    using wallet_catches_up [of sample_store sample_hash sample_decrypt sample_wallet 1] by auto
qed

end
