(* ===== verification/App_Solana.thy ===== *)
theory App_Solana
  imports Sdk_Client_Flows Sdk_Stealth Sdk_Compliance
begin

text \<open>
  app/src/hooks/useSolanaHolanc.ts: what the web application does with the SDK on Solana. The hook's
  state is its four pieces of React state, the connected key and the two references; an operation is
  its callback. A human amount is given as the outcome of \<open>BigInt(Math.round(x * 1e9))\<close>, the rounding of
  doubles being left to the runtime.
\<close>

section \<open>State\<close>

datatype TxStatus = Idle | Generating | Sending | Confirming | Done | Errored

record Hook =
  ui_status :: TxStatus
  ui_error :: "string option"
  ui_txSignature :: "string option"
  ui_note :: "string option"
  ui_publicKey :: "pubkey option"
  ui_wallet :: "Wallet option"
  ui_prover :: bool

text \<open>\<open>hk_send\<close> is the wallet adapter's \<open>sendTransaction\<close>; \<open>hk_message\<close> gives the text of an engine error.\<close>

record 'f hook_env =
  hk_poseidon :: "int list \<Rightarrow> int"
  hk_prove :: full_prove
  hk_curve :: "'f curve"
  hk_web3 :: bridge_env
  hk_limit :: "int \<Rightarrow> instruction"
  hk_key :: "string \<Rightarrow> js_error + pubkey"
  hk_send :: "instruction list \<Rightarrow> js_error + string"
  hk_confirm :: "string \<Rightarrow> js_error + unit"
  hk_message :: "js_error \<Rightarrow> string"
  HK_POOL :: pubkey
  HK_BRIDGE :: pubkey
  HK_COMPLIANCE :: pubkey

definition circuit_dir :: string where
  "circuit_dir = ''./circuits/build''"

definition describeError :: "(js_error \<Rightarrow> string) \<Rightarrow> js_error \<Rightarrow> string \<Rightarrow> string" where
  "describeError message e fallback =
     (let m = message e in
      if text_includes m ''User rejected'' then ''Transaction rejected by wallet''
      else if text_includes m ''Insufficient'' then m
      else if m = [] then fallback else m)"

definition reset_ui :: "Hook \<Rightarrow> Hook" where
  "reset_ui h = h\<lparr>ui_status := Idle, ui_error := None, ui_txSignature := None, ui_note := None\<rparr>"

definition set_status :: "TxStatus \<Rightarrow> (Hook, unit) effect" where
  "set_status st = eff_modify (\<lambda>h. h\<lparr>ui_status := st\<rparr>)"

definition with_wallet :: "(Wallet, 'a) effect \<Rightarrow> (Hook, 'a) effect" where
  "with_wallet m h =
     (case ui_wallet h of
        None \<Rightarrow> (h, Inl (Error ''SDK not ready''))
      | Some w \<Rightarrow> (case m w of (w', res) \<Rightarrow> (h\<lparr>ui_wallet := Some w'\<rparr>, res)))"

text \<open>The checks before the \<open>try\<close> block throw to the caller; the block's errors end in the error state.\<close>

definition guarded :: "(js_error \<Rightarrow> string) \<Rightarrow> bool \<Rightarrow> string \<Rightarrow> 'a \<Rightarrow> (pubkey \<Rightarrow> (Hook, 'a) effect) \<Rightarrow> (Hook, 'a) effect" where
  "guarded message need_prover fallback dflt body h =
     (case ui_publicKey h of
        None \<Rightarrow> (h, Inl (Error ''Wallet not connected''))
      | Some pk \<Rightarrow>
          if ui_wallet h = None \<or> (need_prover \<and> \<not> ui_prover h) then (h, Inl (Error ''SDK not ready''))
          else (case body pk (reset_ui h) of
                  (h', Inr x) \<Rightarrow> (h', Inr x)
                | (h', Inl e) \<Rightarrow>
                    (h'\<lparr>ui_error := Some (describeError message e fallback), ui_status := Errored\<rparr>, Inr dflt)))"

text \<open>The first effect of the hook: keep the wallet it has, or restore or create one.\<close>

definition init_hook :: "(int list \<Rightarrow> int) \<Rightarrow> (string \<Rightarrow> bool) \<Rightarrow> (string \<Rightarrow> byte list) \<Rightarrow> string \<Rightarrow>
    (string \<rightharpoonup> string) \<Rightarrow> Hook \<Rightarrow> (string \<rightharpoonup> string) \<times> Hook \<times> (js_error + unit)" where
  "init_hook poseidon validateMnemonic mnemonicToSeed drawn storage h =
     (let h1 = h\<lparr>ui_prover := True\<rparr> in
      case ui_wallet h of
        Some w \<Rightarrow> (storage, h1, Inr ())
      | None \<Rightarrow>
          (case storage ''holanc_mnemonic'' of
             Some (c # cs) \<Rightarrow>
               (case fromMnemonic poseidon validateMnemonic mnemonicToSeed (c # cs) of
                  Inl e \<Rightarrow> (storage, h1, Inl e)
                | Inr w \<Rightarrow> (storage, h1\<lparr>ui_wallet := Some w\<rparr>, Inr ()))
           | _ \<Rightarrow>
               (case generate poseidon validateMnemonic mnemonicToSeed drawn of
                  Inl e \<Rightarrow> (storage, h1, Inl e)
                | Inr (w, m) \<Rightarrow> (storage(''holanc_mnemonic'' \<mapsto> m), h1\<lparr>ui_wallet := Some w\<rparr>, Inr ()))))"

section \<open>Instructions\<close>

definition app_pool :: "'f hook_env \<Rightarrow> js_error + pubkey" where
  "app_pool env = find_pda (hk_web3 env) [utf8 ''pool''] (HK_POOL env)"

definition app_deposit_ix :: "'f hook_env \<Rightarrow> int \<Rightarrow> string \<Rightarrow> byte list \<Rightarrow> js_error + instruction" where
  "app_deposit_ix env amount cm memo =
     bind_result (app_pool env) (\<lambda>pool.
     bind_result (u64_buf amount) (\<lambda>amountBuf.
     bind_result (u32_buf (int (length memo))) (\<lambda>noteLenBuf.
       Inr \<lparr>programId = HK_POOL env, ix_keys = [account pool False True],
            ix_data = DISC_DEPOSIT @ amountBuf @ buffer_from_hex cm @ noteLenBuf @ memo\<rparr>)))"

definition app_transfer_ix :: "'f hook_env \<Rightarrow> string list \<Rightarrow> js_error + instruction" where
  "app_transfer_ix env signals =
     bind_result (app_pool env) (\<lambda>pool.
     bind_result (map_result (\<lambda>k. hex_buffer (signal signals k)) [0, 1, 2, 3, 4]) (\<lambda>bufs.
       Inr \<lparr>programId = HK_POOL env, ix_keys = [account pool False True], ix_data = DISC_TRANSFER @ concat bufs\<rparr>))"

definition app_withdraw_ix :: "'f hook_env \<Rightarrow> string \<Rightarrow> int \<Rightarrow> string list \<Rightarrow> js_error + instruction" where
  "app_withdraw_ix env recipientAddress amount signals =
     bind_result (app_pool env) (\<lambda>pool.
     bind_result (hk_key env recipientAddress) (\<lambda>recipient.
     bind_result (map_result (\<lambda>k. hex_buffer (signal signals k)) [0, 1, 2]) (\<lambda>bufs.
     bind_result (u64_buf amount) (\<lambda>amountBuf.
       Inr \<lparr>programId = HK_POOL env, ix_keys = [account pool False True, account recipient False True],
            ix_data = DISC_WITHDRAW @ concat bufs @ amountBuf\<rparr>))))"

text \<open>The chain number goes into one byte: \<open>Buffer.from([destChain])\<close> keeps the low byte.\<close>

definition app_lock_ix :: "'f hook_env \<Rightarrow> BridgeConfig \<Rightarrow> pubkey \<Rightarrow> string \<Rightarrow> int \<Rightarrow> js_error + instruction" where
  "app_lock_ix env cfg self cm destChain =
     bind_result (app_pool env) (\<lambda>pool.
     bind_result (getBridgePda (hk_web3 env) cfg pool) (\<lambda>bridgePda.
     bind_result (getCommitmentLockPda (hk_web3 env) cfg pool cm) (\<lambda>lockPda.
       Inr \<lparr>programId = HK_BRIDGE env,
            ix_keys = [account bridgePda False True, account lockPda False True, account self True True],
            ix_data = [0x7e, 0x34, 0xb2, 0xa9, 0x61, 0xf5, 0xc8, 0x3d] @ buffer_from_hex cm @ [word_of_int destChain]\<rparr>)))"

definition app_disclose_ix :: "'f hook_env \<Rightarrow> ComplianceConfig \<Rightarrow> pubkey \<Rightarrow> pubkey \<Rightarrow> byte list \<Rightarrow> js_error + instruction" where
  "app_disclose_ix env cfg self oracle viewingKeyBytes =
     bind_result (app_pool env) (\<lambda>pool.
     bind_result (getCompliancePda (hk_web3 env) cfg pool) (\<lambda>compliancePda.
     bind_result (getOraclePda (hk_web3 env) cfg pool oracle) (\<lambda>oraclePda.
     bind_result (getDisclosurePda (hk_web3 env) cfg pool self oracle) (\<lambda>disclosurePda.
     bind_result (u32_buf (int (length viewingKeyBytes))) (\<lambda>keyLenBuf.
       Inr \<lparr>programId = HK_COMPLIANCE env,
            ix_keys = [account compliancePda False True, account oraclePda False False,
              account disclosurePda False True, account self True True],
            ix_data = [0x8f, 0x3c, 0xe7, 0x54, 0x19, 0xab, 0x62, 0xd8] @ keyLenBuf @ viewingKeyBytes @ [0]\<rparr>)))))"

text \<open>\<open>JSON.stringify\<close> of a proof: its texts are digits, which need no escaping.\<close>

definition json_string :: "string \<Rightarrow> string" where
  "json_string s = ''\"'' @ s @ ''\"''"

fun json_join :: "string list \<Rightarrow> string" where
  "json_join [] = ''''"
| "json_join [x] = x"
| "json_join (x # xs) = x @ '','' @ json_join xs"

definition json_array :: "string list \<Rightarrow> string" where
  "json_array xs = ''['' @ json_join xs @ '']''"

definition json_proof :: "ProveResult \<Rightarrow> string" where
  "json_proof p =
     (let g = pr_proof p; strings = (\<lambda>xs. json_array (map json_string xs)) in
      ''{\"proof\":{\"piA\":'' @ strings (piA g) @ '',\"piB\":'' @ json_array (map strings (piB g))
      @ '',\"piC\":'' @ strings (piC g) @ '',\"protocol\":'' @ json_string (protocol g)
      @ '',\"curve\":'' @ json_string (gcurve g) @ ''},\"publicSignals\":'' @ strings (publicSignals p) @ ''}'')"

definition app_wealth_ix :: "'f hook_env \<Rightarrow> ComplianceConfig \<Rightarrow> pubkey \<Rightarrow> int \<Rightarrow> byte list \<Rightarrow> js_error + instruction" where
  "app_wealth_ix env cfg self thr proofBytes =
     bind_result (app_pool env) (\<lambda>pool.
     bind_result (getCompliancePda (hk_web3 env) cfg pool) (\<lambda>compliancePda.
     bind_result (getWealthAttestationPda (hk_web3 env) cfg pool self) (\<lambda>wealthPda.
     bind_result (u64_buf thr) (\<lambda>thresholdBuf.
     bind_result (u32_buf (int (length proofBytes))) (\<lambda>proofLenBuf.
       Inr \<lparr>programId = HK_COMPLIANCE env,
            ix_keys = [account compliancePda False False, account wealthPda False True, account self True True],
            ix_data = [0xd2, 0x47, 0x83, 0xbc, 0x5a, 0xf1, 0x96, 0x0e] @ thresholdBuf @ proofLenBuf @ proofBytes
              @ [0]\<rparr>)))))"

section \<open>Callbacks\<close>

text \<open>Send, wait for the confirmation, and give the signature.\<close>

definition send_confirmed :: "'f hook_env \<Rightarrow> int \<Rightarrow> instruction \<Rightarrow> (Hook, string) effect" where
  "send_confirmed env units ix =
     eff_bind (eff_lift (hk_send env [hk_limit env units, ix])) (\<lambda>sig.
     eff_bind (set_status Confirming) (\<lambda>_.
     eff_bind (eff_lift (hk_confirm env sig)) (\<lambda>_. eff_return sig)))"

definition finish :: "string option \<Rightarrow> string \<Rightarrow> (Hook, unit) effect" where
  "finish nt sig = eff_modify (\<lambda>h. h\<lparr>ui_note := (case nt of None \<Rightarrow> ui_note h | Some x \<Rightarrow> Some x),
     ui_txSignature := Some sig, ui_status := Done\<rparr>)"

text \<open>The end of a transfer, a withdrawal and a bridge transfer: inputs are spent after the confirmation.\<close>

definition submit_and_spend :: "'f hook_env \<Rightarrow> Note list \<Rightarrow> js_error + instruction \<Rightarrow> (string \<Rightarrow> (Hook, 'a) effect) \<Rightarrow>
    (Hook, 'a) effect" where
  "submit_and_spend env ins ix k =
     eff_bind (eff_lift ix) (\<lambda>i.
     eff_bind (send_confirmed env 400000 i) (\<lambda>sig.
     eff_bind (with_wallet (eff_modify (markSpent ins))) (\<lambda>_. k sig)))"

definition ui_deposit :: "'f hook_env \<Rightarrow> int \<Rightarrow> js_error + int \<Rightarrow> (Hook, unit) effect" where
  "ui_deposit env now lamports =
     guarded (hk_message env) True ''Deposit failed'' () (\<lambda>_.
     eff_bind (eff_lift lamports) (\<lambda>amount.
     eff_bind (set_status Generating) (\<lambda>_.
     eff_bind (with_wallet (createDepositNote (hk_poseidon env) now amount)) (\<lambda>n.
     eff_bind (eff_lift (computeCommitment (hk_poseidon env) n)) (\<lambda>cm.
     eff_bind (eff_lift (proveDeposit (hk_prove env) circuit_dir (owner n) (noteValue n) (assetId n) (blinding n))) (\<lambda>_.
     eff_bind (set_status Sending) (\<lambda>_.
     eff_bind (eff_lift (app_deposit_ix env amount cm [])) (\<lambda>ix.
     eff_bind (send_confirmed env 400000 ix) (\<lambda>sig.
       finish (Some cm) sig)))))))))"

text \<open>\<open>setNote(proof.publicSignals[3])\<close>: undefined clears the note.\<close>

definition ui_transfer :: "'f hook_env \<Rightarrow> int \<Rightarrow> 32 word \<Rightarrow> string \<Rightarrow> js_error + int \<Rightarrow> (Hook, unit) effect" where
  "ui_transfer env now r recipientPubkey lamports =
     guarded (hk_message env) True ''Transfer failed'' () (\<lambda>_.
     eff_bind (eff_lift lamports) (\<lambda>amount.
     eff_bind (set_status Generating) (\<lambda>_.
     eff_bind (with_wallet (prepareTransfer (hk_poseidon env) now r recipientPubkey amount 0)) (\<lambda>(ins, outs).
     eff_bind (with_wallet (\<lambda>w. (w, proveTransfer (hk_prove env) circuit_dir
         \<lparr>tp_spendingKey = spendingKeyHex w, inputNotes = ins, outputNotes = outs, tp_fee = 0,
          merklePathElements = None, merklePathIndices = None\<rparr>))) (\<lambda>proof.
     eff_bind (set_status Sending) (\<lambda>_.
       submit_and_spend env ins (app_transfer_ix env (publicSignals proof))
         (finish (signal (publicSignals proof) 3))))))))"

definition ui_withdraw :: "'f hook_env \<Rightarrow> int \<Rightarrow> 32 word \<Rightarrow> string \<Rightarrow> js_error + int \<Rightarrow> (Hook, unit) effect" where
  "ui_withdraw env now r recipientAddress lamports =
     guarded (hk_message env) True ''Withdrawal failed'' () (\<lambda>_.
     eff_bind (eff_lift lamports) (\<lambda>amount.
     eff_bind (set_status Generating) (\<lambda>_.
     eff_bind (with_wallet (prepareWithdraw (hk_poseidon env) now r amount 0)) (\<lambda>(ins, outs).
     eff_bind (with_wallet (\<lambda>w. (w, proveWithdraw (hk_prove env) circuit_dir
         \<lparr>wp_spendingKey = spendingKeyHex w, wp_inputNotes = ins, wp_outputNotes = outs,
          wp_exitValue = amount, wp_fee = 0\<rparr>))) (\<lambda>proof.
     eff_bind (set_status Sending) (\<lambda>_.
       submit_and_spend env ins (app_withdraw_ix env recipientAddress amount (publicSignals proof))
         (finish None)))))))"

definition parse_meta :: "string \<Rightarrow> js_error + StealthMetaAddress" where
  "parse_meta metaAddress =
     (case split_on (CHR '':'') metaAddress of
        [a, b, c] \<Rightarrow>
          if length a \<noteq> 64 \<or> length b \<noteq> 64 \<or> length c \<noteq> 64
          then Inl (Error ''Invalid stealth meta-address. Expected format: spendingPubkey:viewingPubkeyX:viewingPubkeyY (64 hex chars each)'')
          else Inr \<lparr>spendingPubkey = a, viewingPubkey = (b, c)\<rparr>
      | _ \<Rightarrow> Inl (Error ''Invalid stealth meta-address. Expected format: spendingPubkey:viewingPubkeyX:viewingPubkeyY (64 hex chars each)''))"

definition ui_stealthSend :: "'f hook_env \<Rightarrow> int \<Rightarrow> byte list \<Rightarrow> string \<Rightarrow> js_error + int \<Rightarrow>
    (Hook, StealthSendResult option) effect" where
  "ui_stealthSend env now drawn metaAddress lamports =
     guarded (hk_message env) False ''Stealth send failed'' None (\<lambda>_.
     eff_bind (set_status Generating) (\<lambda>_.
     eff_bind (eff_lift (parse_meta metaAddress)) (\<lambda>meta.
     eff_bind (eff_lift (stealthSend (hk_curve env) drawn meta)) (\<lambda>result.
     eff_bind (eff_lift lamports) (\<lambda>amount.
     eff_bind (with_wallet (createDepositNote (hk_poseidon env) now amount)) (\<lambda>n.
     eff_bind (set_status Sending) (\<lambda>_.
     eff_bind (eff_lift (app_deposit_ix env amount (commitment n)
         (buffer_from_hex (fst (ephemeralPubkey result) @ snd (ephemeralPubkey result))))) (\<lambda>ix.
     eff_bind (send_confirmed env 400000 ix) (\<lambda>sig.
     eff_bind (finish (Some (stealthOwner result)) sig) (\<lambda>_.
       eff_return (Some result)))))))))))"

definition second_part :: "string \<Rightarrow> string \<Rightarrow> string option" where
  "second_part sep s =
     (case find_at sep s of
        None \<Rightarrow> None
      | Some (_, rest) \<Rightarrow> Some (case find_at sep rest of None \<Rightarrow> rest | Some (b, _) \<Rightarrow> b))"

definition first_word :: "string \<Rightarrow> string" where
  "first_word s = hd (split_on (CHR '' '') (js_trim s))"

definition ephemeral_pair :: "string \<Rightarrow> (string \<times> string) option" where
  "ephemeral_pair raw =
     (if CHR '':'' \<in> set raw then
        (case split_on (CHR '':'') raw of
           ex # ey # _ \<Rightarrow> if length ex = 64 \<and> length ey = 64 then Some (ex, ey) else None
         | _ \<Rightarrow> None)
      else if length raw = 128 then Some (take 64 raw, drop 64 raw) else None)"

text \<open>One log line; the scan of a line that carries both parts may throw.\<close>

definition scan_log :: "'f curve \<Rightarrow> string \<Rightarrow> string \<Rightarrow> js_error + StealthScanResult list" where
  "scan_log C key line =
     (case (map_option first_word (second_part ''ephemeral:'' line), map_option first_word (second_part ''owner:'' line)) of
        (Some (e # es), Some (c # cs)) \<Rightarrow>
          (case ephemeral_pair (e # es) of
             None \<Rightarrow> Inr []
           | Some eph \<Rightarrow>
               bind_result (stealthScan C key key eph (c # cs)) (\<lambda>res. Inr (if isOurs res then [res] else [])))
      | _ \<Rightarrow> Inr [])"

definition ui_stealthScan :: "'f hook_env \<Rightarrow> js_error + string list \<Rightarrow> (string \<Rightarrow> js_error + string list option) \<Rightarrow>
    (Hook, StealthScanResult list) effect" where
  "ui_stealthScan env signatures logs_of =
     guarded (hk_message env) False ''Stealth scan failed'' [] (\<lambda>_.
     eff_bind (set_status Generating) (\<lambda>_.
     eff_bind (with_wallet (\<lambda>w. (w, Inr (spendingKeyHex w)))) (\<lambda>key.
     eff_bind (eff_lift signatures) (\<lambda>sigs.
     eff_bind (eff_lift (map_result (\<lambda>sg. bind_result (logs_of sg) (\<lambda>ls.
         case ls of None \<Rightarrow> Inr [] | Some logs \<Rightarrow>
           bind_result (map_result (scan_log (hk_curve env) key) logs) (\<lambda>rs. Inr (concat rs)))) sigs)) (\<lambda>rss.
     (let results = concat rss in
      eff_bind (eff_modify (\<lambda>h. h\<lparr>ui_note := (if results = [] then None
          else Some (''Found '' @ nat_to_string 10 (length results) @ '' stealth payment(s)'')),
          ui_status := Done\<rparr>)) (\<lambda>_. eff_return results)))))))"

definition ui_bridgeTransfer :: "'f hook_env \<Rightarrow> int \<Rightarrow> 32 word \<Rightarrow> SvmChain \<Rightarrow> int \<Rightarrow> js_error + int \<Rightarrow>
    (Hook, string option) effect" where
  "ui_bridgeTransfer env now r sourceChain destChain lamports =
     guarded (hk_message env) False ''Bridge transfer failed'' None (\<lambda>self.
     eff_bind (set_status Generating) (\<lambda>_.
     eff_bind (eff_lift lamports) (\<lambda>amount.
     eff_bind (with_wallet (prepareWithdraw (hk_poseidon env) now r amount 0)) (\<lambda>(ins, outs).
     (let cm = (case ins of [] \<Rightarrow> '''' | n # _ \<Rightarrow> commitment n) in
      if cm = '''' then eff_lift (Inl (Error ''No note found for bridging''))
      else
     eff_bind (set_status Sending) (\<lambda>_.
       submit_and_spend env ins
         (app_lock_ix env (newHolancBridge (hk_web3 env) None None (Some sourceChain) None) self cm destChain)
         (\<lambda>sig. eff_bind (finish None sig) (\<lambda>_. eff_return (Some sig)))))))))"

definition ui_disclose :: "'f hook_env \<Rightarrow> string \<Rightarrow> (Hook, string option) effect" where
  "ui_disclose env oracleAddress =
     guarded (hk_message env) False ''Disclosure failed'' None (\<lambda>self.
     eff_bind (set_status Generating) (\<lambda>_.
     eff_bind (eff_lift (hk_key env oracleAddress)) (\<lambda>oracle.
     eff_bind (with_wallet (\<lambda>w. (w, Inr (utf8 (spendingKeyHex w))))) (\<lambda>viewingKeyBytes.
     eff_bind (set_status Sending) (\<lambda>_.
     eff_bind (eff_lift (app_disclose_ix env (newHolancCompliance (hk_web3 env) (HK_COMPLIANCE env) None None) self
         oracle viewingKeyBytes)) (\<lambda>ix.
     eff_bind (send_confirmed env 200000 ix) (\<lambda>sig.
     eff_bind (finish None sig) (\<lambda>_. eff_return (Some sig)))))))))"

definition ui_wealthProof :: "'f hook_env \<Rightarrow> js_error + int \<Rightarrow> (Hook, string option) effect" where
  "ui_wealthProof env lamports =
     guarded (hk_message env) True ''Wealth proof failed'' None (\<lambda>self.
     eff_bind (set_status Generating) (\<lambda>_.
     eff_bind (eff_lift lamports) (\<lambda>thr.
     eff_bind (with_wallet (\<lambda>w. (w, proveWealth (hk_prove env) circuit_dir
         \<lparr>wl_spendingKey = spendingKeyHex w, wl_inputNotes = unspentNotes w, threshold = thr,
          wl_merklePathElements = None, wl_merklePathIndices = None\<rparr>))) (\<lambda>proof.
     eff_bind (set_status Sending) (\<lambda>_.
     eff_bind (eff_lift (app_wealth_ix env (newHolancCompliance (hk_web3 env) (HK_COMPLIANCE env) None None) self
         thr (utf8 (json_proof proof)))) (\<lambda>ix.
     eff_bind (send_confirmed env 400000 ix) (\<lambda>sig.
     eff_bind (finish None sig) (\<lambda>_. eff_return (Some sig)))))))))"

end
