(* ===== verification/App_Flows.thy ===== *)
theory App_Flows
  imports App_Solana
begin

text \<open>
  What the callbacks of the Solana hook do to the wallet and what they put on the chain: failed
  transfers, bridge transfers, stealth payments and disclosures.
\<close>

section \<open>Frames\<close>

lemma reset_ui_frame [simp]:
  "ui_wallet (reset_ui h) = ui_wallet h" "ui_publicKey (reset_ui h) = ui_publicKey h" "ui_prover (reset_ui h) = ui_prover h"
  by (simp_all add: reset_ui_def)

lemma set_status_eq [simp]: "set_status st h = (h\<lparr>ui_status := st\<rparr>, Inr ())"
  by (simp add: set_status_def eff_defs)

lemma with_wallet_Some [simp]:
  "ui_wallet h = Some w \<Longrightarrow> with_wallet m h = (h\<lparr>ui_wallet := Some (fst (m w))\<rparr>, snd (m w))"
  by (simp add: with_wallet_def split: prod.split)

lemma finish_eq [simp]:
  "finish nt sig h = (h\<lparr>ui_note := (case nt of None \<Rightarrow> ui_note h | Some x \<Rightarrow> Some x), ui_txSignature := Some sig,
     ui_status := Done\<rparr>, Inr ())"
  by (simp add: finish_def eff_defs)

lemma eff_lift_bind [simp]:
  "eff_bind (eff_lift (Inr x)) f h = f x h" "eff_bind (eff_lift (Inl e)) f h = (h, Inl e)"
  by (simp_all add: eff_bind_def eff_lift_def)

lemma send_confirmed_frame:
  assumes "send_confirmed env u ix h = (h', res)"
  shows "ui_wallet h' = ui_wallet h" "res = Inr sig \<Longrightarrow> hk_send env [hk_limit env u, ix] = Inr sig"
  using assms by (auto simp: send_confirmed_def eff_bind_def eff_defs split: sum.splits)

text \<open>A callback of a connected, initialised hook ends with its body's result or in the error state.\<close>

lemma guarded_ready:
  assumes "ui_publicKey h = Some pk" "ui_wallet h = Some w" "need \<longrightarrow> ui_prover h"
  shows "guarded msg need fb d body h =
    (case body pk (reset_ui h) of
       (h', Inr x) \<Rightarrow> (h', Inr x)
     | (h', Inl e) \<Rightarrow> (h'\<lparr>ui_error := Some (describeError msg e fb), ui_status := Errored\<rparr>, Inr d))"
proof -
  have "\<not> (ui_wallet h = None \<or> (need \<and> \<not> ui_prover h))"
    using assms by auto
  then show ?thesis
    by (simp only: guarded_def assms(1) option.case if_False)
qed

section \<open>Transfers\<close>

lemma submit_and_spend_ends:
  assumes "ui_wallet h = Some w" "submit_and_spend env ins ix k h = (h', res)"
  shows "(\<exists>e. res = Inl e \<and> ui_wallet h' = Some w) \<or>
    (\<exists>i sig h1. ix = Inr i \<and> hk_send env [hk_limit env 400000, i] = Inr sig
       \<and> ui_wallet h1 = Some (markSpent ins w) \<and> k sig h1 = (h', res))"
proof (cases ix)
  case (Inl e)
  then show ?thesis using assms by (auto simp: submit_and_spend_def)
next
  case (Inr i)
  obtain h1 r1 where s: "send_confirmed env 400000 i h = (h1, r1)" by fastforce
  note frame = send_confirmed_frame [OF s]
  show ?thesis
  proof (cases r1)
    case (Inl e)
    then show ?thesis using assms s frame(1) \<open>ix = Inr i\<close> by (auto simp: submit_and_spend_def)
  next
    case (Inr sig)
    then show ?thesis
      using assms s frame \<open>ix = Inr i\<close> by (auto simp: submit_and_spend_def eff_defs)
  qed
qed


section \<open>Bridge transfers\<close>

lemma app_lock_ix_data:
  "app_lock_ix env cfg self cm dest = Inr ix \<Longrightarrow> drop 8 (ix_data ix) = buffer_from_hex cm @ [word_of_int dest]"
  by (auto simp: app_lock_ix_def bind_result_Inr_iff)

text \<open>
  A bridge transfer that returns has spent all selected inputs but told the bridge of one only:
  the lock instruction carries the commitment of the first input and the low byte of the chain
  number, while the balance falls by the value of all inputs and the change that was prepared is
  not added to the wallet.
\<close>

theorem bridge_transfer_locks_one_input:
  assumes "ui_publicKey h = Some self" "ui_wallet h = Some w" "distinct_commitments w"
    and "prepareWithdraw (hk_poseidon env) now r amount 0 w = (w1, Inr (ins, outs))"
    and "ui_bridgeTransfer env now r chain dest (Inr amount) h = (h', Inr (Some sig))"
  shows "\<exists>ix. hk_send env [hk_limit env 400000, ix] = Inr sig
    \<and> drop 8 (ix_data ix) = buffer_from_hex (commitment (hd ins)) @ [word_of_int dest]
    \<and> ui_wallet h' = Some (markSpent ins w1) \<and> balance (markSpent ins w1) = balance w - sum_list (map noteValue ins)"
proof -
  note prep = prepareWithdraw_reserved [OF assms(4)]
  have spent: "balance (markSpent ins w1) = balance w - sum_list (map noteValue ins)"
    using reserved_ends [OF prep [THEN conjunct1] prep [THEN conjunct2] assms(3)] by blast
  let ?h1 = "(reset_ui h)\<lparr>ui_wallet := Some w1, ui_status := Sending\<rparr>"
  let ?cm = "case ins of [] \<Rightarrow> '''' | n # _ \<Rightarrow> commitment n"
  let ?ix = "app_lock_ix env (newHolancBridge (hk_web3 env) None None (Some chain) None) self ?cm dest"
  let ?k = "(\<lambda>sig. eff_bind (finish None sig) (\<lambda>_. eff_return (Some sig))) :: string \<Rightarrow> (Hook, string option) effect"
  obtain h2 r2 where s: "submit_and_spend env ins ?ix ?k ?h1 = (h2, r2)" by fastforce
  have cm: "?cm \<noteq> ''''"
    using assms by (auto simp: ui_bridgeTransfer_def guarded_ready Let_def eff_lift_def)
  then have "r2 = Inr (Some sig)" "h' = h2"
    using assms s by (auto simp: ui_bridgeTransfer_def guarded_ready Let_def split: sum.splits)
  moreover have "ui_wallet ?h1 = Some w1" by simp
  ultimately obtain i sg h1 where i: "?ix = Inr i" "hk_send env [hk_limit env 400000, i] = Inr sg"
    "ui_wallet h1 = Some (markSpent ins w1)" "?k sg h1 = (h', Inr (Some sig))"
    using submit_and_spend_ends [OF _ s] by auto
  then have "sg = sig" "ui_wallet h' = Some (markSpent ins w1)"
    by (auto simp: eff_bind_def eff_defs)
  moreover have "?cm = commitment (hd ins)"
    using cm by (cases ins) simp_all
  ultimately show ?thesis
    using i spent app_lock_ix_data [OF i(1)] by auto
qed

section \<open>Disclosure\<close>

lemma char_of_utf8 [simp]: "map (\<lambda>b. char_of (unat b)) (utf8 s) = s"
proof -
  have "char_of (unat (of_char c :: byte)) = c" for c
  proof -
    have "(of_char c :: byte) = of_nat (of_char c)"
      by (simp only: of_nat_of_char)
    then show ?thesis
      by (simp only: unat_of_nat_byte of_char_mod_256 char_of_char)
  qed
  then show ?thesis
    by (simp add: utf8_def comp_def)
qed

text \<open>
  Disclosing to an oracle publishes the spending key: whenever the callback returns a signature,
  the transaction it had sent carries, in clear, the hexadecimal text of the wallet's spending key,
  from which the key is read back by dropping twelve bytes and the last one.
\<close>

lemma disclosure_publishes_spending_key:
  assumes "ui_publicKey h = Some self" "ui_wallet h = Some w"
    and "ui_disclose env oracleAddress h = (h', Inr (Some sig))"
  shows "\<exists>ix. hk_send env [hk_limit env 200000, ix] = Inr sig
    \<and> buffer_from_hex (map (\<lambda>b. char_of (unat b)) (butlast (drop 12 (ix_data ix)))) = spendingKey w"
proof -
  obtain orc where orc: "hk_key env oracleAddress = Inr orc"
    using assms by (cases "hk_key env oracleAddress") (auto simp: ui_disclose_def guarded_ready)
  let ?cfg = "newHolancCompliance (hk_web3 env) (HK_COMPLIANCE env) None None"
  obtain ix where ix: "app_disclose_ix env ?cfg self orc (utf8 (spendingKeyHex w)) = Inr ix"
    using assms orc
    by (cases "app_disclose_ix env ?cfg self orc (utf8 (spendingKeyHex w))")
      (auto simp: ui_disclose_def guarded_ready)
  obtain h2 r2 where s: "send_confirmed env 200000 ix ((reset_ui h)\<lparr>ui_wallet := Some w, ui_status := Sending\<rparr>) = (h2, r2)"
    by fastforce
  then have "r2 = Inr sig"
    using assms orc ix by (cases r2) (auto simp: ui_disclose_def guarded_ready eff_defs)
  then have sent: "hk_send env [hk_limit env 200000, ix] = Inr sig"
    using send_confirmed_frame(2) [OF s] by simp
  obtain keyLenBuf where "ix_data ix = [0x8f, 0x3c, 0xe7, 0x54, 0x19, 0xab, 0x62, 0xd8] @ keyLenBuf
      @ utf8 (spendingKeyHex w) @ [0]" "length keyLenBuf = 4"
    using ix by (auto simp: app_disclose_ix_def bind_result_Inr_iff u32_buf_def throw_if_none_def write_u32_le_def
        split: option.splits if_splits)
  then have "butlast (drop 12 (ix_data ix)) = utf8 (spendingKeyHex w)"
    by (simp add: butlast_append)
  then show ?thesis
    using sent by (auto simp: spendingKeyHex_def codec_simps)
qed

section \<open>Stealth payments\<close>

text \<open>
  A stealth payment is not a payment: when the callback returns, the deposit it sent commits to a
  note of the sender's own wallet, the sender's balance has grown by the amount, and the recipient's
  one-time owner appears nowhere in the note; only the ephemeral key is sent along.
\<close>

theorem stealth_payment_stays_with_sender:
  assumes "ui_publicKey h = Some self" "ui_wallet h = Some w"
    and "ui_stealthSend env now drawn metaAddress (Inr amount) h = (h', Inr (Some result))"
  shows "\<exists>w' n ix sig. ui_wallet h' = Some w' \<and> wnotes w' = wnotes w @ [n] \<and> owner n = spendingKeyHex w
    \<and> noteValue n = amount \<and> computeCommitment (hk_poseidon env) n = Inr (commitment n)
    \<and> balance w' = balance w + amount
    \<and> app_deposit_ix env amount (commitment n)
        (buffer_from_hex (fst (ephemeralPubkey result) @ snd (ephemeralPubkey result))) = Inr ix
    \<and> hk_send env [hk_limit env 400000, ix] = Inr sig"
proof -
  obtain meta where meta: "parse_meta metaAddress = Inr meta"
    using assms by (cases "parse_meta metaAddress") (auto simp: ui_stealthSend_def guarded_ready)
  obtain r where r: "stealthSend (hk_curve env) drawn meta = Inr r"
    using assms meta by (cases "stealthSend (hk_curve env) drawn meta") (auto simp: ui_stealthSend_def guarded_ready)
  obtain w1 res where dep: "createDepositNote (hk_poseidon env) now amount w = (w1, res)" by fastforce
  obtain n where n: "res = Inr n"
    using assms meta r dep by (cases res) (auto simp: ui_stealthSend_def guarded_ready)
  note note_facts = createDepositNote_cases [OF dep [unfolded n]]
  let ?memo = "buffer_from_hex (fst (ephemeralPubkey r) @ snd (ephemeralPubkey r))"
  obtain ix where ix: "app_deposit_ix env amount (commitment n) ?memo = Inr ix"
    using assms meta r dep n by (cases "app_deposit_ix env amount (commitment n) ?memo") (auto simp: ui_stealthSend_def guarded_ready)
  obtain h2 r2 where s: "send_confirmed env 400000 ix ((reset_ui h)\<lparr>ui_wallet := Some w1, ui_status := Sending\<rparr>) = (h2, r2)"
    by fastforce
  obtain sig where sig: "r2 = Inr sig"
    using assms meta r dep n ix s by (cases r2) (auto simp: ui_stealthSend_def guarded_ready)
  have end_state: "ui_wallet h' = ui_wallet h2" "result = r"
    using assms meta r dep n ix s sig by (auto simp: ui_stealthSend_def guarded_ready eff_defs)
  have "computeCommitment (hk_poseidon env) n = Inr (commitment n)"
    by (rule createDepositNote_form [OF dep [unfolded n]]) simp
  moreover have "balance w1 = balance w + amount"
    using note_facts by (simp add: balance_def)
  moreover have "hk_send env [hk_limit env 400000, ix] = Inr sig" "ui_wallet h2 = Some w1"
    using send_confirmed_frame [OF s] sig by simp_all
  ultimately show ?thesis
    using note_facts ix end_state by auto
qed

section \<open>A hook to evaluate the properties on\<close>

definition sample_web3 :: bridge_env where
  "sample_web3 = \<lparr>find_pda = sample_pda, account_info = (\<lambda>_. Inr None), send_tx = (\<lambda>_ _. Inr ''sig''),
     DEFAULT_BRIDGE_ID = replicate 32 4, DEFAULT_KEY = replicate 32 0, SYSTEM_PROGRAM = replicate 32 0\<rparr>"

definition sample_hook_env :: "byte hook_env" where
  "sample_hook_env =
     \<lparr>hk_poseidon = sample_hash, hk_prove = (\<lambda>input wasm zkey. Inr (sample_proof 0)), hk_curve = byte_curve,
      hk_web3 = sample_web3, hk_limit = (\<lambda>u. \<lparr>programId = [], ix_keys = [], ix_data = []\<rparr>),
      hk_key = (\<lambda>s. Inr (replicate 32 6)), hk_send = (\<lambda>ixs. Inr ''sig''), hk_confirm = (\<lambda>s. Inr ()),
      hk_message = (\<lambda>e. ''''), HK_POOL = replicate 32 1, HK_BRIDGE = replicate 32 4, HK_COMPLIANCE = replicate 32 8\<rparr>"

definition sample_hook :: Hook where
  "sample_hook = \<lparr>ui_status = Idle, ui_error = None, ui_txSignature = None, ui_note = None,
     ui_publicKey = Some (replicate 32 7), ui_wallet = Some sample_wallet, ui_prover = True\<rparr>"

lemma sample_hook_ready [simp]:
  "ui_publicKey sample_hook = Some (replicate 32 7)" "ui_wallet sample_hook = Some sample_wallet" "ui_prover sample_hook"
  by (simp_all add: sample_hook_def)


lemma sample_pda_short: "\<forall>s \<in> set seeds. length s \<le> 32 \<Longrightarrow> sample_pda seeds prog = Inr (replicate 32 9)"
  by (auto simp: sample_pda_def list_ex_iff)

lemma sample_confirmed: "\<exists>h2. send_confirmed sample_hook_env u ix h = (h2, Inr ''sig'') \<and> ui_wallet h2 = ui_wallet h"
  by (simp add: send_confirmed_def sample_hook_env_def eff_bind_def eff_defs)

lemma disclosure_publishes_spending_key_witness:
  "\<exists>h' (ix :: instruction). ui_disclose sample_hook_env ''orc'' sample_hook = (h', Inr (Some ''sig''))
     \<and> buffer_from_hex (map (\<lambda>b. char_of (unat b)) (butlast (drop 12 (ix_data ix)))) = [1]"
proof -
  have key: "spendingKey sample_wallet = [1]" "length (utf8 (spendingKeyHex sample_wallet)) = 2"
    by (simp_all add: sample_wallet_def newWallet_def utf8_def spendingKeyHex_def buffer_to_hex_def byte_hex_def)
  have "\<exists>ix. app_disclose_ix sample_hook_env (newHolancCompliance sample_web3 (replicate 32 8) None None) (replicate 32 7)
      (replicate 32 6) (utf8 (spendingKeyHex sample_wallet)) = Inr ix"
    using key(2) by (simp add: app_disclose_ix_def app_pool_def getCompliancePda_def getOraclePda_def getDisclosurePda_def
        sample_hook_env_def sample_web3_def sample_pda_short utf8_def u32_buf_def throw_if_none_def write_u32_le_def)
  then obtain ix where ix: "app_disclose_ix sample_hook_env (newHolancCompliance sample_web3 (replicate 32 8) None None)
      (replicate 32 7) (replicate 32 6) (utf8 (spendingKeyHex sample_wallet)) = Inr ix" by blast
  obtain h2 where h2: "send_confirmed sample_hook_env 200000 ix
      ((reset_ui sample_hook)\<lparr>ui_wallet := Some sample_wallet, ui_status := Sending\<rparr>) = (h2, Inr ''sig'')"
    using sample_confirmed by blast
  have env: "hk_web3 sample_hook_env = sample_web3" "HK_COMPLIANCE sample_hook_env = replicate 32 8"
    "hk_key sample_hook_env s = Inr (replicate 32 6)" for s
    by (simp_all add: sample_hook_env_def)
  have "\<exists>h'. ui_disclose sample_hook_env ''orc'' sample_hook = (h', Inr (Some ''sig''))"
    using ix h2 by (simp add: ui_disclose_def guarded_ready env eff_defs)
  then obtain h' where run: "ui_disclose sample_hook_env ''orc'' sample_hook = (h', Inr (Some ''sig''))" by blast
  from disclosure_publishes_spending_key [OF sample_hook_ready(1,2) this] run show ?thesis
    by (auto simp: key(1))
qed

lemma bridge_transfer_locks_one_input_witness:
  "\<exists>w1 ins outs h'. prepareWithdraw sample_hash 0 0 10 0 sample_wallet = (w1, Inr (ins, outs))
     \<and> ui_bridgeTransfer sample_hook_env 0 0 Solana 2 (Inr 10) sample_hook = (h', Inr (Some ''sig''))
     \<and> ui_wallet h' = Some (markSpent ins w1)"
proof -
  obtain w1 ins outs where p: "prepareWithdraw (hk_poseidon sample_hook_env) 0 0 10 0 sample_wallet = (w1, Inr (ins, outs))"
    using prepareWithdraw_returns [of sample_wallet 10 0 "[0, 1]" sample_hash 0 0] sample_wallet_covers
    by (auto simp: sample_hook_env_def covers_def)
  have cm: "length (buffer_from_hex (commitment (hd ins))) \<le> 32 \<and> commitment (hd ins) \<noteq> [] \<and> ins \<noteq> []"
    using p
  proof (rule prepareWithdraw_cases)
    fix ix
    assume cov: "covers sample_wallet (10 + 0) ix" and ins: "ins = map (\<lambda>i. wnotes (lockNotes ix sample_wallet) ! i) ix"
    then obtain i js where i: "ix = i # js" "i < 2"
      by (cases ix) (auto simp: covers_def note_sum_def sample_wallet_def newWallet_def)
    then have "hd ins = (wnotes sample_wallet ! i)\<lparr>pending := Some True\<rparr>"
      using ins by (simp add: nth_lockNotes sample_wallet_def newWallet_def)
    moreover have "commitment (wnotes sample_wallet ! i) \<in> {''0a'', ''0b''}"
      using i(2) by (auto simp: sample_wallet_def newWallet_def sample_note_def less_2_cases_iff)
    moreover have "length (buffer_from_hex ''0a'') \<le> 32" "length (buffer_from_hex ''0b'') \<le> 32"
      by code_simp+
    ultimately show ?thesis
      using ins i by auto
  qed
  let ?cm = "case ins of [] \<Rightarrow> '''' | n # _ \<Rightarrow> commitment n"
  let ?cfg = "newHolancBridge sample_web3 None None (Some Solana) None"
  have case_cm: "?cm = commitment (hd ins)"
    using cm by (cases ins) auto
  have env: "hk_web3 sample_hook_env = sample_web3"
    by (simp add: sample_hook_env_def)
  have "\<exists>ix. app_lock_ix sample_hook_env ?cfg (replicate 32 7) ?cm 2 = Inr ix"
    using cm unfolding case_cm by (simp add: app_lock_ix_def app_pool_def getBridgePda_def getCommitmentLockPda_def
        sample_hook_env_def sample_web3_def sample_pda_short utf8_def)
  then obtain ix where ix: "app_lock_ix sample_hook_env ?cfg (replicate 32 7) ?cm 2 = Inr ix" by blast
  let ?h = "(reset_ui sample_hook)\<lparr>ui_wallet := Some w1, ui_status := Sending\<rparr>"
  obtain h2 where h2: "send_confirmed sample_hook_env 400000 ix ?h = (h2, Inr ''sig'')" "ui_wallet h2 = Some w1"
    using sample_confirmed [of 400000 ix ?h] by auto
  have "?cm \<noteq> ''''" using cm case_cm by simp
  then have "\<exists>h'. ui_bridgeTransfer sample_hook_env 0 0 Solana 2 (Inr 10) sample_hook = (h', Inr (Some ''sig''))"
    using p ix h2 by (simp add: ui_bridgeTransfer_def guarded_ready submit_and_spend_def env eff_defs Let_def)
  then obtain h' where run: "ui_bridgeTransfer sample_hook_env 0 0 Solana 2 (Inr 10) sample_hook = (h', Inr (Some ''sig''))"
    by blast
  from bridge_transfer_locks_one_input [OF sample_hook_ready(1,2) sample_wallet_distinct p run] run p show ?thesis
    by (auto simp: sample_hook_env_def)
qed

lemma length_buffer_from_hex: "length (buffer_from_hex s) \<le> length s"
  by (induction s rule: buffer_from_hex.induct) (auto intro: le_SucI split: option.splits)

lemma stealth_payment_stays_with_sender_witness:
  "\<exists>h' r w'. ui_stealthSend sample_hook_env 0 (replicate 32 9)
       (replicate 64 (CHR ''1'') @ '':'' @ replicate 64 (CHR ''2'') @ '':'' @ replicate 64 (CHR ''3'')) (Inr 4) sample_hook
       = (h', Inr (Some r))
     \<and> ui_wallet h' = Some w' \<and> balance w' = balance sample_wallet + 4"
proof -
  let ?a = "replicate 64 (CHR ''1'')" and ?b = "replicate 64 (CHR ''2'')" and ?c = "replicate 64 (CHR ''3'')"
  let ?m = "?a @ '':'' @ ?b @ '':'' @ ?c"
  have "split_on (CHR '':'') ?m = [?a, ?b, ?c]"
    using split_on_append [of "CHR '':''" ?a "?b @ '':'' @ ?c"] split_on_append [of "CHR '':''" ?b ?c]
      split_on_none [of "CHR '':''" ?c] by simp
  then have meta: "parse_meta ?m = Inr \<lparr>spendingPubkey = ?a, viewingPubkey = (?b, ?c)\<rparr>"
    by (simp add: parse_meta_def)
  have read: "\<exists>v. hexToFieldBjj byte_curve (replicate 64 (hex_digit d)) = Inr v" if "d < 16" for d
  proof -
    have "read_digits 16 (map hex_digit (replicate 64 d)) = Some (replicate 64 d)"
      using that by (intro read_digits_map) auto
    then show ?thesis
      using bigint_of_0x [of "replicate 64 (hex_digit d)"] by (simp add: hexToFieldBjj_def bigint_of_hex_def)
  qed
  have digits: "CHR ''1'' = hex_digit 1" "CHR ''2'' = hex_digit 2" "CHR ''3'' = hex_digit 3"
    by (simp_all add: hex_digit_def)
  obtain e where "scalar_of_bytes byte_curve (replicate 32 9) = Inr e"
    using scalar_returns [of "replicate 32 9"] by auto
  then obtain r where r: "stealthSend byte_curve (replicate 32 9) \<lparr>spendingPubkey = ?a, viewingPubkey = (?b, ?c)\<rparr> = Inr r"
    using read [of 1] read [of 2] read [of 3] unfolding digits by (auto simp: stealthSend_def Let_def)
  obtain w1 n where dep: "createDepositNote sample_hash 0 4 sample_wallet = (w1, Inr n)"
    using createDepositNote_returns [of sample_wallet sample_hash 0 4] field_hash_sample
    by (auto simp: sample_wallet_def newWallet_def)
  let ?memo = "buffer_from_hex (fst (ephemeralPubkey r) @ snd (ephemeralPubkey r))"
  have "length (field_hex byte_curve x) = 64" for x
    using byte_curve_ok by (simp add: field_hex_eq length_fieldToHex curve_ok_def)
  then have "length (fst (ephemeralPubkey r)) = 64 \<and> length (snd (ephemeralPubkey r)) = 64"
    using r by (auto simp: stealthSend_def Let_def bind_result_Inr_iff)
  then have memo: "length ?memo < 2 ^ 32"
    using length_buffer_from_hex [of "fst (ephemeralPubkey r) @ snd (ephemeralPubkey r)"] by simp
  have "\<exists>ix. app_deposit_ix sample_hook_env 4 (commitment n) ?memo = Inr ix"
    using memo by (simp add: app_deposit_ix_def app_pool_def sample_hook_env_def sample_web3_def sample_pda_short utf8_def
        u64_buf_Inr u32_buf_length)
  then obtain ix where ix: "app_deposit_ix sample_hook_env 4 (commitment n) ?memo = Inr ix" by blast
  let ?h = "(reset_ui sample_hook)\<lparr>ui_wallet := Some w1, ui_status := Sending\<rparr>"
  obtain h2 where h2: "send_confirmed sample_hook_env 400000 ix ?h = (h2, Inr ''sig'')"
    using sample_confirmed [of 400000 ix ?h] by auto
  have env: "hk_poseidon sample_hook_env = sample_hash" "hk_curve sample_hook_env = byte_curve"
    by (simp_all add: sample_hook_env_def)
  have "\<exists>h'. ui_stealthSend sample_hook_env 0 (replicate 32 9) ?m (Inr 4) sample_hook = (h', Inr (Some r))"
    using meta r dep ix h2 by (simp add: ui_stealthSend_def guarded_ready env eff_defs)
  then obtain h' where run: "ui_stealthSend sample_hook_env 0 (replicate 32 9) ?m (Inr 4) sample_hook = (h', Inr (Some r))"
    by blast
  from stealth_payment_stays_with_sender [OF sample_hook_ready(1,2) run] run show ?thesis
    by blast
qed

end
