(* ===== verification/App_Evm.thy ===== *)
theory App_Evm
  imports App_Flows Sdk_Adapters
begin

text \<open>
  app/src/hooks/useEvmHolanc.ts: the same callbacks on an EVM chain. The state is the hook's state with
  the chain behind the adapter; the adapter is absent until a wallet client is connected. A human
  amount is the outcome of \<open>BigInt(Math.round(x * 1e18))\<close>.
\<close>

section \<open>State\<close>

type_synonym 'm evm_app = "Hook \<times> 'm"

text \<open>What the hook gets from wagmi and the configuration: the connection flag, the adapter, the token.\<close>

record ('f, 'm) evm_hook_env =
  eh_poseidon :: "int list \<Rightarrow> int"
  eh_prove :: full_prove
  eh_curve :: "'f curve"
  eh_message :: "js_error \<Rightarrow> string"
  eh_connected :: bool
  eh_chain :: "'m evm_chain"
  eh_adapter :: "EvmAdapterConfig option"
  eh_token :: string

definition describeErrorEvm :: "(js_error \<Rightarrow> string) \<Rightarrow> js_error \<Rightarrow> string \<Rightarrow> string" where
  "describeErrorEvm message e fallback =
     (let m = message e in
      if text_includes m ''User rejected'' \<or> text_includes m ''user rejected'' then ''Transaction rejected by wallet''
      else if text_includes m ''insufficient'' then m
      else if m = [] then fallback else m)"

text \<open>The second effect of the hook: an adapter for a connected wallet client and a configured pool.\<close>

definition init_adapter :: "bool \<Rightarrow> ChainConfig \<Rightarrow> EvmAdapterConfig option" where
  "init_adapter walletClient cfg =
     (if \<not> walletClient \<or> cc_pool cfg = [] then None
      else Some \<lparr>ec_rpcUrl = cc_rpcUrl cfg, ec_poolAddress = cc_pool cfg, ec_verifierAddress = cc_verifier cfg,
                 ec_nullifierAddress = cc_nullifier cfg, skipApproval = False\<rparr>)"

definition on_hook :: "(Hook, 'a) effect \<Rightarrow> ('m evm_app, 'a) effect" where
  "on_hook m s = (case m (fst s) of (h, res) \<Rightarrow> ((h, snd s), res))"

definition on_chain :: "('m, 'a) effect \<Rightarrow> ('m evm_app, 'a) effect" where
  "on_chain m s = (case m (snd s) of (c, res) \<Rightarrow> ((fst s, c), res))"

definition evm_guarded :: "('f, 'm) evm_hook_env \<Rightarrow> bool \<Rightarrow> string \<Rightarrow> 'a \<Rightarrow>
    (EvmAdapterConfig \<Rightarrow> ('m evm_app, 'a) effect) \<Rightarrow> ('m evm_app, 'a) effect" where
  "evm_guarded env need_prover fallback dflt body s =
     (if \<not> eh_connected env then (s, Inl (Error ''Wallet not connected''))
      else (case eh_adapter env of
              None \<Rightarrow> (s, Inl (Error ''SDK not ready''))
            | Some cfg \<Rightarrow>
                if ui_wallet (fst s) = None \<or> (need_prover \<and> \<not> ui_prover (fst s)) then (s, Inl (Error ''SDK not ready''))
                else (case body cfg (reset_ui (fst s), snd s) of
                        (s', Inr x) \<Rightarrow> (s', Inr x)
                      | ((h', c'), Inl e) \<Rightarrow>
                          ((h'\<lparr>ui_error := Some (describeErrorEvm (eh_message env) e fallback), ui_status := Errored\<rparr>, c'),
                           Inr dflt))))"

section \<open>Callbacks\<close>

text \<open>A template text of a value that may be undefined.\<close>

definition prefixed :: "string option \<Rightarrow> string" where
  "prefixed x = ''0x'' @ (case x of None \<Rightarrow> ''undefined'' | Some s \<Rightarrow> s)"

definition evm_ui_deposit :: "('f, 'm) evm_hook_env \<Rightarrow> int \<Rightarrow> js_error + int \<Rightarrow> ('m evm_app, unit) effect" where
  "evm_ui_deposit env now wei =
     evm_guarded env True ''Deposit failed'' () (\<lambda>cfg.
     eff_bind (eff_lift wei) (\<lambda>amount.
     eff_bind (on_hook (set_status Generating)) (\<lambda>_.
     eff_bind (on_hook (with_wallet (createDepositNote (eh_poseidon env) now amount))) (\<lambda>n.
     eff_bind (eff_lift (computeCommitment (eh_poseidon env) n)) (\<lambda>cm.
     eff_bind (eff_lift (proveDeposit (eh_prove env) circuit_dir (owner n) (noteValue n) (assetId n) (blinding n))) (\<lambda>_.
     eff_bind (on_hook (set_status Sending)) (\<lambda>_.
     eff_bind (on_chain (evm_deposit (eh_chain env) cfg
         \<lparr>dp_amount = amount, dp_commitment = ''0x'' @ cm, dp_encryptedNote = [], dp_tokenAddress = eh_token env\<rparr>)) (\<lambda>res.
       on_hook (finish (Some (dr_commitment res)) (dr_txSignature res))))))))))"

definition evm_ui_transfer :: "('f, 'm) evm_hook_env \<Rightarrow> int \<Rightarrow> 32 word \<Rightarrow> string \<Rightarrow> js_error + int \<Rightarrow>
    ('m evm_app, unit) effect" where
  "evm_ui_transfer env now r recipientPubkey wei =
     evm_guarded env True ''Transfer failed'' () (\<lambda>cfg.
     eff_bind (eff_lift wei) (\<lambda>amount.
     eff_bind (on_hook (set_status Generating)) (\<lambda>_.
     eff_bind (on_hook (with_wallet (prepareTransfer (eh_poseidon env) now r recipientPubkey amount 0))) (\<lambda>(ins, outs).
     eff_bind (on_hook (with_wallet (\<lambda>w. (w, proveTransfer (eh_prove env) circuit_dir
         \<lparr>tp_spendingKey = spendingKeyHex w, inputNotes = ins, outputNotes = outs, tp_fee = 0,
          merklePathElements = None, merklePathIndices = None\<rparr>)))) (\<lambda>proof.
     eff_bind (on_hook (set_status Sending)) (\<lambda>_.
     (let sg = (\<lambda>k. prefixed (signal (publicSignals proof) k)) in
      eff_bind (on_chain (evm_transfer (eh_chain env) cfg
         \<lparr>tf_amount = amount, tf_merkleRoot = sg 0, tf_nullifiers = [sg 1, sg 2], tf_outputCommitments = [sg 3, sg 4],
          tf_fee = 0, tf_encryptedNotes = [[], []], tf_proof = pr_proof proof\<rparr>)) (\<lambda>res.
      eff_bind (on_hook (with_wallet (eff_modify (markSpent ins)))) (\<lambda>_.
        on_hook (finish (signal (publicSignals proof) 3) (tr_txSignature res)))))))))))"

definition evm_ui_withdraw :: "('f, 'm) evm_hook_env \<Rightarrow> int \<Rightarrow> 32 word \<Rightarrow> string \<Rightarrow> js_error + int \<Rightarrow>
    ('m evm_app, unit) effect" where
  "evm_ui_withdraw env now r recipientAddress wei =
     evm_guarded env True ''Withdrawal failed'' () (\<lambda>cfg.
     eff_bind (eff_lift wei) (\<lambda>amount.
     eff_bind (on_hook (set_status Generating)) (\<lambda>_.
     eff_bind (on_hook (with_wallet (prepareWithdraw (eh_poseidon env) now r amount 0))) (\<lambda>(ins, outs).
     eff_bind (on_hook (with_wallet (\<lambda>w. (w, proveWithdraw (eh_prove env) circuit_dir
         \<lparr>wp_spendingKey = spendingKeyHex w, wp_inputNotes = ins, wp_outputNotes = outs,
          wp_exitValue = amount, wp_fee = 0\<rparr>)))) (\<lambda>proof.
     eff_bind (on_hook (set_status Sending)) (\<lambda>_.
     (let sg = (\<lambda>k. prefixed (signal (publicSignals proof) k)) in
      eff_bind (on_chain (evm_withdraw (eh_chain env) cfg
         \<lparr>wd_merkleRoot = sg 0, wd_nullifiers = [sg 1, sg 2], wd_outputCommitments = [sg 3, sg 4],
          wd_exitAmount = amount, wd_fee = 0, wd_recipientAddress = recipientAddress,
          wd_encryptedNotes = [[], []], wd_proof = pr_proof proof\<rparr>)) (\<lambda>res.
      eff_bind (on_hook (with_wallet (eff_modify (markSpent ins)))) (\<lambda>_.
        on_hook (finish None (wr_txSignature res)))))))))))"

definition evm_ui_stealthSend :: "('f, 'm) evm_hook_env \<Rightarrow> int \<Rightarrow> byte list \<Rightarrow> string \<Rightarrow> js_error + int \<Rightarrow>
    ('m evm_app, StealthSendResult option) effect" where
  "evm_ui_stealthSend env now drawn metaAddress wei =
     evm_guarded env False ''Stealth send failed'' None (\<lambda>cfg.
     eff_bind (on_hook (set_status Generating)) (\<lambda>_.
     eff_bind (eff_lift (parse_meta metaAddress)) (\<lambda>meta.
     eff_bind (eff_lift (stealthSend (eh_curve env) drawn meta)) (\<lambda>result.
     eff_bind (eff_lift wei) (\<lambda>amount.
     eff_bind (on_hook (with_wallet (createDepositNote (eh_poseidon env) now amount))) (\<lambda>n.
     eff_bind (eff_lift (computeCommitment (eh_poseidon env) n)) (\<lambda>cm.
     eff_bind (on_hook (set_status Sending)) (\<lambda>_.
     eff_bind (on_chain (evm_deposit (eh_chain env) cfg
         \<lparr>dp_amount = amount, dp_commitment = ''0x'' @ cm,
          dp_encryptedNote = utf8 (fst (ephemeralPubkey result) @ '':'' @ snd (ephemeralPubkey result)),
          dp_tokenAddress = eh_token env\<rparr>)) (\<lambda>res.
     eff_bind (on_hook (finish (Some (stealthOwner result)) (dr_txSignature res))) (\<lambda>_.
       eff_return (Some result)))))))))))"

text \<open>
  \<open>new TextDecoder().decode\<close> drops a leading byte order mark; a part with a character above U+00FF is no
  hexadecimal text, so that the BigInt constructor throws on it.
\<close>

definition decode_text :: "byte list \<Rightarrow> nat list" where
  "decode_text bs = (case utf8_text bs of c # cs \<Rightarrow> if c = 0xFEFF then cs else c # cs | [] \<Rightarrow> [])"

definition chars_of :: "nat list \<Rightarrow> js_error + string" where
  "chars_of cs = (if list_all (\<lambda>c. c < 256) cs then Inr (map char_of cs) else Inl SyntaxError)"

definition scan_event :: "'f curve \<Rightarrow> string \<Rightarrow> CommitmentEvent \<Rightarrow> js_error + StealthScanResult list" where
  "scan_event C key ev =
     (case split_on (of_char (CHR '':'')) (decode_text (ev_encryptedNote ev)) of
        [x, y] \<Rightarrow>
          (if js_length x = 64 \<and> js_length y = 64 then
             bind_result (chars_of x) (\<lambda>ex. bind_result (chars_of y) (\<lambda>ey.
             bind_result (stealthScan C key key (ex, ey) (ev_commitment ev)) (\<lambda>res.
               Inr (if isOurs res then [res] else []))))
           else Inr [])
      | _ \<Rightarrow> Inr [])"

definition evm_ui_stealthScan :: "('f, 'm) evm_hook_env \<Rightarrow> ('m evm_app, StealthScanResult list) effect" where
  "evm_ui_stealthScan env =
     evm_guarded env False ''Stealth scan failed'' [] (\<lambda>cfg.
     eff_bind (on_hook (set_status Generating)) (\<lambda>_.
     eff_bind (on_hook (with_wallet (\<lambda>w. (w, Inr (spendingKeyHex w))))) (\<lambda>key.
     eff_bind (on_chain (evm_getPoolStatus (eh_chain env) cfg)) (\<lambda>poolStatus.
     (let currentBlock = as_nextLeafIndex poolStatus; fromBlock = max 0 (currentBlock - 1000) in
      eff_bind (on_chain (evm_getCommitments (eh_chain env) cfg fromBlock currentBlock)) (\<lambda>events.
      eff_bind (eff_lift (map_result (scan_event (eh_curve env) key) events)) (\<lambda>rss.
      (let results = concat rss in
       eff_bind (on_hook (eff_modify (\<lambda>h. h\<lparr>ui_note := (if results = [] then None
          else Some (''Found '' @ nat_to_string 10 (length results) @ '' stealth payment(s)'')),
          ui_status := Done\<rparr>))) (\<lambda>_. eff_return results)))))))))"

text \<open>The three operations that EVM chains do not have yet.\<close>

definition evm_stub :: "string \<Rightarrow> (Hook, string option) effect" where
  "evm_stub message h = ((reset_ui h)\<lparr>ui_error := Some message, ui_status := Errored\<rparr>, Inr None)"

definition evm_ui_bridgeTransfer :: "(Hook, string option) effect" where
  "evm_ui_bridgeTransfer = evm_stub ''Cross-chain bridge is not yet available on EVM chains.''"

definition evm_ui_disclose :: "(Hook, string option) effect" where
  "evm_ui_disclose = evm_stub ''Compliance disclosure is not yet available on EVM chains.''"

definition evm_ui_wealthProof :: "(Hook, string option) effect" where
  "evm_ui_wealthProof = evm_stub ''Wealth proofs are not yet available on EVM chains.''"

section \<open>The stealth scan of the EVM hook\<close>

lemma stealthScan_length:
  assumes "curve_ok C" "length noteOwner \<noteq> 64" "stealthScan C viewKey spendPub eph noteOwner = Inr res"
  shows "\<not> isOurs res"
proof -
  have "length (field_hex C x) = 64" for x
    using assms(1) by (simp add: field_hex_eq length_fieldToHex curve_ok_def)
  then have "field_hex C x \<noteq> noteOwner" for x
    using assms(2) by metis
  then show ?thesis
    using assms(3) by (auto simp: stealthScan_def Let_def bind_result_Inr_iff split: option.splits if_splits)
qed

lemma scan_event_nothing:
  assumes "curve_ok C" "length (ev_commitment ev) \<noteq> 64" "scan_event C key ev = Inr rs"
  shows "rs = []"
  using assms stealthScan_length [OF assms(1,2)]
  by (auto simp: scan_event_def bind_result_Inr_iff split: list.splits if_splits)

lemma map_result_all:
  "map_result f xs = Inr ys \<Longrightarrow> \<forall>x \<in> set xs. \<forall>y. f x = Inr y \<longrightarrow> y = [] \<Longrightarrow> concat ys = []"
  by (induction xs arbitrary: ys) (auto simp: bind_result_Inr_iff)

lemma on_hook_on_chain [simp]:
  "on_hook m (h, c) = ((fst (m h), c), snd (m h))" "on_chain k (h, c) = ((h, fst (k c)), snd (k c))"
  by (simp_all add: on_hook_def on_chain_def split: prod.split)

lemma scan_events_nothing:
  assumes C: "curve_ok C"
    and logs: "\<And>pool a b m ls l. chain_logs ch pool a b m = Inr ls \<Longrightarrow> l \<in> set ls \<Longrightarrow> length (log_commitment l) = 66"
    and evs: "snd (evm_getCommitments ch cfg a b m) = Inr evs"
    and scan: "map_result (scan_event C key) evs = Inr rss"
  shows "concat rss = []"
proof (rule map_result_all [OF scan], intro ballI allI impI)
  fix ev y
  assume "ev \<in> set evs" "scan_event C key ev = Inr y"
  moreover from this evs have "length (ev_commitment ev) = 66"
    using logs by (auto simp: evm_getCommitments_def bind_result_Inr_iff)
  ultimately show "y = []"
    using scan_event_nothing [OF C, of ev key y] by simp
qed

lemma stealthScan_events:
  assumes "evm_ui_stealthScan env s = (s', Inr rs)" "rs \<noteq> []"
  obtains cfg a b m evs key rss where "snd (evm_getCommitments (eh_chain env) cfg a b m) = Inr evs"
    "map_result (scan_event (eh_curve env) key) evs = Inr rss" "rs = concat rss"
  using assms unfolding evm_ui_stealthScan_def evm_guarded_def eff_bind_def eff_defs Let_def
  by (fastforce split: if_splits option.splits sum.splits prod.splits simp del: concat_eq_Nil_conv Nil_eq_concat_conv)

text \<open>
  The stealth scan of the EVM hook finds nothing, whoever was paid: a commitment of the chain is
  \<open>0x\<close> and 64 digits, the one-time owner it is compared with is 64 digits, so every scan that returns
  returns no payment, for every wallet and every event.
\<close>

theorem evm_stealth_scan_finds_nothing:
  assumes "curve_ok (eh_curve env)"
    and "\<And>pool a b m ls l. chain_logs (eh_chain env) pool a b m = Inr ls \<Longrightarrow> l \<in> set ls \<Longrightarrow> length (log_commitment l) = 66"
    and "evm_ui_stealthScan env s = (s', Inr rs)"
  shows "rs = []"
proof (rule ccontr)
  assume some: "rs \<noteq> []"
  obtain cfg a b m evs key rss where "snd (evm_getCommitments (eh_chain env) cfg a b m) = Inr evs"
      "map_result (scan_event (eh_curve env) key) evs = Inr rss" and rs: "rs = concat rss"
    by (rule stealthScan_events [OF assms(3) some])
  then have "concat rss = []"
    using assms(2) by (intro scan_events_nothing [OF assms(1)])
  then show False
    using some rs by (elim notE) (rule trans)
qed

text \<open>A chain with one commitment, and a stealth payment announced with it.\<close>

definition one_log_chain :: "evm_log \<Rightarrow> unit evm_chain" where
  "one_log_chain l =
     \<lparr>signer_address = Inr ''0xme'', has_provider = True, token_allowance = (\<lambda>t a p m. Inr 0),
      send_call = (\<lambda>c m. (m, Inr ''0xh'')), wait_tx = (\<lambda>h m. (m, Inr None)), chain_root = (\<lambda>p m. Inr ''0x''),
      chain_nextLeaf = (\<lambda>p m. Inr 1), chain_deposited = (\<lambda>p m. Inr 4), chain_paused = (\<lambda>p m. Inr False),
      chain_epoch = (\<lambda>p m. Inr 0), chain_token = (\<lambda>p m. Inr ''0xt''), chain_spent = (\<lambda>p i n m. Inr False),
      chain_logs = (\<lambda>p a b m. Inr [l])\<rparr>"

definition sample_evm_env :: "evm_log \<Rightarrow> (byte, unit) evm_hook_env" where
  "sample_evm_env l =
     \<lparr>eh_poseidon = sample_hash, eh_prove = (\<lambda>input wasm zkey. Inr (sample_proof 0)), eh_curve = byte_curve,
      eh_message = (\<lambda>e. ''''), eh_connected = True, eh_chain = one_log_chain l,
      eh_adapter = Some \<lparr>ec_rpcUrl = '''', ec_poolAddress = ''0xp'', ec_verifierAddress = None,
                        ec_nullifierAddress = None, skipApproval = False\<rparr>,
      eh_token = ''0xt''\<rparr>"

text \<open>The announcement carries a well-formed one-time key, so the scan compares owners and finishes.\<close>

definition sample_log :: evm_log where
  "sample_log = \<lparr>log_leaf = 0, log_commitment = ''0x'' @ replicate 64 (CHR ''c''),
     log_data = utf8 (replicate 64 (CHR ''1'') @ '':'' @ replicate 64 (CHR ''2'')), log_txHash = ''0xh'', log_blockNumber = 1\<rparr>"

lemma evm_stealth_scan_finds_nothing_witness:
  "\<exists>s' rs. evm_ui_stealthScan (sample_evm_env sample_log) (sample_hook, ()) = (s', Inr rs) \<and> rs = []"
proof -
  obtain s' rs where run: "evm_ui_stealthScan (sample_evm_env sample_log) (sample_hook, ()) = (s', Inr rs)"
    by (cases "evm_ui_stealthScan (sample_evm_env sample_log) (sample_hook, ())")
      (auto simp: evm_ui_stealthScan_def evm_guarded_def sample_evm_env_def split: prod.splits sum.splits)
  have curve: "curve_ok (eh_curve (sample_evm_env sample_log))"
    using byte_curve_ok by (simp add: sample_evm_env_def)
  have logs: "chain_logs (eh_chain (sample_evm_env sample_log)) pool a b m = Inr ls \<Longrightarrow> l \<in> set ls
      \<Longrightarrow> length (log_commitment l) = 66" for pool a b m ls l
    by (auto simp: sample_evm_env_def one_log_chain_def sample_log_def)
  have "rs = []"
    by (rule evm_stealth_scan_finds_nothing [OF curve _ run]) (rule logs)
  with run show ?thesis by blast
qed

end
