(* ===== verification/App_Pages.thy ===== *)
theory App_Pages
  imports App_Evm
begin

text \<open>
  The chain selection of the web application (app/src/providers/ChainProvider.tsx, app/src/hooks/useChain.ts
  and useHolanc.ts) and the handlers of its pages (app/src/app/*/page.tsx): what a page does with its
  form before it calls the hook. The markup is left out, and so is the rounding of \<open>parseFloat\<close> to a
  double: a number is the rational its text stands for.
\<close>

section \<open>Chain selection\<close>

text \<open>\<open>process.env.X || d\<close>: an unset and an empty variable give the default.\<close>

definition env_or :: "(string \<rightharpoonup> string) \<Rightarrow> string \<Rightarrow> string \<Rightarrow> string" where
  "env_or env x d = (case env x of None \<Rightarrow> d | Some v \<Rightarrow> if v = '''' then d else v)"

definition SOLANA_CONFIG :: "(string \<rightharpoonup> string) \<Rightarrow> ChainConfig" where
  "SOLANA_CONFIG env =
     \<lparr>chainType = ''solana'', cc_chainName = ''Solana'', cc_chainId = Some 0,
      cc_rpcUrl = env_or env ''NEXT_PUBLIC_RPC_URL'' ''https://api.devnet.solana.com'',
      cc_pool = env_or env ''NEXT_PUBLIC_POOL_PROGRAM_ID'' ''6fhYW9wEHD3yCdvfyBCg3jxVB7sWVmqNgQyvMwSFi1GT'',
      cc_token = env_or env ''NEXT_PUBLIC_TOKEN_MINT'' '''', cc_verifier = env ''NEXT_PUBLIC_VERIFIER_PROGRAM_ID'',
      cc_nullifier = env ''NEXT_PUBLIC_NULLIFIER_PROGRAM_ID'', cc_bridge = env ''NEXT_PUBLIC_BRIDGE_PROGRAM_ID'',
      cc_compliance = env ''NEXT_PUBLIC_COMPLIANCE_PROGRAM_ID'',
      cc_explorerUrl = Some ''https://explorer.solana.com'', cc_nativeCurrency = Some ''SOL''\<rparr>"

definition EVM_CONFIG :: "(string \<rightharpoonup> string) \<Rightarrow> ChainConfig" where
  "EVM_CONFIG env =
     \<lparr>chainType = ''evm'', cc_chainName = env_or env ''NEXT_PUBLIC_EVM_CHAIN_NAME'' ''Ethereum'',
      cc_chainId = parse_int 10 (env_or env ''NEXT_PUBLIC_EVM_CHAIN_ID'' ''1''),
      cc_rpcUrl = env_or env ''NEXT_PUBLIC_EVM_RPC_URL'' '''', cc_pool = env_or env ''NEXT_PUBLIC_EVM_POOL_ADDRESS'' '''',
      cc_token = env_or env ''NEXT_PUBLIC_EVM_TOKEN_ADDRESS'' '''', cc_verifier = env ''NEXT_PUBLIC_EVM_VERIFIER_ADDRESS'',
      cc_nullifier = env ''NEXT_PUBLIC_EVM_NULLIFIER_ADDRESS'', cc_bridge = env ''NEXT_PUBLIC_EVM_BRIDGE_ADDRESS'',
      cc_compliance = env ''NEXT_PUBLIC_EVM_COMPLIANCE_ADDRESS'',
      cc_explorerUrl = Some (env_or env ''NEXT_PUBLIC_EVM_EXPLORER_URL'' ''https://etherscan.io''),
      cc_nativeCurrency = Some (env_or env ''NEXT_PUBLIC_EVM_NATIVE_CURRENCY'' ''ETH'')\<rparr>"

definition EVM_ENABLED :: "ChainConfig \<Rightarrow> bool" where
  "EVM_ENABLED evmConfig = (cc_pool evmConfig \<noteq> '''')"

definition STORAGE_KEY :: string where
  "STORAGE_KEY = ''holanc_active_chain''"

text \<open>The provider's state is the active chain; the first is \<open>solana\<close>.\<close>

definition restore_chain :: "ChainConfig \<Rightarrow> (string \<rightharpoonup> string) \<Rightarrow> string \<Rightarrow> string" where
  "restore_chain evmConfig storage active =
     (if storage STORAGE_KEY = Some ''evm'' \<and> EVM_ENABLED evmConfig then ''evm'' else active)"

definition setActiveChain :: "string \<Rightarrow> (string \<rightharpoonup> string) \<Rightarrow> string \<times> (string \<rightharpoonup> string)" where
  "setActiveChain chain storage = (chain, storage(STORAGE_KEY \<mapsto> chain))"

definition chain_config :: "ChainConfig \<Rightarrow> ChainConfig \<Rightarrow> string \<Rightarrow> ChainConfig" where
  "chain_config solanaConfig evmConfig active = (if active = ''evm'' then evmConfig else solanaConfig)"

record ChainView =
  isSolana :: bool
  isEvm :: bool
  nativeCurrency :: string
  explorerUrl :: string

definition useChain :: "ChainConfig \<Rightarrow> ChainConfig \<Rightarrow> string \<Rightarrow> ChainView" where
  "useChain solanaConfig evmConfig active =
     (let cfg = chain_config solanaConfig evmConfig active in
      \<lparr>isSolana = (active = ''solana''), isEvm = (active = ''evm''),
       nativeCurrency = (case cc_nativeCurrency cfg of Some c \<Rightarrow> c | None \<Rightarrow> if active = ''evm'' then ''ETH'' else ''SOL''),
       explorerUrl = (case cc_explorerUrl cfg of Some u \<Rightarrow> u | None \<Rightarrow> '''')\<rparr>)"

definition useHolanc :: "ChainView \<Rightarrow> 'h \<Rightarrow> 'h \<Rightarrow> 'h" where
  "useHolanc chain solana evm = (if isEvm chain then evm else solana)"

section \<open>Forms\<close>

definition is_decimal_digit :: "char \<Rightarrow> bool" where
  "is_decimal_digit c = (48 \<le> (of_char c :: nat) \<and> (of_char c :: nat) \<le> 57)"

text \<open>The test \<open>^\d*\.?\d*$\<close> of the amount field.\<close>

definition amount_text :: "string \<Rightarrow> bool" where
  "amount_text s =
     (case dropWhile is_decimal_digit s of
        [] \<Rightarrow> True
      | c # cs \<Rightarrow> c = CHR ''.'' \<and> list_all is_decimal_digit cs)"

definition AmountInput :: "string \<Rightarrow> string \<Rightarrow> string" where
  "AmountInput typed value = (if amount_text typed then typed else value)"

text \<open>\<open>parseFloat\<close> on such a text; \<open>None\<close> is NaN, the value of a text without digits.\<close>

definition digits_of :: "string \<Rightarrow> nat" where
  "digits_of s = foldl (\<lambda>a c. 10 * a + (of_char c - 48)) 0 s"

definition parseFloat :: "string \<Rightarrow> rat option" where
  "parseFloat s =
     (let whole = takeWhile is_decimal_digit s; frac = takeWhile is_decimal_digit (drop (Suc (length whole)) s) in
      if whole = [] \<and> frac = [] then None
      else Some (of_nat (digits_of whole) + of_nat (digits_of frac) / 10 ^ length frac))"

text \<open>What a handler asks the hook to do; \<open>None\<close> stands for NaN.\<close>

datatype hook_call =
    CallDeposit rat
  | CallTransfer string string rat
  | CallWithdraw string string rat
  | CallStealthSend string "rat option"
  | CallBridge int int string "rat option"
  | CallDisclose string string
  | CallWealth rat

definition positive_amount :: "string \<Rightarrow> rat option" where
  "positive_amount amount = (case parseFloat amount of None \<Rightarrow> None | Some v \<Rightarrow> if v \<le> 0 then None else Some v)"

definition handleDeposit :: "string \<Rightarrow> hook_call option" where
  "handleDeposit amount = map_option CallDeposit (positive_amount amount)"

definition handleTransfer :: "string \<Rightarrow> string \<Rightarrow> string \<Rightarrow> hook_call option" where
  "handleTransfer noteSecret recipient amount =
     (case positive_amount amount of
        None \<Rightarrow> None
      | Some v \<Rightarrow> if js_trim noteSecret = '''' \<or> js_trim recipient = '''' then None
                  else Some (CallTransfer noteSecret recipient v))"

definition handleWithdraw :: "string \<Rightarrow> string \<Rightarrow> string \<Rightarrow> hook_call option" where
  "handleWithdraw noteSecret recipient amount =
     (case positive_amount amount of
        None \<Rightarrow> None
      | Some v \<Rightarrow> if js_trim noteSecret = '''' \<or> js_trim recipient = '''' then None
                  else Some (CallWithdraw noteSecret recipient v))"

definition handleStealthSend :: "string \<Rightarrow> string \<Rightarrow> hook_call option" where
  "handleStealthSend metaAddress amount =
     (if js_trim metaAddress = '''' \<or> amount = '''' then None
      else Some (CallStealthSend (js_trim metaAddress) (parseFloat amount)))"

definition handleDisclose :: "string \<Rightarrow> string \<Rightarrow> hook_call option" where
  "handleDisclose noteSecret oracleAddress =
     (if js_trim noteSecret = '''' \<or> js_trim oracleAddress = '''' then None
      else Some (CallDisclose (js_trim noteSecret) (js_trim oracleAddress)))"

definition handleWealthProof :: "string \<Rightarrow> hook_call option" where
  "handleWealthProof thr = map_option CallWealth (positive_amount thr)"

definition is_busy :: "TxStatus \<Rightarrow> bool" where
  "is_busy st = (st = Generating \<or> st = Sending \<or> st = Confirming)"

section \<open>The bridge page\<close>

record BridgePage =
  sourceChain :: int
  destChain :: int
  br_amount :: string
  br_noteSecret :: string

definition CHAINS :: "int list" where
  "CHAINS = [1, 2, 3, 100]"

definition open_bridge :: BridgePage where
  "open_bridge = \<lparr>sourceChain = 1, destChain = 2, br_amount = '''', br_noteSecret = ''''\<rparr>"

definition select_source :: "int \<Rightarrow> BridgePage \<Rightarrow> BridgePage" where
  "select_source v p =
     (let p1 = p\<lparr>sourceChain := v\<rparr> in
      if v = destChain p
      then (case filter (\<lambda>c. c \<noteq> v) CHAINS of c # _ \<Rightarrow> p1\<lparr>destChain := c\<rparr> | [] \<Rightarrow> p1)
      else p1)"

definition select_dest :: "int \<Rightarrow> BridgePage \<Rightarrow> BridgePage" where
  "select_dest v p = p\<lparr>destChain := v\<rparr>"

text \<open>The options of the second list leave out the source.\<close>

inductive bridge_page_step :: "BridgePage \<Rightarrow> BridgePage \<Rightarrow> bool" where
  source: "v \<in> set CHAINS \<Longrightarrow> bridge_page_step p (select_source v p)"
| dest: "v \<in> set (filter (\<lambda>c. c \<noteq> sourceChain p) CHAINS) \<Longrightarrow> bridge_page_step p (select_dest v p)"
| type_amount: "bridge_page_step p (p\<lparr>br_amount := AmountInput typed (br_amount p)\<rparr>)"
| type_secret: "bridge_page_step p (p\<lparr>br_noteSecret := typed\<rparr>)"

definition handleBridge :: "BridgePage \<Rightarrow> hook_call option" where
  "handleBridge p =
     (if js_trim (br_noteSecret p) = '''' \<or> br_amount p = '''' then None
      else Some (CallBridge (sourceChain p) (destChain p) (js_trim (br_noteSecret p)) (parseFloat (br_amount p))))"

section \<open>What the pages pass on\<close>

lemma positive_amountD: "positive_amount s = Some v \<Longrightarrow> 0 < v"
  by (auto simp: positive_amount_def split: option.splits if_splits)

definition bridge_page_ok :: "BridgePage \<Rightarrow> bool" where
  "bridge_page_ok p \<longleftrightarrow> sourceChain p \<noteq> destChain p \<and> {sourceChain p, destChain p} \<subseteq> set CHAINS \<and> amount_text (br_amount p)"

interpretation bridge_page: invariant_system "\<lambda>p. p = open_bridge" bridge_page_step bridge_page_ok
proof
  show "bridge_page_ok p" if "p = open_bridge" for p
    using that by (simp add: bridge_page_ok_def open_bridge_def CHAINS_def amount_text_def)
  show "bridge_page_ok q" if "bridge_page_ok p" "bridge_page_step p q" for p q
    using that(2,1)
    by cases (auto simp: bridge_page_ok_def select_source_def select_dest_def CHAINS_def AmountInput_def Let_def)
qed

text \<open>
  In every state its form can reach, the bridge page asks the hook to bridge between two different chains
  of its list, with the amount its text stands for. The amount is not checked: from an opened page, the
  input \<open>0\<close> is passed on as the amount zero and a lone point as NaN, which the deposit, transfer and
  withdraw pages refuse.
\<close>

theorem bridge_page_calls:
  assumes "reachable (\<lambda>p. p = open_bridge) bridge_page_step p" "handleBridge p = Some (CallBridge a b secret amount)"
  shows "a \<noteq> b \<and> {a, b} \<subseteq> set CHAINS \<and> secret \<noteq> '''' \<and> amount_text (br_amount p) \<and> amount = parseFloat (br_amount p)
    \<and> (\<forall>text v. text \<in> {''0'', ''.''} \<longrightarrow>
         handleBridge (p\<lparr>br_amount := text\<rparr>) = Some (CallBridge a b secret (if text = ''0'' then Some 0 else None))
         \<and> handleDeposit text = None \<and> handleTransfer secret v text = None \<and> handleWithdraw secret v text = None)"
proof -
  have "bridge_page_ok p"
    by (rule bridge_page.reachable_inv [OF assms(1)])
  moreover have "parseFloat ''0'' = Some 0" "parseFloat ''.'' = None"
    by code_simp+
  ultimately show ?thesis
    using assms(2)
    by (auto simp: bridge_page_ok_def handleBridge_def handleDeposit_def handleTransfer_def handleWithdraw_def positive_amount_def
        split: if_splits)
qed

lemma bridge_page_calls_witness:
  "\<exists>p. reachable (\<lambda>p. p = open_bridge) bridge_page_step p \<and> handleBridge p = Some (CallBridge 2 1 ''n'' (Some (3 / 2)))
     \<and> (2 :: int) \<noteq> 1"
proof -
  let ?p1 = "select_source 2 open_bridge"
  let ?p2 = "?p1\<lparr>br_amount := AmountInput ''1.5'' (br_amount ?p1)\<rparr>"
  let ?p3 = "?p2\<lparr>br_noteSecret := ''n''\<rparr>"
  have "bridge_page_step open_bridge ?p1" "bridge_page_step ?p1 ?p2" "bridge_page_step ?p2 ?p3"
    by (rule source, simp add: CHAINS_def) (rule type_amount, rule type_secret)
  moreover have "reachable (\<lambda>p. p = open_bridge) bridge_page_step open_bridge"
    by (rule reach_init) simp
  ultimately have "reachable (\<lambda>p. p = open_bridge) bridge_page_step ?p3"
    by (blast intro: reach_step)
  moreover have "handleBridge ?p3 = Some (CallBridge 2 1 ''n'' (Some (3 / 2)))"
    by code_simp
  ultimately show ?thesis
    using bridge_page_calls [of ?p3 2 1 "''n''"] by blast
qed

end
