(* ===== verification/Circuit_Common.thy ===== *)
theory Circuit_Common
  imports Complex_Main
begin

text \<open>
  circuits/lib/common.circom: the templates shared by all circuits. Signals are elements of a field
  \<open>'f\<close>, which is the field the compiler is run for; circomlib's Poseidon is an argument \<open>H\<close>. A template
  whose output is determined by \<open><==\<close> is a function, a template that only constrains is a predicate
  over its signals, the bits of a decomposition included.
\<close>

section \<open>Templates\<close>

definition NoteCommitment :: "('f list \<Rightarrow> 'f) \<Rightarrow> 'f \<Rightarrow> 'f \<Rightarrow> 'f \<Rightarrow> 'f \<Rightarrow> 'f" where
  "NoteCommitment H own val asset blind = H [own, val, asset, blind]"

definition NullifierV1 :: "('f list \<Rightarrow> 'f) \<Rightarrow> 'f \<Rightarrow> 'f \<Rightarrow> 'f" where
  "NullifierV1 H key cm = H [key, cm]"

definition NullifierV2 :: "('f list \<Rightarrow> 'f) \<Rightarrow> 'f \<Rightarrow> 'f \<Rightarrow> 'f \<Rightarrow> 'f \<Rightarrow> 'f" where
  "NullifierV2 H chain_id app_id key cm = H [H [key, cm], H [chain_id, app_id]]"

text \<open>The root computed from a leaf; the index of a level is any field element.\<close>

fun MerkleProof :: "('f::field list \<Rightarrow> 'f) \<Rightarrow> 'f \<Rightarrow> 'f list \<Rightarrow> 'f list \<Rightarrow> 'f" where
  "MerkleProof H cur (el # els) (ind # inds) =
     (let left = cur + ind * (el - cur); right = el + ind * (cur - el) in
      MerkleProof H (H [left, right]) els inds)"
| "MerkleProof H cur _ _ = cur"

definition RangeCheck :: "nat \<Rightarrow> 'f::field list \<Rightarrow> 'f \<Rightarrow> bool" where
  "RangeCheck n bits val \<longleftrightarrow>
     length bits = n \<and> list_all (\<lambda>b. b * (b - 1) = 0) bits
     \<and> val = sum_list (map (\<lambda>i. bits ! i * 2 ^ i) [0..<n])"

section \<open>Range checks\<close>

text \<open>The characteristic of the field is larger than any sum of nine 64-bit values.\<close>

definition wide_field :: "'f::field itself \<Rightarrow> bool" where
  "wide_field t \<longleftrightarrow> inj_on (of_nat :: nat \<Rightarrow> 'f) {..<2 ^ 68}"

lemma wide_fieldD:
  "wide_field TYPE('f::field) \<Longrightarrow> of_nat m = (of_nat n :: 'f) \<Longrightarrow> m < 2 ^ 68 \<Longrightarrow> n < 2 ^ 68 \<Longrightarrow> m = n"
  by (auto simp: wide_field_def inj_on_def)

lemma wide_field_char_0 [simp]: "wide_field TYPE('f::field_char_0)"
  by (simp add: wide_field_def inj_on_def)

lemma bit_cases: "b * (b - 1) = (0 :: 'f::field) \<longleftrightarrow> b = of_nat 0 \<or> b = of_nat 1"
  by auto

lemma bits_sum_Cons:
  "sum_list (map (\<lambda>i. (b # bs) ! i * 2 ^ i) [0..<Suc n]) = b + 2 * sum_list (map (\<lambda>i. bs ! i * 2 ^ i) [0..<n])"
  for b :: "'f::field"
  by (simp add: map_upt_Suc sum_list_const_mult [symmetric] algebra_simps del: upt_Suc)

lemma range_check_value: "RangeCheck n bits val \<Longrightarrow> \<exists>v. v < 2 ^ n \<and> val = of_nat v"
proof (induction n arbitrary: bits val)
  case (Suc n)
  obtain b bs where bits: "bits = b # bs"
    using Suc.prems by (cases bits) (auto simp: RangeCheck_def)
  then obtain v where v: "v < 2 ^ n" "sum_list (map (\<lambda>i. bs ! i * 2 ^ i) [0..<n]) = of_nat v"
    using Suc.prems Suc.IH [of bs] by (auto simp: RangeCheck_def simp del: upt_Suc)
  obtain c where c: "c < (2::nat)" "b = of_nat c"
    using Suc.prems bits that [of 0] that [of 1] by (auto simp: RangeCheck_def simp del: upt_Suc)
  have "val = of_nat (c + 2 * v)"
    using Suc.prems v(2) c(2) unfolding bits RangeCheck_def by (simp add: bits_sum_Cons del: upt_Suc)
  moreover have "c + 2 * v < 2 ^ Suc n"
    using v(1) c(1) by simp
  ultimately show ?case by blast
qed (simp add: RangeCheck_def)

lemma range_check_exists: "v < 2 ^ n \<Longrightarrow> \<exists>bits. RangeCheck n bits (of_nat v :: 'f::field)"
proof (induction n arbitrary: v)
  case (Suc n)
  then obtain bs :: "'f list" where bs: "RangeCheck n bs (of_nat (v div 2))"
    by (metis less_mult_imp_div_less mult.commute power_Suc)
  have "(of_nat v :: 'f) = of_nat (v mod 2) + 2 * of_nat (v div 2)"
    by (metis add.commute mult_div_mod_eq of_nat_add of_nat_mult of_nat_numeral)
  moreover have "v mod 2 = 0 \<or> v mod 2 = 1" by auto
  ultimately have "RangeCheck (Suc n) (of_nat (v mod 2) # bs) (of_nat v :: 'f)"
    using bs by (auto simp: RangeCheck_def bits_sum_Cons simp del: upt_Suc)
  then show ?case by blast
qed (simp add: RangeCheck_def)

section \<open>Merkle proofs\<close>

text \<open>
  The two inputs of a level add up to the node and its sibling, whatever the index is; so another node
  gives the same two inputs under another sibling and another index.
\<close>

lemma MerkleProof_replaced:
  assumes "2 * c \<noteq> l + el"
  shows "\<exists>el' ind'. MerkleProof H c (el' # els) (ind' # inds) = MerkleProof H l (el # els) (ind # inds)"
proof -
  let ?left = "l + ind * (el - l)" and ?el = "l + el - c"
  have "?el - c \<noteq> 0"
    using assms by (simp add: algebra_simps)
  then obtain ind' where ind: "ind' * (?el - c) = ?left - c"
    by (metis nonzero_divide_eq_eq)
  have swap: "x + ind' * (c - x) = x - ind' * (x - c)" for x
    by (simp add: right_diff_distrib)
  have "?el + ind' * (c - ?el) = ?el - ind' * (?el - c)"
    by (rule swap)
  also have "\<dots> = el + ind * (l - el)"
    unfolding ind by (simp add: algebra_simps)
  finally have right: "?el + ind' * (c - ?el) = el + ind * (l - el)" .
  have left: "c + ind' * (?el - c) = ?left"
    unfolding ind by simp
  show ?thesis
    by (intro exI [of _ ?el] exI [of _ ind']) (simp only: MerkleProof.simps Let_def left right)
qed

end
