(* ===== verification/Circuits.thy ===== *)
theory Circuits
  imports Circuit_Common Sdk_Stealth
begin

text \<open>
  circuits/*/*.circom: the constraint systems of the proofs. A circuit is a predicate over its public
  signals and the private signals of the prover; a circuit of the code accepts a statement when some
  private signals satisfy it. The tree depth is an argument, as it is of the templates.
\<close>

section \<open>Signals\<close>

record 'f note_signals =
  sg_owner :: 'f
  sg_value :: 'f
  sg_asset :: 'f
  sg_blinding :: 'f

record 'f public_inputs =
  cp_root :: 'f
  cp_nullifiers :: "'f list"
  cp_outputs :: "'f list"
  cp_fee :: 'f

record 'f exit_inputs = "'f public_inputs" +
  cp_exit :: 'f

record 'f private_inputs =
  cw_key :: 'f
  cw_in :: "'f note_signals list"
  cw_paths :: "'f list list"
  cw_indices :: "'f list list"
  cw_out :: "'f note_signals list"
  cw_in_bits :: "'f list list"
  cw_out_bits :: "'f list list"
  cw_fee_bits :: "'f list"

definition note_cm :: "('f list \<Rightarrow> 'f) \<Rightarrow> 'f note_signals \<Rightarrow> 'f" where
  "note_cm H n = NoteCommitment H (sg_owner n) (sg_value n) (sg_asset n) (sg_blinding n)"

section \<open>The steps shared by the circuits\<close>

text \<open>The array signals have the lengths they are declared with.\<close>

definition signal_shape :: "nat \<Rightarrow> nat \<Rightarrow> nat \<Rightarrow> ('f, 'a) public_inputs_scheme \<Rightarrow> 'f private_inputs \<Rightarrow> bool" where
  "signal_shape n_in n_out depth pub prv \<longleftrightarrow>
     length (cp_nullifiers pub) = n_in \<and> length (cp_outputs pub) = n_out \<and> length (cw_in prv) = n_in
     \<and> length (cw_paths prv) = n_in \<and> length (cw_indices prv) = n_in \<and> length (cw_out prv) = n_out
     \<and> length (cw_in_bits prv) = n_in \<and> length (cw_out_bits prv) = n_out
     \<and> list_all (\<lambda>p. length p = depth) (cw_paths prv) \<and> list_all (\<lambda>p. length p = depth) (cw_indices prv)"

text \<open>Step 1, for the template \<open>nf\<close> of the nullifier, and step 2.\<close>

definition input_spent :: "('f::field list \<Rightarrow> 'f) \<Rightarrow> ('f \<Rightarrow> 'f \<Rightarrow> 'f) \<Rightarrow> ('f, 'a) public_inputs_scheme \<Rightarrow>
    'f private_inputs \<Rightarrow> nat \<Rightarrow> bool" where
  "input_spent H nf pub prv i \<longleftrightarrow>
     (let cm = note_cm H (cw_in prv ! i) in
      nf (cw_key prv) cm = cp_nullifiers pub ! i
      \<and> MerkleProof H cm (cw_paths prv ! i) (cw_indices prv ! i) = cp_root pub)"

definition output_made :: "('f list \<Rightarrow> 'f) \<Rightarrow> ('f, 'a) public_inputs_scheme \<Rightarrow> 'f private_inputs \<Rightarrow> nat \<Rightarrow> bool" where
  "output_made H pub prv i \<longleftrightarrow> note_cm H (cw_out prv ! i) = cp_outputs pub ! i"

definition total_value :: "'f::field note_signals list \<Rightarrow> 'f" where
  "total_value ns = sum_list (map sg_value ns)"

definition values_in_range :: "'f::field private_inputs \<Rightarrow> 'f \<Rightarrow> bool" where
  "values_in_range prv fee \<longleftrightarrow>
     list_all2 (RangeCheck 64) (cw_in_bits prv) (map sg_value (cw_in prv))
     \<and> list_all2 (RangeCheck 64) (cw_out_bits prv) (map sg_value (cw_out prv))
     \<and> RangeCheck 64 (cw_fee_bits prv) fee"

definition one_asset :: "'f private_inputs \<Rightarrow> bool" where
  "one_asset prv \<longleftrightarrow>
     (let asset = sg_asset (cw_in prv ! 0) in
      asset = sg_asset (cw_in prv ! 1) \<and> asset = sg_asset (cw_out prv ! 0) \<and> asset = sg_asset (cw_out prv ! 1))"

definition two_in_two_out :: "('f::field list \<Rightarrow> 'f) \<Rightarrow> ('f \<Rightarrow> 'f \<Rightarrow> 'f) \<Rightarrow> nat \<Rightarrow> ('f, 'a) public_inputs_scheme \<Rightarrow>
    'f private_inputs \<Rightarrow> bool" where
  "two_in_two_out H nf depth pub prv \<longleftrightarrow>
     signal_shape 2 2 depth pub prv \<and> list_all (input_spent H nf pub prv) [0..<2]
     \<and> list_all (output_made H pub prv) [0..<2] \<and> values_in_range prv (cp_fee pub) \<and> one_asset prv"

section \<open>Transfer, withdraw and deposit\<close>

definition Transfer :: "('f::field list \<Rightarrow> 'f) \<Rightarrow> nat \<Rightarrow> 'f public_inputs \<Rightarrow> 'f private_inputs \<Rightarrow> bool" where
  "Transfer H depth pub prv \<longleftrightarrow>
     two_in_two_out H (NullifierV1 H) depth pub prv
     \<and> total_value (cw_in prv) = total_value (cw_out prv) + cp_fee pub"

definition TransferV2 :: "('f::field list \<Rightarrow> 'f) \<Rightarrow> nat \<Rightarrow> 'f \<Rightarrow> 'f \<Rightarrow> 'f public_inputs \<Rightarrow> 'f private_inputs \<Rightarrow> bool" where
  "TransferV2 H depth chain_id app_id pub prv \<longleftrightarrow>
     two_in_two_out H (NullifierV2 H chain_id app_id) depth pub prv
     \<and> total_value (cw_in prv) = total_value (cw_out prv) + cp_fee pub"

text \<open>A withdrawal also checks the range of its exit value, with bits of its own.\<close>

definition Withdraw :: "('f::field list \<Rightarrow> 'f) \<Rightarrow> nat \<Rightarrow> 'f exit_inputs \<Rightarrow> 'f private_inputs \<Rightarrow> 'f list \<Rightarrow> bool" where
  "Withdraw H depth pub prv exit_bits \<longleftrightarrow>
     two_in_two_out H (NullifierV1 H) depth pub prv
     \<and> total_value (cw_in prv) = total_value (cw_out prv) + cp_exit pub + cp_fee pub
     \<and> RangeCheck 64 exit_bits (cp_exit pub)"

definition WithdrawV2 :: "('f::field list \<Rightarrow> 'f) \<Rightarrow> nat \<Rightarrow> 'f \<Rightarrow> 'f \<Rightarrow> 'f exit_inputs \<Rightarrow> 'f private_inputs \<Rightarrow>
    'f list \<Rightarrow> bool" where
  "WithdrawV2 H depth chain_id app_id pub prv exit_bits \<longleftrightarrow>
     two_in_two_out H (NullifierV2 H chain_id app_id) depth pub prv
     \<and> total_value (cw_in prv) = total_value (cw_out prv) + cp_exit pub + cp_fee pub
     \<and> RangeCheck 64 exit_bits (cp_exit pub)"

definition Deposit :: "('f::field list \<Rightarrow> 'f) \<Rightarrow> 'f \<Rightarrow> 'f \<Rightarrow> 'f \<Rightarrow> 'f \<Rightarrow> 'f \<Rightarrow> 'f list \<Rightarrow> bool" where
  "Deposit H cm val own asset blind bits \<longleftrightarrow> NoteCommitment H own val asset blind = cm \<and> RangeCheck 64 bits val"

section \<open>Stealth transfers\<close>

text \<open>
  The two scalar multiplications of circomlib are those of the curve argument; \<open>Num2Bits(253)\<close> says
  that the ephemeral key is a scalar below \<open>2 ^ 253\<close>.
\<close>

definition on_baby_jubjub :: "'f::field \<times> 'f \<Rightarrow> bool" where
  "on_baby_jubjub P \<longleftrightarrow> (let x2 = fst P * fst P; y2 = snd P * snd P in 168700 * x2 + y2 = 1 + 168696 * (x2 * y2))"

definition StealthECDH :: "'f::field curve \<Rightarrow> int \<Rightarrow> 'f \<Rightarrow> 'f \<times> 'f \<Rightarrow> 'f \<Rightarrow> 'f \<times> 'f \<Rightarrow> 'f \<Rightarrow> 'f \<Rightarrow> bool" where
  "StealthECDH C scalar ephemeral_key view_pub spend_pub ephemeral_pub shared_secret stealth_owner \<longleftrightarrow>
     on_baby_jubjub view_pub \<and> 0 \<le> scalar \<and> scalar < 2 ^ 253 \<and> ephemeral_key = of_int scalar
     \<and> ephemeral_pub = mulPoint C (base8 C) scalar
     \<and> shared_secret = (let S = mulPoint C view_pub scalar in poseidonF C [fst S, snd S])
     \<and> stealth_owner = poseidonF C [spend_pub, shared_secret]"

definition StealthTransfer :: "'f::field curve \<Rightarrow> nat \<Rightarrow> 'f public_inputs \<Rightarrow> 'f \<times> 'f \<Rightarrow> 'f private_inputs \<Rightarrow>
    int \<Rightarrow> 'f \<Rightarrow> 'f \<times> 'f \<Rightarrow> 'f \<Rightarrow> 'f \<Rightarrow> bool" where
  "StealthTransfer C depth pub ephemeral_pub prv scalar ephemeral_key view_pub spend_pub shared_secret \<longleftrightarrow>
     StealthECDH C scalar ephemeral_key view_pub spend_pub ephemeral_pub shared_secret (sg_owner (cw_out prv ! 0))
     \<and> Transfer (poseidonF C) depth pub prv"

definition StealthTransferV2 :: "'f::field curve \<Rightarrow> nat \<Rightarrow> 'f \<Rightarrow> 'f \<Rightarrow> 'f public_inputs \<Rightarrow> 'f \<times> 'f \<Rightarrow> 'f private_inputs \<Rightarrow>
    int \<Rightarrow> 'f \<Rightarrow> 'f \<times> 'f \<Rightarrow> 'f \<Rightarrow> 'f \<Rightarrow> bool" where
  "StealthTransferV2 C depth chain_id app_id pub ephemeral_pub prv scalar ephemeral_key view_pub spend_pub shared_secret \<longleftrightarrow>
     StealthECDH C scalar ephemeral_key view_pub spend_pub ephemeral_pub shared_secret (sg_owner (cw_out prv ! 0))
     \<and> TransferV2 (poseidonF C) depth chain_id app_id pub prv"

section \<open>Variable inputs and outputs\<close>

definition is_selector :: "'f::field \<Rightarrow> bool" where
  "is_selector b \<longleftrightarrow> b * (b - 1) = 0"

definition effective :: "'f::field note_signals list \<Rightarrow> 'f list \<Rightarrow> 'f list" where
  "effective ns sel = map2 (\<lambda>n b. sg_value n * b) ns sel"

definition selected_io :: "('f::field list \<Rightarrow> 'f) \<Rightarrow> ('f \<Rightarrow> 'f \<Rightarrow> 'f) \<Rightarrow> nat \<Rightarrow> nat \<Rightarrow> nat \<Rightarrow>
    ('f, 'a) public_inputs_scheme \<Rightarrow> 'f private_inputs \<Rightarrow> 'f list \<Rightarrow> 'f list \<Rightarrow> bool" where
  "selected_io H nf n_in n_out depth pub prv has_input has_output \<longleftrightarrow>
     signal_shape n_in n_out depth pub prv \<and> length has_input = n_in \<and> length has_output = n_out
     \<and> list_all is_selector has_input \<and> list_all is_selector has_output
     \<and> list_all (input_spent H nf pub prv) [0..<n_in] \<and> list_all (output_made H pub prv) [0..<n_out]
     \<and> list_all2 (RangeCheck 64) (cw_in_bits prv) (effective (cw_in prv) has_input)
     \<and> list_all2 (RangeCheck 64) (cw_out_bits prv) (effective (cw_out prv) has_output)
     \<and> RangeCheck 64 (cw_fee_bits prv) (cp_fee pub)
     \<and> list_all (\<lambda>i. (sg_asset (cw_in prv ! i) - sg_asset (cw_in prv ! 0)) * has_input ! i = 0) [1..<n_in]
     \<and> list_all (\<lambda>i. (sg_asset (cw_out prv ! i) - sg_asset (cw_in prv ! 0)) * has_output ! i = 0) [0..<n_out]"

definition TransferN :: "('f::field list \<Rightarrow> 'f) \<Rightarrow> nat \<Rightarrow> nat \<Rightarrow> nat \<Rightarrow> 'f public_inputs \<Rightarrow> 'f private_inputs \<Rightarrow>
    'f list \<Rightarrow> 'f list \<Rightarrow> bool" where
  "TransferN H n_in n_out depth pub prv has_input has_output \<longleftrightarrow>
     selected_io H (NullifierV1 H) n_in n_out depth pub prv has_input has_output
     \<and> sum_list (effective (cw_in prv) has_input) = sum_list (effective (cw_out prv) has_output) + cp_fee pub"

definition WithdrawN :: "('f::field list \<Rightarrow> 'f) \<Rightarrow> ('f \<Rightarrow> 'f \<Rightarrow> 'f) \<Rightarrow> nat \<Rightarrow> nat \<Rightarrow> nat \<Rightarrow> 'f exit_inputs \<Rightarrow>
    'f private_inputs \<Rightarrow> 'f list \<Rightarrow> 'f list \<Rightarrow> 'f list \<Rightarrow> bool" where
  "WithdrawN H nf n_in n_out depth pub prv has_input has_output exit_bits \<longleftrightarrow>
     selected_io H nf n_in n_out depth pub prv has_input has_output
     \<and> sum_list (effective (cw_in prv) has_input)
         = sum_list (effective (cw_out prv) has_output) + cp_exit pub + cp_fee pub
     \<and> RangeCheck 64 exit_bits (cp_exit pub)"

definition WithdrawN_V2 :: "('f::field list \<Rightarrow> 'f) \<Rightarrow> 'f \<Rightarrow> 'f \<Rightarrow> nat \<Rightarrow> nat \<Rightarrow> nat \<Rightarrow> 'f exit_inputs \<Rightarrow>
    'f private_inputs \<Rightarrow> 'f list \<Rightarrow> 'f list \<Rightarrow> 'f list \<Rightarrow> bool" where
  "WithdrawN_V2 H chain_id app_id = WithdrawN H (NullifierV2 H chain_id app_id)"

section \<open>Wealth proofs\<close>

text \<open>Every note has the owner \<open>Poseidon(spending_key)\<close>; nothing keeps two slots from holding one note.\<close>

definition WealthProof :: "('f::field list \<Rightarrow> 'f) \<Rightarrow> nat \<Rightarrow> nat \<Rightarrow> 'f \<Rightarrow> 'f \<Rightarrow> 'f \<Rightarrow> 'f \<Rightarrow> ('f \<times> 'f \<times> 'f) list \<Rightarrow>
    'f list list \<Rightarrow> 'f list list \<Rightarrow> 'f list list \<Rightarrow> 'f list \<Rightarrow> bool" where
  "WealthProof H depth max_notes merkle_root threshold owner_commitment key slots paths indices bits diff_bits \<longleftrightarrow>
     length slots = max_notes \<and> length paths = max_notes \<and> length indices = max_notes
     \<and> list_all (\<lambda>p. length p = depth) paths \<and> list_all (\<lambda>p. length p = depth) indices
     \<and> H [key] = owner_commitment
     \<and> list_all (\<lambda>i. case slots ! i of (val, asset, blind) \<Rightarrow>
          MerkleProof H (NoteCommitment H (H [key]) val asset blind) (paths ! i) (indices ! i) = merkle_root) [0..<max_notes]
     \<and> list_all2 (RangeCheck 64) bits (map fst slots)
     \<and> RangeCheck 64 diff_bits (sum_list (map fst slots) - threshold)"

end
