(* ===== verification/Circuit_Soundness.thy ===== *)
theory Circuit_Soundness
  imports Circuits
begin

text \<open>
  What an accepted statement means, and what it does not: value conservation over the natural numbers,
  and two gaps of the constraints, the index of a Merkle level and the key of a nullifier.
\<close>

section \<open>Values as natural numbers\<close>

lemma range_values:
  "list_all2 (RangeCheck n) bits vals \<Longrightarrow> \<exists>vs. vals = map of_nat vs \<and> (\<forall>v \<in> set vs. v < 2 ^ n)"
proof (induction rule: list_all2_induct)
  case (Cons b bs x xs)
  then obtain vs where "xs = map of_nat vs" "\<forall>v \<in> set vs. v < 2 ^ n" by blast
  moreover obtain v where "v < 2 ^ n" "x = of_nat v"
    using range_check_value [OF Cons(1)] by blast
  ultimately show ?case
    by (intro exI [of _ "v # vs"]) simp
qed simp

lemma range_bits_exist:
  "\<forall>v \<in> set vs. v < 2 ^ n \<Longrightarrow> \<exists>bits. list_all2 (RangeCheck n) bits (map of_nat vs :: 'f::field list)"
proof (induction vs)
  case (Cons v vs)
  then obtain bits where "list_all2 (RangeCheck n) bits (map of_nat vs :: 'f list)" by auto
  moreover obtain b :: "'f list" where "RangeCheck n b (of_nat v)"
    using range_check_exists [of v n] Cons.prems by (metis list.set_intros(1))
  ultimately show ?case
    by (intro exI [of _ "b # bits"]) simp
qed simp

lemma sum_of_nats: "sum_list (map of_nat vs) = (of_nat (sum_list vs) :: 'f::field)"
  by (induction vs) simp_all

lemma sum_less: "\<forall>v \<in> set vs. v < 2 ^ 64 \<Longrightarrow> sum_list vs \<le> length vs * 2 ^ 64" for vs :: "nat list"
  by (induction vs) auto

text \<open>An equation between sums of at most eight values each holds between the numbers themselves.\<close>

lemma sums_agree:
  assumes "wide_field TYPE('f::field)" "sum_list (map of_nat vs) = (sum_list (map of_nat us) :: 'f)"
    and "\<forall>v \<in> set vs. v < 2 ^ 64" "\<forall>u \<in> set us. u < 2 ^ 64" "length vs \<le> 8" "length us \<le> 8"
  shows "sum_list vs = sum_list us"
proof (rule wide_fieldD [OF assms(1)])
  show "of_nat (sum_list vs) = (of_nat (sum_list us) :: 'f)"
    using assms(2) by (simp add: sum_of_nats)
  have "(length vs) * 2 ^ 64 \<le> 8 * (2 ^ 64 :: nat)" "(length us) * 2 ^ 64 \<le> 8 * (2 ^ 64 :: nat)"
    using assms(5,6) by (intro mult_right_mono; simp)+
  then show "sum_list vs < 2 ^ 68" "sum_list us < 2 ^ 68"
    using sum_less [OF assms(3)] sum_less [OF assms(4)] by simp_all
qed

section \<open>Conservation\<close>

lemma list_2: "length xs = 2 \<longleftrightarrow> (\<exists>a b. xs = [a, b])"
  by (auto simp: length_Suc_conv numeral_2_eq_2)

lemma two_slots: "list_all P [0..<2] \<longleftrightarrow> P 0 \<and> P (1::nat)"
  by (simp add: upt_rec numeral_2_eq_2)

text \<open>
  C5. A withdrawal that the circuit accepts conserves value over the natural numbers: the two inputs, the two
  outputs, the exit value and the fee are numbers below \<open>2 ^ 64\<close>, and the inputs are worth exactly the
  outputs, the exit value and the fee together, so nothing wraps around the field. All four notes have one
  asset, the published outputs are the commitments of the new notes, and each published nullifier is that
  of an input under one key.
\<close>

theorem withdraw_circuit_conserves:
  assumes "wide_field TYPE('f::field)" "Withdraw H depth pub prv exit_bits"
  shows "\<exists>v0 v1 u0 u1 ex fee. {v0, v1, u0, u1, ex, fee} \<subseteq> {..<2 ^ 64 :: nat} \<and> v0 + v1 = u0 + u1 + ex + fee
    \<and> map sg_value (cw_in prv) = map (of_nat :: nat \<Rightarrow> 'f) [v0, v1] \<and> map sg_value (cw_out prv) = map of_nat [u0, u1]
    \<and> cp_exit pub = of_nat ex \<and> cp_fee pub = of_nat fee
    \<and> cp_nullifiers pub = map (\<lambda>n. H [cw_key prv, note_cm H n]) (cw_in prv)
    \<and> cp_outputs pub = map (note_cm H) (cw_out prv)
    \<and> (\<exists>asset. \<forall>n \<in> set (cw_in prv @ cw_out prv). sg_asset n = asset)"
proof -
  have two: "two_in_two_out H (NullifierV1 H) depth pub prv"
    and sums: "total_value (cw_in prv) = total_value (cw_out prv) + cp_exit pub + cp_fee pub"
    and ex: "RangeCheck 64 exit_bits (cp_exit pub)"
    using assms(2) by (simp_all add: Withdraw_def)
  have rng: "list_all2 (RangeCheck 64) (cw_in_bits prv) (map sg_value (cw_in prv))"
    "list_all2 (RangeCheck 64) (cw_out_bits prv) (map sg_value (cw_out prv))" "RangeCheck 64 (cw_fee_bits prv) (cp_fee pub)"
    using two by (simp_all add: two_in_two_out_def values_in_range_def)
  have len: "length (cw_in prv) = 2" "length (cw_out prv) = 2" "length (cp_nullifiers pub) = 2" "length (cp_outputs pub) = 2"
    using two by (simp_all add: two_in_two_out_def signal_shape_def)
  obtain vs where vs: "map sg_value (cw_in prv) = map of_nat vs" "\<forall>v \<in> set vs. v < 2 ^ 64"
    using range_values [OF rng(1)] by blast
  obtain us where us: "map sg_value (cw_out prv) = map of_nat us" "\<forall>u \<in> set us. u < 2 ^ 64"
    using range_values [OF rng(2)] by blast
  obtain e f where ef: "e < 2 ^ 64" "cp_exit pub = of_nat e" "f < 2 ^ 64" "cp_fee pub = of_nat f"
    using range_check_value [OF ex] range_check_value [OF rng(3)] by blast
  have lens: "length vs = 2" "length us = 2"
    using arg_cong [OF vs(1), of length] arg_cong [OF us(1), of length] len by simp_all
  have "sum_list vs = sum_list (us @ [e, f])"
    using sums vs us ef lens unfolding total_value_def
    by (intro sums_agree [OF assms(1)]) (auto simp: algebra_simps)
  moreover obtain v0 v1 u0 u1 where "vs = [v0, v1]" "us = [u0, u1]"
    using lens by (auto simp: list_2)
  ultimately have vals: "{v0, v1, u0, u1, e, f} \<subseteq> {..<2 ^ 64}" "v0 + v1 = u0 + u1 + e + f"
    "map sg_value (cw_in prv) = map of_nat [v0, v1]" "map sg_value (cw_out prv) = map of_nat [u0, u1]"
    using vs us ef by simp_all
  obtain a b c d p q r t where parts: "cw_in prv = [a, b]" "cw_out prv = [c, d]" "cp_nullifiers pub = [p, q]"
    "cp_outputs pub = [r, t]"
    using len by (auto simp: list_2)
  have nfs: "cp_nullifiers pub = map (\<lambda>n. H [cw_key prv, note_cm H n]) (cw_in prv)"
    "cp_outputs pub = map (note_cm H) (cw_out prv)"
    using two by (simp_all add: parts two_in_two_out_def two_slots input_spent_def output_made_def NullifierV1_def Let_def)
  have asset: "\<exists>asset. \<forall>n \<in> set (cw_in prv @ cw_out prv). sg_asset n = asset"
    using two by (auto simp: parts two_in_two_out_def one_asset_def Let_def)
  show ?thesis
    by (rule exI)+ (rule conjI | fact vals ef nfs asset)+
qed

section \<open>Satisfying the circuits\<close>

text \<open>Two members of the tree and two new notes of one asset, all of 64-bit value, satisfy the shared steps.\<close>

lemma two_in_two_out_satisfiable:
  assumes "MerkleProof H (note_cm H a) pa ia = cp_root pub" "MerkleProof H (note_cm H b) pb ib = cp_root pub"
    and "length pa = depth" "length ia = depth" "length pb = depth" "length ib = depth"
    and "map sg_value [a, b, c, d] = map of_nat [va, vb, vc, vd]" "cp_fee pub = (of_nat fee :: 'f::field)"
    and "\<forall>v \<in> {va, vb, vc, vd, fee}. v < 2 ^ 64" "\<forall>n \<in> {b, c, d}. sg_asset n = sg_asset a"
    and "cp_nullifiers pub = [nf key (note_cm H a), nf key (note_cm H b)]" "cp_outputs pub = [note_cm H c, note_cm H d]"
  shows "\<exists>prv. two_in_two_out H nf depth pub prv \<and> cw_key prv = key \<and> cw_in prv = [a, b] \<and> cw_out prv = [c, d]"
proof -
  have "\<forall>v \<in> set [va, vb, vc, vd, fee]. v < 2 ^ 64"
    using assms(9) by simp
  then obtain bits where bits: "list_all2 (RangeCheck 64) bits (map of_nat [va, vb, vc, vd, fee] :: 'f list)"
    using range_bits_exist by metis
  then obtain b1 b2 b3 b4 b5 where bs: "bits = [b1, b2, b3, b4, b5]"
    by (auto simp: list_all2_Cons2)
  show ?thesis
    using assms bits unfolding bs
    by (intro exI [of _ "\<lparr>cw_key = key, cw_in = [a, b], cw_paths = [pa, pb], cw_indices = [ia, ib], cw_out = [c, d],
        cw_in_bits = [b1, b2], cw_out_bits = [b3, b4], cw_fee_bits = b5\<rparr>"])
      (simp add: two_in_two_out_def signal_shape_def two_slots input_spent_def output_made_def values_in_range_def
        one_asset_def)
qed

lemma withdraw_satisfiable:
  assumes "MerkleProof H (note_cm H a) pa ia = rt" "MerkleProof H (note_cm H b) pb ib = rt"
    and "length pa = depth" "length ia = depth" "length pb = depth" "length ib = depth"
    and "sg_value a = of_nat va" "sg_value b = of_nat vb" "va < 2 ^ 64" "vb < 2 ^ 64" "va + vb < 2 ^ 64"
    and "sg_asset a = sg_asset b"
  shows "\<exists>pub prv exit_bits. Withdraw H depth pub prv exit_bits \<and> cp_root pub = rt
    \<and> cw_in prv = [a, b] \<and> cw_key prv = key \<and> cp_exit pub = (of_nat (va + vb) :: 'f::field) \<and> cp_fee pub = 0"
proof -
  let ?zero = "\<lparr>sg_owner = 0, sg_value = 0, sg_asset = sg_asset a, sg_blinding = 0\<rparr>"
  let ?pub = "\<lparr>cp_root = rt, cp_nullifiers = [NullifierV1 H key (note_cm H a), NullifierV1 H key (note_cm H b)],
    cp_outputs = [note_cm H ?zero, note_cm H ?zero], cp_fee = 0, cp_exit = (of_nat (va + vb) :: 'f)\<rparr>"
  have "\<exists>prv. two_in_two_out H (NullifierV1 H) depth ?pub prv \<and> cw_key prv = key \<and> cw_in prv = [a, b]
      \<and> cw_out prv = [?zero, ?zero]"
    by (rule two_in_two_out_satisfiable [where pa = pa and ia = ia and pb = pb and ib = ib and va = va and vb = vb and vc = 0 and vd = 0 and fee = 0])
      (use assms in simp_all)
  then obtain prv where prv: "two_in_two_out H (NullifierV1 H) depth ?pub prv" "cw_key prv = key" "cw_in prv = [a, b]"
      "cw_out prv = [?zero, ?zero]" by blast
  moreover obtain exit_bits :: "'f list" where "RangeCheck 64 exit_bits (of_nat (va + vb))"
    using range_check_exists [OF assms(11)] by blast
  ultimately have "Withdraw H depth ?pub prv exit_bits"
    using assms(7,8) by (simp add: Withdraw_def total_value_def)
  then show ?thesis
    using prv(2,3) by (intro exI [of _ ?pub] exI [of _ prv] exI [of _ exit_bits]) simp
qed

section \<open>Forged membership\<close>

text \<open>
  The circuit does not keep a prover to the notes of the tree. A Merkle level constrains neither its
  sibling nor its index, so from one honest path of the tree, any two notes of one asset, which nobody
  ever deposited, are accepted as members under any key, and their whole value is withdrawn.
\<close>

theorem forged_notes_withdraw:
  assumes "MerkleProof H leaf (el # els) (ind # inds) = rt" "length els = depth" "length inds = depth"
    and "sg_value a = of_nat va" "sg_value b = of_nat vb" "va < 2 ^ 64" "vb < 2 ^ 64" "va + vb < 2 ^ 64"
    and "sg_asset a = sg_asset b"
    and "2 * note_cm H a \<noteq> leaf + el" "2 * note_cm H b \<noteq> leaf + el"
  shows "\<exists>pub prv exit_bits. Withdraw H (Suc depth) pub prv exit_bits \<and> cp_root pub = rt
    \<and> cw_in prv = [a, b] \<and> cw_key prv = key \<and> cp_exit pub = (of_nat (va + vb) :: 'f::field) \<and> cp_fee pub = 0"
proof -
  obtain ela inda where a: "MerkleProof H (note_cm H a) (ela # els) (inda # inds) = rt"
    using MerkleProof_replaced [OF assms(10), of H els inds ind] assms(1) by metis
  obtain elb indb where b: "MerkleProof H (note_cm H b) (elb # els) (indb # inds) = rt"
    using MerkleProof_replaced [OF assms(11), of H els inds ind] assms(1) by metis
  show ?thesis
    by (rule withdraw_satisfiable [OF a b]) (use assms in simp_all)
qed

section \<open>Keys and nullifiers\<close>

text \<open>
  An accepted transfer is accepted again under every other key: the key appears in the nullifiers
  alone and is not related to the owners of the inputs, so with the nullifiers of another key, which the
  pool has not seen, the same notes are spent a second time.
\<close>

theorem any_key_spends:
  assumes "Transfer H depth pub prv"
  shows "Transfer H depth (pub\<lparr>cp_nullifiers := map (\<lambda>n. H [k, note_cm H n]) (cw_in prv)\<rparr>) (prv\<lparr>cw_key := k\<rparr>)"
proof -
  have "length (cw_in prv) = 2"
    using assms by (simp add: Transfer_def two_in_two_out_def signal_shape_def)
  then obtain a b where "cw_in prv = [a, b]" by (auto simp: list_2)
  then show ?thesis
    using assms by (auto simp: Transfer_def two_in_two_out_def signal_shape_def two_slots input_spent_def output_made_def
        values_in_range_def one_asset_def NullifierV1_def Let_def)
qed

section \<open>Wealth\<close>


section \<open>A tree of two notes\<close>

text \<open>Over the rational numbers, with the sum as the hash: two notes, each the sibling of the other.\<close>

definition rat_hash :: "rat list \<Rightarrow> rat" where
  "rat_hash xs = sum_list xs + 1"

definition rat_note :: "nat \<Rightarrow> rat \<Rightarrow> rat note_signals" where
  "rat_note v blind = \<lparr>sg_owner = 4, sg_value = of_nat v, sg_asset = 0, sg_blinding = blind\<rparr>"

definition rat_root :: rat where
  "rat_root = rat_hash [note_cm rat_hash (rat_note 5 1), note_cm rat_hash (rat_note 7 2)]"

lemma rat_paths:
  "MerkleProof rat_hash (note_cm rat_hash (rat_note 5 1)) [note_cm rat_hash (rat_note 7 2)] [0] = rat_root"
  "MerkleProof rat_hash (note_cm rat_hash (rat_note 7 2)) [note_cm rat_hash (rat_note 5 1)] [1] = rat_root"
  by (simp_all add: rat_root_def)

lemma rat_note_simps [simp]: "sg_value (rat_note v blind) = of_nat v" "sg_asset (rat_note v blind) = 0"
  by (simp_all add: rat_note_def)

lemma withdraw_circuit_conserves_witness:
  "\<exists>pub prv exit_bits v0 v1 u0 u1 ex fee. Withdraw rat_hash 1 pub prv exit_bits \<and> cp_exit pub = 12
     \<and> v0 + v1 = u0 + u1 + ex + fee \<and> map sg_value (cw_in prv) = map (of_nat :: nat \<Rightarrow> rat) [v0, v1]
     \<and> cp_exit pub = of_nat ex"
proof -
  obtain pub prv bits where w: "Withdraw rat_hash 1 pub prv bits" "cp_exit pub = of_nat (5 + 7)"
    using withdraw_satisfiable [OF rat_paths, of 1 5 7 9] by auto
  have "wide_field TYPE(rat)" by simp
  from withdraw_circuit_conserves [OF this w(1)] obtain v0 v1 u0 u1 ex fee where
    "v0 + v1 = u0 + u1 + ex + fee" "map sg_value (cw_in prv) = map (of_nat :: nat \<Rightarrow> rat) [v0, v1]"
    "cp_exit pub = of_nat ex" by (elim exE conjE)
  moreover have "cp_exit pub = 12"
    using w(2) by simp
  ultimately show ?thesis
    using w(1) by blast
qed

lemma forged_notes_withdraw_witness:
  "\<exists>pub prv exit_bits. Withdraw rat_hash 1 pub prv exit_bits \<and> cp_root pub = rat_hash [0, 1]
     \<and> cw_in prv = [rat_note 5 1, rat_note 7 2] \<and> cp_exit pub = 12"
proof -
  have tree: "MerkleProof rat_hash 0 [1] [0] = rat_hash [0, 1]" by simp
  have "\<exists>pub prv exit_bits. Withdraw rat_hash (Suc 0) pub prv exit_bits \<and> cp_root pub = rat_hash [0, 1]
     \<and> cw_in prv = [rat_note 5 1, rat_note 7 2] \<and> cw_key prv = 9 \<and> cp_exit pub = of_nat (5 + 7) \<and> cp_fee pub = 0"
    by (rule forged_notes_withdraw [OF tree])
      (simp_all add: note_cm_def NoteCommitment_def rat_hash_def rat_note_def)
  then show ?thesis by auto
qed

lemma any_key_spends_witness:
  "\<exists>pub prv. Transfer rat_hash 1 pub prv \<and> cw_key prv = 9
     \<and> Transfer rat_hash 1 (pub\<lparr>cp_nullifiers := map (\<lambda>n. rat_hash [3, note_cm rat_hash n]) (cw_in prv)\<rparr>) (prv\<lparr>cw_key := 3\<rparr>)"
proof -
  let ?a = "rat_note 5 1" and ?b = "rat_note 7 2" and ?c = "rat_note 10 3" and ?d = "rat_note 1 4"
  let ?pub = "\<lparr>cp_root = rat_root, cp_nullifiers = [NullifierV1 rat_hash 9 (note_cm rat_hash ?a), NullifierV1 rat_hash 9 (note_cm rat_hash ?b)],
    cp_outputs = [note_cm rat_hash ?c, note_cm rat_hash ?d], cp_fee = 1\<rparr>"
  have "\<exists>prv. two_in_two_out rat_hash (NullifierV1 rat_hash) 1 ?pub prv \<and> cw_key prv = 9 \<and> cw_in prv = [?a, ?b] \<and> cw_out prv = [?c, ?d]"
    by (rule two_in_two_out_satisfiable [where pa = "[note_cm rat_hash ?b]" and ia = "[0]" and pb = "[note_cm rat_hash ?a]" and ib = "[1]"
          and va = 5 and vb = 7 and vc = 10 and vd = 1 and fee = 1])
      (simp_all add: rat_paths del: MerkleProof.simps)
  then obtain prv where "two_in_two_out rat_hash (NullifierV1 rat_hash) 1 ?pub prv" "cw_key prv = 9" "cw_in prv = [?a, ?b]"
    "cw_out prv = [?c, ?d]" by blast
  then have "Transfer rat_hash 1 ?pub prv" "cw_key prv = 9"
    by (simp_all add: Transfer_def total_value_def)
  with any_key_spends [OF this(1), of 3] show ?thesis by blast
qed


end
