(* ===== verification/Sdk_Wallet_Types.thy ===== *)
theory Sdk_Wallet_Types
  imports Sdk_Wallet_Session
begin

text \<open>
  The types of the wallet's values (sdk/typescript/src/types.ts): a hash is the text of a field
  element in 64 lower-case hexadecimal digits, and a stored note opens its commitment, that is, its
  commitment and its nullifier are those computed from its fields and the wallet's key.
\<close>

definition hash32 :: "string \<Rightarrow> bool" where
  "hash32 s \<longleftrightarrow> length s = 64 \<and> (case hexToField s of
     Inl e \<Rightarrow> False | Inr f \<Rightarrow> 0 \<le> f \<and> f < bn254_order \<and> fieldToHex f = s)"

definition note_opens :: "(int list \<Rightarrow> int) \<Rightarrow> Wallet \<Rightarrow> Note \<Rightarrow> bool" where
  "note_opens poseidon w n \<longleftrightarrow>
     computeCommitment poseidon n = Inr (commitment n) \<and> computeNullifier poseidon w n = Inr (nullifier n)"

definition wallet_opens :: "(int list \<Rightarrow> int) \<Rightarrow> Wallet \<Rightarrow> bool" where
  "wallet_opens poseidon w \<longleftrightarrow> list_all (note_opens poseidon w) (wnotes w)"

definition note_core :: "Note \<Rightarrow> string \<times> int \<times> string \<times> string \<times> string \<times> string" where
  "note_core n = (owner n, noteValue n, assetId n, blinding n, commitment n, nullifier n)"

lemma hash32_poseidon: "field_hash poseidon \<Longrightarrow> hash32 (poseidonHashHex poseidon xs)"
  using field_hash_range [of poseidon xs] hexToField_poseidonHashHex [of poseidon xs]
  by (simp add: hash32_def field_hash_def poseidonHashHex_def poseidonHash_def length_fieldToHex)

lemma note_opens_hashes: "field_hash poseidon \<Longrightarrow> note_opens poseidon w n \<Longrightarrow> hash32 (commitment n) \<and> hash32 (nullifier n)"
  using hash32_poseidon
  by (auto simp: note_opens_def computeCommitment_def computeNullifier_def bind_result_Inr_iff) metis+

lemma note_opens_core:
  "note_core n = note_core m \<Longrightarrow> spendingKey v = spendingKey w \<Longrightarrow> note_opens poseidon w n = note_opens poseidon v m"
  by (auto simp: note_opens_def note_core_def computeCommitment_def computeNullifier_def spendingKeyHex_def)

lemma note_opens_key: "spendingKey v = spendingKey w \<Longrightarrow> note_opens poseidon v = note_opens poseidon w"
  by (rule ext, rule note_opens_core) simp_all

lemma wallet_opens_core:
  assumes "map note_core (wnotes v) = map note_core (wnotes w)" "spendingKey v = spendingKey w"
  shows "wallet_opens poseidon v = wallet_opens poseidon w"
proof -
  have "length (wnotes v) = length (wnotes w)"
    using assms(1) map_eq_imp_length_eq by blast
  moreover have "note_opens poseidon v (wnotes v ! i) = note_opens poseidon w (wnotes w ! i)"
    if "i < length (wnotes w)" for i
    using arg_cong [OF assms(1), of "\<lambda>xs. xs ! i"] that calculation assms(2)
    by (intro note_opens_core) auto
  ultimately show ?thesis
    by (simp add: wallet_opens_def list_all_length)
qed

lemma core_updates [simp]:
  "note_core (n\<lparr>pending := p\<rparr>) = note_core n" "note_core (n\<lparr>spent := b\<rparr>) = note_core n"
  by (simp_all add: note_core_def)

lemma core_lockNotes: "\<forall>i \<in> set ix. i < length (wnotes w) \<Longrightarrow> map note_core (wnotes (lockNotes ix w)) = map note_core (wnotes w)"
  by (rule map_lockNotes) simp_all

lemma wallet_opens_marks:
  "wallet_opens poseidon (markSpent ns w) = wallet_opens poseidon w"
  "wallet_opens poseidon (unlockNotes ns w) = wallet_opens poseidon w"
  by (rule wallet_opens_core, simp_all add: markSpent_def unlockNotes_def Let_def)+

lemma wallet_opens_deposit:
  assumes "wallet_opens poseidon w" "createDepositNote poseidon now amount w = (w', Inr n)"
  shows "wallet_opens poseidon w'"
proof -
  have "note_opens poseidon w n"
    by (rule createDepositNote_form [OF assms(2)]) (simp add: note_opens_def)
  moreover note dep = createDepositNote_cases [OF assms(2)]
  ultimately show ?thesis
    using assms(1) note_opens_key [OF dep(2)] by (simp add: wallet_opens_def)
qed

lemma incoming_note_opens:
  "incoming_note poseidon w leaf pt = Inr n \<Longrightarrow> note_opens poseidon w n"
  by (auto simp: incoming_note_def note_opens_def computeCommitment_def computeNullifier_def Let_def bind_result_Inr_iff)

lemma wallet_opens_loop:
  assumes "fetch_loop poseidon decrypt its ex d w = (w', res)" "wallet_opens poseidon w"
  shows "wallet_opens poseidon w'"
  using assms
proof (induction poseidon decrypt its ex d w arbitrary: w' res rule: fetch_loop.induct)
  case (2 poseidon decrypt it its ex d w)
  let ?w1 = "advance_watermark it w"
  have w1: "wallet_opens poseidon ?w1"
    using 2 wallet_opens_core [of ?w1 w poseidon] by (simp add: wallet_simps)
  have more: "wallet_opens poseidon (?w1\<lparr>wnotes := wnotes ?w1 @ [n]\<rparr>)"
    if "incoming_note poseidon ?w1 (js_leafIndex it) pt = Inr n" for pt n
    using w1 incoming_note_opens [OF that] note_opens_key [of "?w1\<lparr>wnotes := wnotes ?w1 @ [n]\<rparr>" ?w1 poseidon]
    by (simp add: wallet_opens_def)
  show ?case
    using "2.prems"(1) w1 more "2.IH"
    by (auto simp: Let_def split: if_splits option.splits sum.splits)
qed simp

lemma wallet_opens_fetch:
  "fetchIncomingNotes poseidon decrypt http w = (w', res) \<Longrightarrow> wallet_opens poseidon w \<Longrightarrow> wallet_opens poseidon w'"
  using wallet_opens_loop by (fastforce simp: fetchIncomingNotes_def split: http_response.splits option.splits if_splits)

lemma wallet_opens_prepare:
  assumes "wallet_opens poseidon w" "wnotes w' = wnotes (lockNotes ix w)" "spendingKey w' = spendingKey w" "covers w amount ix"
  shows "wallet_opens poseidon w'"
  using assms(1) wallet_opens_core [of w' w poseidon] core_lockNotes [of ix w] assms(2-4) by (simp add: covers_def)

interpretation wallet_types: invariant_system session_init "wallet_step poseidon" "\<lambda>s. wallet_opens poseidon (wal s)"
  for poseidon
proof
  show "wallet_opens poseidon (wal s)" if "session_init s" for s
    using that by (simp add: session_init_def wallet_opens_def)
  show "wallet_opens poseidon (wal t)" if "wallet_opens poseidon (wal s)" "wallet_step poseidon s t" for s t
    using that(2,1)
  proof cases
    case (transfer r amount fee ix now rcp w' res)
    then obtain jx where "wnotes w' = wnotes (lockNotes jx (wal s))" "spendingKey w' = spendingKey (wal s)"
      "covers (wal s) (amount + fee) jx"
      by (cases res) (auto elim: prepareTransfer_cases)
    then show ?thesis
      using transfer that(1) wallet_opens_prepare by simp
  next
    case (withdraw r amount fee ix now w' res)
    then obtain jx where "wnotes w' = wnotes (lockNotes jx (wal s))" "spendingKey w' = spendingKey (wal s)"
      "covers (wal s) (amount + fee) jx"
      by (cases res) (auto elim: prepareWithdraw_cases)
    then show ?thesis
      using withdraw that(1) wallet_opens_prepare by simp
  qed (auto simp: wallet_opens_marks intro: wallet_opens_deposit wallet_opens_fetch)
qed

text \<open>
  C22. Every note of a wallet is what its type says, in every reachable state: its commitment and its
  nullifier are 64 hexadecimal digits of a field element, and they are the commitment and the
  nullifier computed from the note's own fields and the wallet's key, so every note held opens.
\<close>

theorem wallet_notes_open:
  assumes "field_hash poseidon" "reachable session_init (wallet_step poseidon) s" "n \<in> set (wnotes (wal s))"
  shows "hash32 (commitment n) \<and> hash32 (nullifier n)
    \<and> computeCommitment poseidon n = Inr (commitment n) \<and> computeNullifier poseidon (wal s) n = Inr (nullifier n)"
proof -
  have "note_opens poseidon (wal s) n"
    using wallet_types.reachable_inv [OF assms(2)] assms(3) by (auto simp: wallet_opens_def list_all_iff)
  then show ?thesis
    using note_opens_hashes [OF assms(1)] by (auto simp: note_opens_def)
qed

lemma wallet_notes_open_witness:
  "\<exists>s n. reachable session_init (wallet_step sample_hash) s \<and> n \<in> set (wnotes (wal s)) \<and> noteValue n = 12 \<and> hash32 (nullifier n)"
proof -
  obtain w n where w: "createDepositNote sample_hash 0 12 (wal fresh_session) = (w, Inr n)"
    using createDepositNote_returns [OF fresh_session_key field_hash_sample] by blast
  have fresh: "wnotes (wal fresh_session) = []"
    by (simp add: fresh_session_def newWallet_def)
  have "session_init fresh_session"
    by (simp add: session_init_def fresh_session_def newWallet_def)
  moreover have "wallet_step sample_hash fresh_session (fresh_session\<lparr>wal := w\<rparr>)"
    by (rule wallet_step.deposit [OF w]) (simp add: fresh)
  ultimately have reach: "reachable session_init (wallet_step sample_hash) (fresh_session\<lparr>wal := w\<rparr>)"
    by (blast intro: reach_init reach_step)
  have n: "n \<in> set (wnotes (wal (fresh_session\<lparr>wal := w\<rparr>)))" "noteValue n = 12"
    using createDepositNote_cases(1,4) [OF w] by simp_all
  show ?thesis
    using wallet_notes_open [OF field_hash_sample reach n(1)] reach n by blast
qed

end
