(* ===== verification/Circuit_Wallet.thy ===== *)
theory Circuit_Wallet
  imports Circuit_Soundness Sdk_Wallet_Types
begin

text \<open>
  The wallet against the circuits. A field element of the SDK is its integer in the field of the
  circuit; circomlibjs and circomlib compute the same Poseidon, which is the hypothesis \<open>same_hash\<close>.
\<close>

definition same_hash :: "(int list \<Rightarrow> int) \<Rightarrow> ('f::field list \<Rightarrow> 'f) \<Rightarrow> bool" where
  "same_hash poseidon H \<longleftrightarrow> (\<forall>xs. H (map of_int xs) = of_int (poseidon xs))"

text \<open>The signals of a note, read from its hexadecimal fields as the circuit's witness program does.\<close>

definition circuit_note :: "Note \<Rightarrow> js_error + 'f::field note_signals" where
  "circuit_note n =
     bind_result (hexToField (owner n)) (\<lambda>ow.
     bind_result (hexToField (assetId n)) (\<lambda>asset.
     bind_result (hexToField (blinding n)) (\<lambda>bl.
       Inr \<lparr>sg_owner = of_int ow, sg_value = of_int (noteValue n), sg_asset = of_int asset, sg_blinding = of_int bl\<rparr>)))"

lemma circuit_note_commits:
  assumes "same_hash poseidon (H :: 'f::field list \<Rightarrow> 'f)" "field_hash poseidon" "computeCommitment poseidon n = Inr c"
  shows "\<exists>s cm. circuit_note n = Inr s \<and> hexToField c = Inr cm \<and> c = fieldToHex cm \<and> note_cm H s = of_int cm
    \<and> sg_value s = of_int (noteValue n)"
proof -
  obtain ow asset bl where f: "hexToField (owner n) = Inr ow" "hexToField (assetId n) = Inr asset"
    "hexToField (blinding n) = Inr bl" and c: "c = poseidonHashHex poseidon [ow, noteValue n, asset, bl]"
    using assms(3) by (auto simp: computeCommitment_def bind_result_Inr_iff)
  have "H [of_int ow, of_int (noteValue n), of_int asset, of_int bl] = of_int (poseidon [ow, noteValue n, asset, bl])"
    using assms(1)[unfolded same_hash_def, rule_format, of "[ow, noteValue n, asset, bl]"] by simp
  then show ?thesis
    using c hexToField_poseidonHashHex [OF assms(2)]
    by (simp add: circuit_note_def f note_cm_def NoteCommitment_def poseidonHashHex_def poseidonHash_def)
qed

lemma circuit_note_nullifies:
  assumes "same_hash poseidon (H :: 'f::field list \<Rightarrow> 'f)" "field_hash poseidon" "spendingKey w \<noteq> []"
    and "computeNullifier poseidon w n = Inr nf" "hexToField (commitment n) = Inr cm"
  shows "\<exists>nv. hexToField nf = Inr nv \<and> NullifierV1 H (of_int (key_field w)) (of_int cm) = of_int nv"
proof -
  have "H [of_int (key_field w), of_int cm] = of_int (poseidon [key_field w, cm])"
    using assms(1)[unfolded same_hash_def, rule_format, of "[key_field w, cm]"] by simp
  moreover have "nf = poseidonHashHex poseidon [key_field w, cm]"
    using assms(3-5) by (auto simp: computeNullifier_def hexToField_key bind_result_Inr_iff)
  ultimately show ?thesis
    using hexToField_poseidonHashHex [OF assms(2)] by (simp add: NullifierV1_def)
qed

section \<open>Prepared transfers\<close>

lemma prepared_outputs:
  assumes "prepareTransfer poseidon now r rcp amount fee w = (w', Inr (ins, outs))" "spendingKey w \<noteq> []"
    and "n \<in> set outs"
  shows "blinding n \<in> range (poseidonHashHex poseidon)" "owner n = rcp \<or> owner n = spendingKeyHex w"
  using assms
  by (auto simp: prepareTransfer_def Let_def eff_bind_def deriveBlinding_eq change_notes_eq wallet_simps output_note_def
      spendingKeyHex_def split: sum.splits if_splits)

lemma prepared_inputs:
  assumes "prepareTransfer poseidon now r rcp amount fee w = (w', Inr (ins, outs))" "wallet_opens poseidon w" "n \<in> set ins"
  shows "note_opens poseidon w n"
  using assms(1)
proof (rule prepareTransfer_cases)
  fix ix
  assume cov: "covers w (amount + fee) ix" and w': "wnotes w' = wnotes (lockNotes ix w)" "spendingKey w' = spendingKey w"
    and ins: "ins = map (\<lambda>i. wnotes (lockNotes ix w) ! i) ix"
  obtain i where "i \<in> set ix" "n = wnotes w' ! i"
    using assms(3) ins w' by auto
  moreover from this have "i < length (wnotes w')"
    using cov w' by (auto simp: covers_def wallet_simps)
  ultimately have "note_opens poseidon w' n"
    using wallet_opens_prepare [OF assms(2) w' cov] by (simp add: wallet_opens_def list_all_length)
  then show ?thesis
    by (simp add: note_opens_key [OF w'(2)])
qed

lemma poseidon_text: "field_hash poseidon \<Longrightarrow> s \<in> range (poseidonHashHex poseidon) \<Longrightarrow> \<exists>v. hexToField s = Inr v"
  using hexToField_poseidonHashHex by auto

text \<open>
  C4. The transfer circuit accepts what the wallet prepares: when a transfer of the wallet has two inputs of one
  asset and a change output, its inputs are leaves under the root, the recipient is a field element and
  the values are 64-bit, private signals exist that satisfy the circuit for the nullifiers stored in the
  input notes, the commitments of the two output notes and the fee the wallet was asked for.
\<close>

theorem prepared_transfer_accepted:
  fixes H :: "'f::field list \<Rightarrow> 'f"
  assumes "same_hash poseidon H" "field_hash poseidon" "spendingKey w \<noteq> []" "wallet_opens poseidon w"
    and "prepareTransfer poseidon now r rcp amount fee w = (w', Inr ([a, b], [c, d]))"
    and "hexToField (commitment a) = Inr ca" "MerkleProof H (of_int ca) pa ia = rt"
    and "hexToField (commitment b) = Inr cb" "MerkleProof H (of_int cb) pb ib = rt"
    and "length pa = depth" "length ia = depth" "length pb = depth" "length ib = depth"
    and "hexToField rcp = Inr rv" "assetId b = assetId a"
    and "0 \<le> fee" "fee < 2 ^ 64" "\<forall>n \<in> {a, b, c, d}. 0 \<le> noteValue n \<and> noteValue n < 2 ^ 64"
  shows "\<exists>pub prv na nb cc cd. Transfer H depth pub prv \<and> cp_root pub = rt \<and> cp_fee pub = of_int fee
    \<and> hexToField (nullifier a) = Inr na \<and> hexToField (nullifier b) = Inr nb \<and> cp_nullifiers pub = [of_int na, of_int nb]
    \<and> computeCommitment poseidon c = Inr (fieldToHex cc) \<and> computeCommitment poseidon d = Inr (fieldToHex cd)
    \<and> cp_outputs pub = [of_int cc, of_int cd]"
proof -
  have opens: "note_opens poseidon w a" "note_opens poseidon w b"
    using prepared_inputs [OF assms(5,4)] by simp_all
  obtain sa where sa: "circuit_note a = Inr sa" "note_cm H sa = of_int ca" "sg_value sa = of_int (noteValue a)"
    using circuit_note_commits [OF assms(1,2)] opens(1) assms(6) unfolding note_opens_def by fastforce
  obtain sb where sb: "circuit_note b = Inr sb" "note_cm H sb = of_int cb" "sg_value sb = of_int (noteValue b)"
    using circuit_note_commits [OF assms(1,2)] opens(2) assms(8) unfolding note_opens_def by fastforce
  obtain na nb where nf: "hexToField (nullifier a) = Inr na" "NullifierV1 H (of_int (key_field w)) (of_int ca) = of_int na"
      "hexToField (nullifier b) = Inr nb" "NullifierV1 H (of_int (key_field w)) (of_int cb) = of_int nb"
    using circuit_note_nullifies [OF assms(1-3)] opens assms(6,8) unfolding note_opens_def by metis
  have "\<forall>n \<in> set [c, d]. assetId n = assetId (hd [a, b])"
    by (rule prepareTransfer_cases [OF assms(5)])
  then have asset: "assetId c = assetId a" "assetId d = assetId a" by simp_all
  have out: "\<exists>s cm. circuit_note n = Inr s \<and> computeCommitment poseidon n = Inr (fieldToHex cm) \<and> note_cm H s = of_int cm
      \<and> sg_value s = of_int (noteValue n)" if "n \<in> {c, d}" for n
  proof -
    have "\<exists>v. hexToField (assetId n) = Inr v"
      using sa(1) asset that by (auto simp: circuit_note_def bind_result_Inr_iff)
    moreover have "\<exists>v. hexToField (blinding n) = Inr v" "\<exists>v. hexToField (owner n) = Inr v"
      using prepared_outputs [OF assms(5,3), of n] poseidon_text [OF assms(2)] assms(14) hexToField_key [OF assms(3)] that
      by auto
    ultimately obtain cm where "computeCommitment poseidon n = Inr cm"
      by (auto simp: computeCommitment_def)
    with circuit_note_commits [OF assms(1,2) this] show ?thesis by auto
  qed
  obtain sc cc where sc: "circuit_note c = Inr sc" "computeCommitment poseidon c = Inr (fieldToHex cc)"
      "note_cm H sc = of_int cc" "sg_value sc = of_int (noteValue c)"
    using out [of c] by auto
  obtain sd cd where sd: "circuit_note d = Inr sd" "computeCommitment poseidon d = Inr (fieldToHex cd)"
      "note_cm H sd = of_int cd" "sg_value sd = of_int (noteValue d)"
    using out [of d] by auto
  let ?pub = "\<lparr>cp_root = rt, cp_nullifiers = [of_int na, of_int nb], cp_outputs = [of_int cc, of_int cd], cp_fee = of_int fee\<rparr>"
  have "\<exists>prv. two_in_two_out H (NullifierV1 H) depth ?pub prv \<and> cw_key prv = of_int (key_field w) \<and> cw_in prv = [sa, sb]
      \<and> cw_out prv = [sc, sd]"
  proof (rule two_in_two_out_satisfiable [where pa = pa and ia = ia and pb = pb and ib = ib and va = "nat (noteValue a)"
        and vb = "nat (noteValue b)" and vc = "nat (noteValue c)" and vd = "nat (noteValue d)" and fee = "nat fee"])
    show "map sg_value [sa, sb, sc, sd] = map of_nat [nat (noteValue a), nat (noteValue b), nat (noteValue c), nat (noteValue d)]"
      using assms(18) by (simp add: sa sb sc sd)
    show "\<forall>v \<in> {nat (noteValue a), nat (noteValue b), nat (noteValue c), nat (noteValue d), nat fee}. v < 2 ^ 64"
      using assms(16-18) by (simp add: nat_less_iff)
    show "\<forall>n \<in> {sb, sc, sd}. sg_asset n = sg_asset sa"
      using sa(1) sb(1) sc(1) sd(1) asset assms(15) by (auto simp: circuit_note_def bind_result_Inr_iff)
  qed (use assms in \<open>simp_all add: sa sb sc sd nf\<close>)
  then obtain prv where prv: "two_in_two_out H (NullifierV1 H) depth ?pub prv" "cw_in prv = [sa, sb]" "cw_out prv = [sc, sd]"
    by blast
  have "\<exists>ix. sum_list (map noteValue [a, b]) = note_sum w ix \<and> sum_list (map noteValue [c, d]) = note_sum w ix - fee"
    by (rule prepareTransfer_cases [OF assms(5)]) blast
  then have "noteValue a + noteValue b = noteValue c + noteValue d + fee"
    by auto
  then have "total_value (cw_in prv) = total_value (cw_out prv) + cp_fee ?pub"
    by (simp add: prv total_value_def sa sb sc sd flip: of_int_add)
  with prv(1) have "Transfer H depth ?pub prv"
    by (simp add: Transfer_def)
  then show ?thesis
    using nf(1,3) sc(2) sd(2)
    by (intro exI [of _ ?pub] exI [of _ prv] exI [of _ na] exI [of _ nb] exI [of _ cc] exI [of _ cd]) simp
qed

section \<open>A wallet of two notes\<close>

definition rat_sample_hash :: "rat list \<Rightarrow> rat" where
  "rat_sample_hash xs = of_int (sample_hash (map floor xs))"

lemma same_hash_sample: "same_hash sample_hash rat_sample_hash"
  by (simp add: same_hash_def rat_sample_hash_def comp_def)

lemma wallet_of_two:
  obtains w a b where "wallet_opens sample_hash w" "spendingKey w = [1]" "wnotes w = [a, b]" "noteValue a = 5" "noteValue b = 7"
    "assetId a = zero_hash" "assetId b = zero_hash" "spendable a" "spendable b"
proof -
  let ?w = "newWallet [1]"
  have w: "spendingKey ?w \<noteq> []" "wallet_opens sample_hash ?w"
    by (simp_all add: newWallet_def wallet_opens_def)
  obtain w1 a where a: "createDepositNote sample_hash 0 5 ?w = (w1, Inr a)"
    using createDepositNote_returns [OF w(1) field_hash_sample] by blast
  then have "spendingKey w1 \<noteq> []"
    using w(1) createDepositNote_cases(2) by metis
  then obtain w2 b where b: "createDepositNote sample_hash 0 7 w1 = (w2, Inr b)"
    using createDepositNote_returns [OF _ field_hash_sample] by blast
  have asset: "assetId a = zero_hash" "assetId b = zero_hash"
    by (rule createDepositNote_form [OF a], simp) (rule createDepositNote_form [OF b], simp)
  show thesis
    by (rule that [of w2 a b])
      (use wallet_opens_deposit [OF wallet_opens_deposit [OF w(2) a] b] createDepositNote_cases [OF a] createDepositNote_cases [OF b]
        asset in \<open>simp_all add: newWallet_def spendable_def\<close>)
qed

lemma prepared_two:
  assumes "wnotes w = [a0, b0]" "noteValue a0 = 5" "noteValue b0 = 7" "assetId a0 = zero_hash" "assetId b0 = zero_hash"
    and "spendable a0" "spendable b0" "spendingKey w = [1]"
  obtains w' a b c d where "prepareTransfer poseidon 0 0 ''05'' 10 1 w = (w', Inr ([a, b], [c, d]))"
    "assetId a = zero_hash" "assetId b = zero_hash" "{noteValue a, noteValue b, noteValue c, noteValue d} \<subseteq> {5, 7, 10, 1}"
proof -
  have "covers w (10 + 1) [0, 1]"
    using assms by (simp add: covers_def note_sum_def less_Suc_eq)
  then obtain w' ins outs where p: "prepareTransfer poseidon 0 0 ''05'' 10 1 w = (w', Inr (ins, outs))"
    using prepareTransfer_returns [of w 10 1 "[0, 1]"] assms(8) by fastforce
  have len: "length outs \<le> 2"
    using p assms(8) by (auto simp: prepareTransfer_def Let_def eff_bind_def deriveBlinding_eq change_notes_eq wallet_simps
        split: sum.splits if_splits)
  have "(\<exists>ix. covers w (10 + 1) ix \<and> ins = map (\<lambda>i. wnotes (lockNotes ix w) ! i) ix
      \<and> sum_list (map noteValue outs) = note_sum w ix - 1) \<and> outs \<noteq> [] \<and> noteValue (hd outs) = 10"
    by (rule prepareTransfer_cases [OF p]) blast
  then obtain ix where ix: "covers w (10 + 1) ix" "ins = map (\<lambda>i. wnotes (lockNotes ix w) ! i) ix"
    and out: "sum_list (map noteValue outs) = note_sum w ix - 1" "outs \<noteq> []" "noteValue (hd outs) = 10" by blast
  have "ix = [0, 1] \<or> ix = [1, 0]"
    using ix(1) assms(1-3) by (auto simp: covers_def note_sum_def less_Suc_eq length_Suc_conv numeral_2_eq_2)
  moreover from this have "sum_list (map noteValue outs) = 11"
    using out(1) assms(1-3) by (auto simp: note_sum_def)
  moreover obtain c d where "outs = [c, d]"
    using len out(2,3) calculation(2) by (cases outs; cases "tl outs") auto
  ultimately show thesis
    using p out(3) ix(2) assms(1-5)
    by (intro that [of w' "ins ! 0" "ins ! 1" c d]) (auto simp: nth_lockNotes)
qed

lemma prepared_transfer_accepted_witness:
  "\<exists>w w' ins outs pub prv. prepareTransfer sample_hash 0 0 ''05'' 10 1 w = (w', Inr (ins, outs)) \<and> length ins = 2
     \<and> length outs = 2 \<and> Transfer rat_sample_hash 1 pub prv \<and> cp_fee pub = 1"
proof -
  obtain w a0 b0 where w: "wallet_opens sample_hash w" "spendingKey w = [1]" "wnotes w = [a0, b0]" "noteValue a0 = 5"
    "noteValue b0 = 7" "assetId a0 = zero_hash" "assetId b0 = zero_hash" "spendable a0" "spendable b0"
    by (rule wallet_of_two)
  obtain w' a b c d where p: "prepareTransfer sample_hash 0 0 ''05'' 10 1 w = (w', Inr ([a, b], [c, d]))"
    "assetId a = zero_hash" "assetId b = zero_hash" "{noteValue a, noteValue b, noteValue c, noteValue d} \<subseteq> {5, 7, 10, 1}"
    by (rule prepared_two [OF w(3-9,2)])
  have "note_opens sample_hash w a" "note_opens sample_hash w b"
    using prepared_inputs [OF p(1) w(1)] by simp_all
  then obtain ca cb where cm: "hexToField (commitment a) = Inr ca" "hexToField (commitment b) = Inr cb"
    using circuit_note_commits [OF same_hash_sample field_hash_sample] unfolding note_opens_def by blast
  have path: "MerkleProof rat_sample_hash (of_int ca) [of_int cb] [0] = rat_sample_hash [of_int ca, of_int cb]"
    "MerkleProof rat_sample_hash (of_int cb) [of_int ca] [1] = rat_sample_hash [of_int ca, of_int cb]"
    by simp_all
  have "v \<in> {5, 7, 10, 1} \<Longrightarrow> 0 \<le> v \<and> v < 2 ^ 64" for v :: int
    by auto
  then have "\<forall>n \<in> {a, b, c, d}. 0 \<le> noteValue n \<and> noteValue n < 2 ^ 64"
    using p(4) by (intro ballI) blast
  moreover have "hexToField ''05'' = Inr 5"
    by code_simp
  moreover have "spendingKey w \<noteq> []" "assetId b = assetId a"
    using w(2) p(2,3) by simp_all
  ultimately obtain pub prv where "Transfer rat_sample_hash 1 pub prv" "cp_fee pub = of_int 1"
    using prepared_transfer_accepted [OF same_hash_sample field_hash_sample _ w(1) p(1) cm(1) path(1) cm(2) path(2), of 1 5]
    by auto
  with p(1) show ?thesis
    by (intro exI [of _ w] exI [of _ w'] exI [of _ "[a, b]"] exI [of _ "[c, d]"] exI [of _ pub] exI [of _ prv]) simp
qed

end
