(* ===== verification/Circuit_Stealth.thy ===== *)
theory Circuit_Stealth
  imports Circuits
begin

text \<open>
  The stealth derivation of the SDK (sdk/typescript/src/stealth.ts) against the template \<open>StealthECDH\<close>
  of circuits/lib/common.circom, over one curve.
\<close>

text \<open>
  C25. The SDK and the stealth circuit derive the same address: for a recipient whose viewing key is a point of
  the curve, whatever \<open>stealthSend\<close> returns is a solution of the ECDH constraints, its ephemeral key
  being the scalar, its ephemeral public key the published point, and its shared secret and one-time
  owner the outputs of the template; and the template has no other output for that scalar.
\<close>

theorem stealth_address_agrees:
  assumes "curve_ok C" "1 < subOrder C" "subOrder C \<le> 2 ^ 253"
    and "viewingPubkey meta = point_hex C V" "on_baby_jubjub V" "stealthSend C bytes meta = Inr r"
  shows "\<exists>k sp. ephemeralKey r = fieldToHex k \<and> hexToFieldBjj C (spendingPubkey meta) = Inr (sp :: 'f::field)
    \<and> (\<forall>R ss own. StealthECDH C k (of_int k) V sp R ss own \<longleftrightarrow>
         ephemeralPubkey r = point_hex C R \<and> sharedSecret r = field_hex C ss \<and> stealthOwner r = field_hex C own)"
  using assms(1,2,4,6)
proof (rule stealthSend_form)
  fix s sp
  let ?S = "mulPoint C V s"
  let ?ss = "poseidonF C [fst ?S, snd ?S]"
  assume s: "0 < s" "s < subOrder C" "hexToFieldBjj C (spendingPubkey meta) = Inr sp" "ephemeralKey r = fieldToHex s"
    and r: "ephemeralPubkey r = point_hex C (mulPoint C (base8 C) s)" "sharedSecret r = field_hex C ?ss"
      "stealthOwner r = field_hex C (poseidonF C [sp, ?ss])"
  have inj: "field_hex C x = field_hex C y \<longleftrightarrow> x = y" for x y
    using hexToFieldBjj_field_hex [OF assms(1)] by (metis sum.inject(2))
  have pinj: "point_hex C P = point_hex C Q \<longleftrightarrow> P = Q" for P Q
    using point_of_point_hex [OF assms(1)] by (metis option.inject)
  have "StealthECDH C s (of_int s) V sp R ss own \<longleftrightarrow>
         ephemeralPubkey r = point_hex C R \<and> sharedSecret r = field_hex C ss \<and> stealthOwner r = field_hex C own" for R ss own
    using s(1,2) assms(3,5) by (auto simp: StealthECDH_def r inj pinj Let_def)
  with s(3,4) show ?thesis by blast
qed

section \<open>A curve over two elements\<close>

text \<open>The field of two elements of the library, and a multiplication that scales both coordinates.\<close>

definition gf2_curve :: "Enum.finite_2 curve" where
  "gf2_curve = \<lparr>mulPoint = (\<lambda>(x, y) k. if even k then (0, 0) else (x, y)), base8 = (0, 1), subOrder = 7,
     toObject = (\<lambda>x. if x = 0 then 0 else 1), fe = (\<lambda>k. if even k then 0 else 1), poseidonF = (\<lambda>xs. sum_list xs + 1)\<rparr>"

lemma gf2_cases: "x = 0 \<or> x = (1 :: Enum.finite_2)"
  by (cases x) (simp_all add: zero_finite_2_def one_finite_2_def)

lemma gf2_curve_ok: "curve_ok gf2_curve"
proof -
  have "(if even (if x = 0 then 0 else 1 :: int) then 0 else 1) = (x :: Enum.finite_2)" for x
    using gf2_cases [of x] by auto
  then show ?thesis
    by (auto simp: curve_ok_def gf2_curve_def)
qed

lemma stealth_address_agrees_witness:
  "\<exists>r k R ss own. stealthSend gf2_curve (replicate 32 9)
       \<lparr>spendingPubkey = ''01'', viewingPubkey = point_hex gf2_curve (1, 1)\<rparr> = Inr r
     \<and> StealthECDH gf2_curve k (of_int k) (1, 1) 1 R ss own \<and> stealthOwner r = field_hex gf2_curve own"
proof -
  let ?meta = "\<lparr>spendingPubkey = ''01'', viewingPubkey = point_hex gf2_curve (1, 1)\<rparr>"
  have sp: "hexToFieldBjj gf2_curve ''01'' = Inr 1"
    by code_simp
  obtain e where "scalar_of_bytes gf2_curve (replicate 32 9) = Inr e"
    using scalar_returns [of "replicate 32 9" gf2_curve] by auto
  then obtain r where r: "stealthSend gf2_curve (replicate 32 9) ?meta = Inr r"
    using sp by (simp add: stealthSend_def Let_def point_hex_def field_hex_eq [symmetric] gf2_curve_ok)
  have pre: "1 < subOrder gf2_curve" "subOrder gf2_curve \<le> 2 ^ 253" "viewingPubkey ?meta = point_hex gf2_curve (1, 1)"
    by (simp_all add: gf2_curve_def)
  have "on_baby_jubjub (1, 1 :: Enum.finite_2)"
    by code_simp
  from stealth_address_agrees [OF gf2_curve_ok pre this r] obtain k where k:
    "\<forall>R ss own. StealthECDH gf2_curve k (of_int k) (1, 1) 1 R ss own \<longleftrightarrow>
       ephemeralPubkey r = point_hex gf2_curve R \<and> sharedSecret r = field_hex gf2_curve ss \<and> stealthOwner r = field_hex gf2_curve own"
    using sp by auto
  obtain s sp' where "ephemeralPubkey r = point_hex gf2_curve (mulPoint gf2_curve (base8 gf2_curve) s)"
    "sharedSecret r = field_hex gf2_curve (poseidonF gf2_curve [fst (mulPoint gf2_curve (1, 1) s), snd (mulPoint gf2_curve (1, 1) s)])"
    "stealthOwner r = field_hex gf2_curve (poseidonF gf2_curve [sp', poseidonF gf2_curve [fst (mulPoint gf2_curve (1, 1) s), snd (mulPoint gf2_curve (1, 1) s)]])"
    by (rule stealthSend_form [OF gf2_curve_ok pre(1,3) r])
  with k r show ?thesis by blast
qed

end
