(* ===== verification/Evm_Base.thy ===== *)
theory Evm_Base
  imports Byte_Codec
begin

text \<open>
  contracts/evm: what the Solidity contracts share. A call that reverts leaves no trace, so a call
  is a function to \<open>revert + state\<close>, \<open>Inl\<close> the error. Arithmetic is checked: an operation that
  overflows its width is a \<open>Panic\<close>. SHA-256, the token and the precompiled contracts are arguments.
\<close>

section \<open>Values\<close>

type_synonym address = "160 word"
type_synonym bytes32 = "256 word"
type_synonym hash_fun = "byte list \<Rightarrow> bytes32"

text \<open>\<open>abi.encodePacked\<close> of one integer or \<open>bytes32\<close>: its bytes, most significant first.\<close>

definition packed :: "'a::len word \<Rightarrow> byte list" where
  "packed w = rev (le_bytes (LENGTH('a) div 8) (unat w))"

definition sha_pair :: "hash_fun \<Rightarrow> bytes32 \<Rightarrow> bytes32 \<Rightarrow> bytes32" where
  "sha_pair sha a b = sha (packed a @ packed b)"

lemma length_packed [simp]: "length (packed (w :: 'a::len word)) = LENGTH('a) div 8"
  by (simp add: packed_def)

lemma be_value_packed:
  assumes "8 dvd LENGTH('a)"
  shows "be_value (packed (w :: 'a::len word)) = unat w"
proof -
  have "(256 :: nat) ^ (LENGTH('a) div 8) = 2 ^ (8 * (LENGTH('a) div 8))"
    by (simp add: power_mult)
  also have "\<dots> = 2 ^ LENGTH('a)"
    using assms by simp
  finally have "unat w < 256 ^ (LENGTH('a) div 8)"
    using unsigned_less [of w] by simp
  then show ?thesis
    by (simp add: packed_def be_value_def le_value_le_bytes_mod)
qed

interpretation packed32: fixed_codec packed "\<lambda>bs. Some (word_of_nat (be_value bs))" "\<lambda>_ :: bytes32. True" 32
  by unfold_locales (simp_all add: be_value_packed)

text \<open>\<open>int64(int256(block.timestamp))\<close> keeps the low 64 bits.\<close>

definition time64 :: "256 word \<Rightarrow> 64 word" where
  "time64 timestamp = ucast timestamp"

section \<open>Reverts\<close>

text \<open>
  One constructor for each error selector: two contracts that declare an error of the same signature
  revert with the same data. \<open>TokenReverted\<close> is any failure of the token, \<open>EmptyRevert\<close> a revert without data.
\<close>

datatype revert =
    Panic
  | EmptyRevert
  | TokenReverted
  | OwnableUnauthorizedAccount address
  | OwnableInvalidOwner address
  | PoolPaused
  | ZeroAmount
  | EncryptedNoteTooLarge
  | TreeFull
  | UnknownMerkleRoot
  | RootIntegrityMismatch
  | InsufficientPoolBalance
  | CommitmentBridgeLocked
  | MissingEncryptedNote
  | NullifierAlreadySpent
  | Unauthorized
  | PageNotInitialized
  | AlreadyInitialized
  | VkAlreadyInitialized
  | VkNotInitialized
  | TooManyIcPoints
  | PublicInputCountMismatch
  | EcAddFailed
  | EcMulFailed
  | PairingFailed
  | ProofVerificationFailed
  | BridgeInactive
  | CannotReceiveOwnChain
  | CannotBridgeToSelf
  | InvalidMerkleProof
  | UntrustedPeer
  | CommitmentAlreadyLocked
  | TooManyOracles
  | OracleInactive
  | NotDiscloser
  | AlreadyRevoked
  | ThresholdMismatch
  | OracleLacksPermission
  | ComplianceModeDisallows
  | ProofInvalidated
  | ProofExpired
  | InvalidExpiry

type_synonym 'a outcome = "revert + 'a"

definition require_else :: "bool \<Rightarrow> revert \<Rightarrow> 'a outcome \<Rightarrow> 'a outcome" where
  "require_else b e r = (if b then r else Inl e)"

lemma require_else_Inr: "require_else b e r = Inr x \<longleftrightarrow> b \<and> r = Inr x"
  by (simp add: require_else_def)

lemma require_else_simps [simp]: "require_else True e r = r" "require_else False e r = Inl e"
  by (simp_all add: require_else_def)

definition only_owner :: "address \<Rightarrow> address \<Rightarrow> 'a outcome \<Rightarrow> 'a outcome" where
  "only_owner own sender r = require_else (own = sender) (OwnableUnauthorizedAccount sender) r"

text \<open>
  \<open>Ownable\<close>, which every contract inherits: \<open>transferOwnership\<close> (an owner is given) and
  \<open>renounceOwnership\<close> (none is); the owner that results.
\<close>

definition change_owner :: "address \<Rightarrow> address \<Rightarrow> address option \<Rightarrow> address outcome" where
  "change_owner own sender to =
     only_owner own sender (case to of None \<Rightarrow> Inr 0
       | Some newOwner \<Rightarrow> require_else (newOwner \<noteq> 0) (OwnableInvalidOwner 0) (Inr newOwner))"

definition checked_add :: "'a::len word \<Rightarrow> 'a word \<Rightarrow> 'a word outcome" where
  "checked_add a b = (if unat a + unat b < 2 ^ LENGTH('a) then Inr (a + b) else Inl Panic)"

definition checked_sub :: "'a::len word \<Rightarrow> 'a word \<Rightarrow> 'a word outcome" where
  "checked_sub a b = (if b \<le> a then Inr (a - b) else Inl Panic)"

text \<open>Addition of signed integers.\<close>

definition checked_sadd :: "'a::len word \<Rightarrow> 'a word \<Rightarrow> 'a word outcome" where
  "checked_sadd a b =
     (if - (2 ^ (LENGTH('a) - 1)) \<le> sint a + sint b \<and> sint a + sint b < 2 ^ (LENGTH('a) - 1) then Inr (a + b) else Inl Panic)"

lemma checked_add_Inr: "checked_add a b = Inr c \<longleftrightarrow> unat a + unat b < 2 ^ LENGTH('a) \<and> c = a + (b :: 'a::len word)"
  by (auto simp: checked_add_def)

lemma checked_add_unat: "checked_add a b = Inr c \<Longrightarrow> unat c = unat a + unat (b :: 'a::len word)"
  by (auto simp: checked_add_def unat_word_ariths split: if_splits)

lemma checked_sub_Inr: "checked_sub a b = Inr c \<longleftrightarrow> b \<le> a \<and> c = a - b"
  by (auto simp: checked_sub_def)

lemma checked_sub_unat: "checked_sub a b = Inr c \<Longrightarrow> unat b \<le> unat a \<and> unat c = unat a - unat b"
  by (auto simp: checked_sub_def unat_sub word_le_nat_alt split: if_splits)

lemmas outcome_simps = require_else_Inr only_owner_def bind_result_Inr_iff checked_add_Inr checked_sub_Inr

end
