(* ===== verification/Evm_Tree.thy ===== *)
theory Evm_Tree
  imports Evm_Base
begin

text \<open>
  The incremental SHA-256 tree of contracts/evm/src/HolancPool.sol (\<open>_zeros\<close>, \<open>_insertLeaf\<close>) and the tree it
  stands for. The contract keeps one hash per level; the reference is the complete binary tree over
  all leaves. They have the same root after any number of insertions.
\<close>

section \<open>The contract's tree\<close>

definition TREE_DEPTH :: nat where
  "TREE_DEPTH = 20"

text \<open>The constructor: each zero hash is made of the one before it.\<close>

fun zeros_from :: "hash_fun \<Rightarrow> nat \<Rightarrow> bytes32 \<Rightarrow> bytes32 list" where
  "zeros_from sha 0 z = []"
| "zeros_from sha (Suc k) z = z # zeros_from sha k (sha_pair sha z z)"

definition zero_hashes :: "hash_fun \<Rightarrow> bytes32 list" where
  "zero_hashes sha = zeros_from sha TREE_DEPTH (sha_pair sha 0 0)"

text \<open>The loop of \<open>_insertLeaf\<close> with \<open>k\<close> levels to go.\<close>

fun insert_levels :: "hash_fun \<Rightarrow> bytes32 list \<Rightarrow> nat \<Rightarrow> nat \<Rightarrow> 64 word \<Rightarrow> bytes32 \<Rightarrow> bytes32 list \<Rightarrow> bytes32 list \<times> bytes32" where
  "insert_levels sha zs 0 level idx current filled = (filled, current)"
| "insert_levels sha zs (Suc k) level idx current filled =
     (if idx mod 2 = 0
      then insert_levels sha zs k (Suc level) (idx div 2) (sha_pair sha current (zs ! level)) (filled[level := current])
      else insert_levels sha zs k (Suc level) (idx div 2) (sha_pair sha (filled ! level) current) filled)"

definition insertLeaf :: "hash_fun \<Rightarrow> bytes32 list \<Rightarrow> 64 word \<Rightarrow> bytes32 \<Rightarrow> bytes32 list \<Rightarrow> bytes32 list \<times> bytes32" where
  "insertLeaf sha zs leafIndex leaf filled = insert_levels sha zs TREE_DEPTH 0 leafIndex leaf filled"

section \<open>The reference tree\<close>

text \<open>The node with number \<open>i\<close> of a level, over leaves that are followed by empty ones.\<close>

fun tree_node :: "('a \<Rightarrow> 'a \<Rightarrow> 'a) \<Rightarrow> 'a \<Rightarrow> 'a list \<Rightarrow> nat \<Rightarrow> nat \<Rightarrow> 'a" where
  "tree_node h z ls 0 i = (if i < length ls then ls ! i else z)"
| "tree_node h z ls (Suc k) i = h (tree_node h z ls k (2 * i)) (tree_node h z ls k (2 * i + 1))"

fun blank :: "('a \<Rightarrow> 'a \<Rightarrow> 'a) \<Rightarrow> 'a \<Rightarrow> nat \<Rightarrow> 'a" where
  "blank h z 0 = z"
| "blank h z (Suc k) = h (blank h z k) (blank h z k)"

lemma tree_node_beyond: "length ls \<le> i * 2 ^ k \<Longrightarrow> tree_node h z ls k i = blank h z k"
  by (induction k arbitrary: i) (simp_all add: algebra_simps)

lemma tree_node_append: "(i + 1) * 2 ^ k \<le> length ls \<Longrightarrow> tree_node h z (ls @ ms) k i = tree_node h z ls k i"
proof (induction k arbitrary: i)
  case (Suc k)
  then have "(2 * i + 1) * 2 ^ k \<le> length ls" "(2 * i + 1 + 1) * 2 ^ k \<le> length ls"
    by (simp_all add: algebra_simps)
  with Suc.IH [of "2 * i"] Suc.IH [of "2 * i + 1"] show ?case by simp
qed (simp add: nth_append)

lemma blank_shift: "blank h (h z z) k = blank h z (Suc k)"
  by (induction k) simp_all

lemma zeros_from_nth: "k < d \<Longrightarrow> zeros_from sha d z ! k = blank (sha_pair sha) z k"
proof (induction d arbitrary: k z)
  case (Suc d)
  then show ?case by (cases k) (simp_all add: blank_shift)
qed simp

lemma length_zeros_from [simp]: "length (zeros_from sha d z) = d"
  by (induction d arbitrary: z) simp_all

section \<open>The frontier\<close>

text \<open>
  What the kept hashes mean after the leaves \<open>ls\<close>: on a level with an odd number of full nodes, the kept
  hash is the last of them.
\<close>

definition frontier :: "('a \<Rightarrow> 'a \<Rightarrow> 'a) \<Rightarrow> 'a \<Rightarrow> nat \<Rightarrow> 'a list \<Rightarrow> 'a list \<Rightarrow> bool" where
  "frontier h z d ls filled \<longleftrightarrow> length filled = d
     \<and> (\<forall>k < d. odd (length ls div 2 ^ k) \<longrightarrow> filled ! k = tree_node h z ls k (length ls div 2 ^ k - 1))"

lemma frontier_Nil: "frontier h z d [] (replicate d x)"
  by (simp add: frontier_def)

lemma insert_levels_correct:
  fixes ls :: "bytes32 list"
  defines "n \<equiv> length ls"
  assumes "length filled = level + k" "unat idx = n div 2 ^ level"
    and "current = tree_node (sha_pair sha) z (ls @ [x]) level (n div 2 ^ level)"
    and "\<forall>j < level + k. zs ! j = blank (sha_pair sha) z j"
    and "\<forall>j < level + k. level \<le> j \<and> odd (n div 2 ^ j) \<longrightarrow> filled ! j = tree_node (sha_pair sha) z ls j (n div 2 ^ j - 1)"
    and "insert_levels sha zs k level idx current filled = (filled', r)"
  shows "r = tree_node (sha_pair sha) z (ls @ [x]) (level + k) (n div 2 ^ (level + k)) \<and> length filled' = level + k
    \<and> (\<forall>j < level + k. filled' ! j = (if level \<le> j \<and> even (n div 2 ^ j)
         then tree_node (sha_pair sha) z (ls @ [x]) j (n div 2 ^ j) else filled ! j))"
  using assms(2-)
proof (induction k arbitrary: level idx current filled)
  case (Suc k)
  let ?h = "sha_pair sha" and ?m = "n div 2 ^ level"
  have half: "n div 2 ^ Suc level = ?m div 2"
    by (simp only: power_Suc2 div_mult2_eq)
  have idx: "unat (idx div 2) = n div 2 ^ Suc level"
    unfolding half using Suc.prems(2) by (simp add: unat_div_distrib)
  have parity: "idx mod 2 = 0 \<longleftrightarrow> even ?m"
    using Suc.prems(2) by (simp add: word_unat_eq_iff unat_mod_distrib even_iff_mod_2_eq_zero)
  have low: "?m * 2 ^ level \<le> n" and high: "n < (?m + 1) * 2 ^ level"
    using dividend_less_times_div [of "2 ^ level" n] by (simp_all add: algebra_simps)
  have next_level: "level + Suc k = Suc level + k" "level \<le> j \<longleftrightarrow> j = level \<or> Suc level \<le> j" for j
    by auto
  note IH = Suc.IH [where level = "Suc level" and idx = "idx div 2"]
  show ?case
  proof (cases "even ?m")
    case True
    have "tree_node ?h z (ls @ [x]) level (?m + 1) = blank ?h z level"
      using high by (intro tree_node_beyond) (simp add: n_def)
    then have "?h current (zs ! level) = tree_node ?h z (ls @ [x]) (Suc level) (n div 2 ^ Suc level)"
      using True Suc.prems(3,4) by (simp add: half del: power_Suc)
    note node = this
    let ?filled = "filled[level := current]"
    have run: "insert_levels sha zs k (Suc level) (idx div 2) (?h current (zs ! level)) ?filled = (filled', r)"
      using Suc.prems(6) True parity by simp
    have kept: "\<forall>j < Suc level + k. Suc level \<le> j \<and> odd (n div 2 ^ j) \<longrightarrow> ?filled ! j = tree_node ?h z ls j (n div 2 ^ j - 1)"
      using Suc.prems(5) by simp
    have "r = tree_node ?h z (ls @ [x]) (Suc level + k) (n div 2 ^ (Suc level + k)) \<and> length filled' = Suc level + k
      \<and> (\<forall>j < Suc level + k. filled' ! j = (if Suc level \<le> j \<and> even (n div 2 ^ j)
           then tree_node ?h z (ls @ [x]) j (n div 2 ^ j) else ?filled ! j))"
      by (rule IH [OF _ idx node _ kept run]) (use Suc.prems(1,4) in simp_all)
    then show ?thesis
      using True Suc.prems(1,3) by (auto simp: next_level nth_update_at)
  next
    case False
    then have "(?m - 1 + 1) * 2 ^ level \<le> length ls"
      using low by (simp add: n_def)
    then have "filled ! level = tree_node ?h z (ls @ [x]) level (?m - 1)"
      using False Suc.prems(5) by (simp add: tree_node_append)
    moreover have "?m - 1 = 2 * (?m div 2)" "?m = 2 * (?m div 2) + 1"
      using False by (auto elim: oddE)
    ultimately have "?h (filled ! level) current = tree_node ?h z (ls @ [x]) (Suc level) (n div 2 ^ Suc level)"
      using Suc.prems(3) by (simp add: half del: power_Suc)
    note node = this
    have run: "insert_levels sha zs k (Suc level) (idx div 2) (?h (filled ! level) current) filled = (filled', r)"
      using Suc.prems(6) False parity by simp
    have kept: "\<forall>j < Suc level + k. Suc level \<le> j \<and> odd (n div 2 ^ j) \<longrightarrow> filled ! j = tree_node ?h z ls j (n div 2 ^ j - 1)"
      using Suc.prems(5) by simp
    have "r = tree_node ?h z (ls @ [x]) (Suc level + k) (n div 2 ^ (Suc level + k)) \<and> length filled' = Suc level + k
      \<and> (\<forall>j < Suc level + k. filled' ! j = (if Suc level \<le> j \<and> even (n div 2 ^ j)
           then tree_node ?h z (ls @ [x]) j (n div 2 ^ j) else filled ! j))"
      by (rule IH [OF _ idx node _ kept run]) (use Suc.prems(1,4) in simp_all)
    then show ?thesis
      using False by (auto simp: next_level)
  qed
qed (simp add: assms(1))


text \<open>One more leaf: the root is that of the block of \<open>2 ^ depth\<close> leaves the new one is in, and the frontier is kept.\<close>

lemma frontier_snoc:
  assumes "frontier h z d ls filled" "length filled' = d"
    and "\<forall>j < d. filled' ! j = (if even (length ls div 2 ^ j) then tree_node h z (ls @ [x]) j (length ls div 2 ^ j) else filled ! j)"
  shows "frontier h z d (ls @ [x]) filled'"
  unfolding frontier_def
proof (intro conjI allI impI)
  fix k assume k: "k < d" and odd: "odd (length (ls @ [x]) div 2 ^ k)"
  let ?m = "length ls div 2 ^ k"
  have "Suc (length ls) div 2 ^ k = ?m \<or> Suc (length ls) div 2 ^ k = Suc ?m"
    by (simp add: div_Suc)
  with odd consider "even ?m" "Suc (length ls) div 2 ^ k = Suc ?m" | "odd ?m" "Suc (length ls) div 2 ^ k = ?m"
    by fastforce
  then show "filled' ! k = tree_node h z (ls @ [x]) k (length (ls @ [x]) div 2 ^ k - 1)"
  proof cases
    case 2
    have "?m - 1 + 1 = ?m"
      using 2(1) by (simp add: odd_pos)
    then have "(?m - 1 + 1) * 2 ^ k \<le> length ls"
      by (simp only: div_times_less_eq_dividend)
    with 2 k assms show ?thesis
      by (simp add: frontier_def tree_node_append)
  qed (use k assms in simp)
qed (use assms(2) in simp)

lemma insertLeaf_correct:
  assumes "frontier (sha_pair sha) (sha_pair sha 0 0) TREE_DEPTH ls filled" "unat idx = length ls"
    and "insertLeaf sha (zero_hashes sha) idx x filled = (filled', r)"
  shows "r = tree_node (sha_pair sha) (sha_pair sha 0 0) (ls @ [x]) TREE_DEPTH (length ls div 2 ^ TREE_DEPTH)"
    and "frontier (sha_pair sha) (sha_pair sha 0 0) TREE_DEPTH (ls @ [x]) filled'"
proof -
  let ?z = "sha_pair sha 0 0"
  have "r = tree_node (sha_pair sha) ?z (ls @ [x]) (0 + TREE_DEPTH) (length ls div 2 ^ (0 + TREE_DEPTH))
      \<and> length filled' = 0 + TREE_DEPTH
      \<and> (\<forall>j < 0 + TREE_DEPTH. filled' ! j = (if 0 \<le> j \<and> even (length ls div 2 ^ j)
           then tree_node (sha_pair sha) ?z (ls @ [x]) j (length ls div 2 ^ j) else filled ! j))"
    by (rule insert_levels_correct [where zs = "zero_hashes sha" and idx = idx and current = x])
      (use assms in \<open>simp_all add: frontier_def zero_hashes_def zeros_from_nth insertLeaf_def\<close>)
  then show "r = tree_node (sha_pair sha) ?z (ls @ [x]) TREE_DEPTH (length ls div 2 ^ TREE_DEPTH)"
    and "frontier (sha_pair sha) ?z TREE_DEPTH (ls @ [x]) filled'"
    by (simp_all add: frontier_snoc [OF assms(1)])
qed


text \<open>A node of the tree is the root of the tree over the leaves from its first one on.\<close>

lemma tree_node_block: "tree_node h z ls k (m + i) = tree_node h z (drop (m * 2 ^ k) ls) k i"
proof (induction k arbitrary: m i)
  case (Suc k)
  have "tree_node h z ls k (2 * m + j) = tree_node h z (drop (m * 2 ^ Suc k) ls) k j" for j
    using Suc.IH [of "2 * m"] by (simp add: algebra_simps)
  from this [of "2 * i"] this [of "2 * i + 1"] show ?case
    by (simp add: algebra_simps)
qed (auto simp: algebra_simps)

end
