(* ===== verification/Evm_Nullifier.thy ===== *)
theory Evm_Nullifier
  imports Evm_Base
begin

unbundle bit_operations_syntax

text \<open>
  contracts/evm/src/HolancNullifier.sol: the registry of spent nullifiers. A nullifier is one bit of a
  page of 2048, chosen by its SHA-256 digest. The registry is shown to implement a set of slots per
  page, so two nullifiers with one slot are one nullifier, and a page is full after 2048.
\<close>

section \<open>State\<close>

record nullifier_page =
  bitmap :: "256 word list"
  count :: "32 word"
  initialized :: bool

record epoch_record =
  er_nullifierRoot :: bytes32
  er_finalizedBlock :: "256 word"
  er_nullifierCount :: "64 word"

datatype nullifier_event =
    NullifierRegistered address bytes32 "64 word"
  | NullifierV2Registered address bytes32 "64 word" "64 word" "64 word"
  | EpochFinalized address "64 word" bytes32 "64 word"

record registry =
  nr_owner :: address
  nr_pool :: address
  nr_registrar :: address
  nr_currentEpoch :: "64 word"
  nr_epochStartBlock :: "256 word"
  nr_epochDurationBlocks :: "256 word"
  nr_totalNullifiers :: "64 word"
  nr_pages :: "64 word \<Rightarrow> nullifier_page"
  nr_epochRecords :: "64 word \<Rightarrow> epoch_record"
  nr_log :: "nullifier_event list"

definition SLOTS_PER_PAGE :: nat where
  "SLOTS_PER_PAGE = 2048"

definition empty_page :: nullifier_page where
  "empty_page = \<lparr>bitmap = replicate 8 0, count = 0, initialized = False\<rparr>"

definition new_registry :: "address \<Rightarrow> registry" where
  "new_registry sender = \<lparr>nr_owner = sender, nr_pool = 0, nr_registrar = 0, nr_currentEpoch = 0, nr_epochStartBlock = 0,
     nr_epochDurationBlocks = 0, nr_totalNullifiers = 0, nr_pages = (\<lambda>_. empty_page),
     nr_epochRecords = (\<lambda>_. \<lparr>er_nullifierRoot = 0, er_finalizedBlock = 0, er_nullifierCount = 0\<rparr>), nr_log = []\<rparr>"

definition initialize_registry :: "address \<Rightarrow> 256 word \<Rightarrow> address \<Rightarrow> address \<Rightarrow> 256 word \<Rightarrow> registry \<Rightarrow> registry outcome" where
  "initialize_registry sender blk pool registrar duration st =
     only_owner (nr_owner st) sender
       (require_else (nr_pool st = 0) AlreadyInitialized
         (Inr (st\<lparr>nr_pool := pool, nr_registrar := registrar, nr_epochStartBlock := blk,
            nr_epochDurationBlocks := duration\<rparr>)))"

section \<open>The bitmap\<close>

text \<open>\<open>uint256(uint16(bytes2(digest))) % SLOTS_PER_PAGE\<close>; the word of the bitmap and the bit in it.\<close>

definition slot_of :: "bytes32 \<Rightarrow> nat" where
  "slot_of digest = unat (drop_bit 240 digest) mod SLOTS_PER_PAGE"

definition slot_spent :: "nullifier_page \<Rightarrow> nat \<Rightarrow> bool" where
  "slot_spent page b \<longleftrightarrow> drop_bit (b mod 256) (bitmap page ! (b div 256)) AND 1 = 1"

definition mark_slot :: "nat \<Rightarrow> nullifier_page \<Rightarrow> nullifier_page" where
  "mark_slot b page = page\<lparr>bitmap := (bitmap page)[b div 256 := bitmap page ! (b div 256) OR push_bit (b mod 256) 1]\<rparr>"

text \<open>The body that both registration functions share, from the digest on.\<close>

definition register_digest :: "64 word \<Rightarrow> bytes32 \<Rightarrow> nullifier_event \<Rightarrow> registry \<Rightarrow> registry outcome" where
  "register_digest pageIndex digest event st =
     (let page = (nr_pages st pageIndex)\<lparr>initialized := True\<rparr>; b = slot_of digest in
      require_else (\<not> slot_spent page b) NullifierAlreadySpent
        (bind_result (checked_add (count page) 1) (\<lambda>n.
         bind_result (checked_add (nr_totalNullifiers st) 1) (\<lambda>total.
           Inr (st\<lparr>nr_pages := (nr_pages st)(pageIndex := (mark_slot b page)\<lparr>count := n\<rparr>),
             nr_totalNullifiers := total, nr_log := nr_log st @ [event]\<rparr>)))))"

definition registerNullifier :: "hash_fun \<Rightarrow> address \<Rightarrow> 64 word \<Rightarrow> bytes32 \<Rightarrow> registry \<Rightarrow> registry outcome" where
  "registerNullifier sha sender pageIndex nullifier st =
     require_else (sender = nr_registrar st) Unauthorized
       (register_digest pageIndex (sha (packed nullifier))
         (NullifierRegistered (nr_pool st) nullifier (nr_currentEpoch st)) st)"

definition registerNullifierV2 :: "hash_fun \<Rightarrow> address \<Rightarrow> 64 word \<Rightarrow> bytes32 \<Rightarrow> 64 word \<Rightarrow> 64 word \<Rightarrow> registry \<Rightarrow>
    registry outcome" where
  "registerNullifierV2 sha sender pageIndex nullifier chainId appId st =
     require_else (sender = nr_registrar st) Unauthorized
       (register_digest pageIndex (sha (packed nullifier @ packed chainId @ packed appId))
         (NullifierV2Registered (nr_pool st) nullifier chainId appId (nr_currentEpoch st)) st)"

definition isNullifierSpent :: "hash_fun \<Rightarrow> 64 word \<Rightarrow> bytes32 \<Rightarrow> registry \<Rightarrow> bool" where
  "isNullifierSpent sha pageIndex nullifier st \<longleftrightarrow>
     (let page = nr_pages st pageIndex in
      initialized page \<and> slot_spent page (slot_of (sha (packed nullifier))))"

definition finalizeEpoch :: "address \<Rightarrow> 256 word \<Rightarrow> bytes32 \<Rightarrow> registry \<Rightarrow> registry outcome" where
  "finalizeEpoch sender blk epochNullifierRoot st =
     only_owner (nr_owner st) sender
       (bind_result (checked_add (nr_currentEpoch st) 1) (\<lambda>epoch.
         Inr (st\<lparr>nr_epochRecords := (nr_epochRecords st)(nr_currentEpoch st :=
               \<lparr>er_nullifierRoot = epochNullifierRoot, er_finalizedBlock = blk, er_nullifierCount = nr_totalNullifiers st\<rparr>),
             nr_log := nr_log st @ [EpochFinalized (nr_pool st) (nr_currentEpoch st) epochNullifierRoot (nr_totalNullifiers st)],
             nr_currentEpoch := epoch, nr_epochStartBlock := blk\<rparr>)))"

section \<open>A page is a set of slots\<close>

definition slots :: "nullifier_page \<Rightarrow> nat set" where
  "slots page = {b \<in> {..<SLOTS_PER_PAGE}. slot_spent page b}"

definition page_ok :: "nullifier_page \<Rightarrow> bool" where
  "page_ok page \<longleftrightarrow> length (bitmap page) = 8 \<and> unat (count page) = card (slots page)
     \<and> (\<not> initialized page \<longrightarrow> slots page = {})"

definition registry_ok :: "registry \<Rightarrow> bool" where
  "registry_ok st \<longleftrightarrow> (\<forall>p. page_ok (nr_pages st p))"

lemma slot_of_less [simp]: "slot_of digest < SLOTS_PER_PAGE"
  by (simp add: slot_of_def SLOTS_PER_PAGE_def)

lemma finite_slots [simp]: "finite (slots page)"
  by (simp add: slots_def)

lemma card_slots: "card (slots page) \<le> SLOTS_PER_PAGE"
  using card_mono [of "{..<SLOTS_PER_PAGE}" "slots page"] by (auto simp: slots_def)

lemma slot_spent_bit: "slot_spent page b \<longleftrightarrow> bit (bitmap page ! (b div 256)) (b mod 256)"
  by (simp add: slot_spent_def and_one_eq bit_iff_odd_drop_bit odd_iff_mod_2_eq_one)

lemma slot_spent_mark:
  assumes "length (bitmap page) = 8" "b < SLOTS_PER_PAGE" "c < SLOTS_PER_PAGE"
  shows "slot_spent (mark_slot b page) c \<longleftrightarrow> c = b \<or> slot_spent page c"
proof -
  have "b div 256 < 8" "c div 256 < 8"
    using assms by (simp_all add: SLOTS_PER_PAGE_def)
  moreover have "c = b \<longleftrightarrow> c div 256 = b div 256 \<and> c mod 256 = b mod 256"
    by (metis div_mult_mod_eq)
  ultimately show ?thesis
    using assms(1) by (auto simp: slot_spent_bit mark_slot_def nth_update_at bit_simps)
qed

lemma slots_mark:
  "length (bitmap page) = 8 \<Longrightarrow> b < SLOTS_PER_PAGE \<Longrightarrow> slots (mark_slot b page) = insert b (slots page)"
  by (auto simp: slots_def slot_spent_mark)

lemma slots_frame [simp]:
  "slots (page\<lparr>count := n\<rparr>) = slots page" "slots (page\<lparr>initialized := i\<rparr>) = slots page"
  "slots empty_page = {}"
  by (simp_all add: slots_def slot_spent_bit empty_page_def SLOTS_PER_PAGE_def nth_Cons' cong: conj_cong)

lemma mark_slot_frame [simp]:
  "count (mark_slot b page) = count page" "initialized (mark_slot b page) = initialized page"
  "length (bitmap (mark_slot b page)) = length (bitmap page)"
  by (simp_all add: mark_slot_def)


section \<open>What registration does\<close>

text \<open>Both functions succeed exactly on a free slot, and then the slot is taken.\<close>

lemma register_digest_Inr:
  assumes "registry_ok st"
  shows "register_digest p digest event st = Inr st' \<longleftrightarrow>
    slot_of digest \<notin> slots (nr_pages st p) \<and> unat (nr_totalNullifiers st) + 1 < 2 ^ 64
    \<and> st' = st\<lparr>nr_pages := (nr_pages st)(p := (mark_slot (slot_of digest) ((nr_pages st p)\<lparr>initialized := True\<rparr>))
          \<lparr>count := count (nr_pages st p) + 1\<rparr>),
        nr_totalNullifiers := nr_totalNullifiers st + 1, nr_log := nr_log st @ [event]\<rparr>"
proof -
  have page: "page_ok (nr_pages st p)"
    using assms by (simp add: registry_ok_def)
  have "unat (count (nr_pages st p)) \<le> 2048"
    using page card_slots [of "nr_pages st p"] by (simp add: page_ok_def SLOTS_PER_PAGE_def)
  moreover have "slot_spent ((nr_pages st p)\<lparr>initialized := True\<rparr>) (slot_of digest)
      \<longleftrightarrow> slot_of digest \<in> slots (nr_pages st p)"
    by (simp add: slots_def slot_spent_bit)
  ultimately show ?thesis
    by (auto simp: register_digest_def Let_def outcome_simps)
qed

lemma register_digest_ok:
  assumes "registry_ok st" "register_digest p digest event st = Inr st'"
  shows "registry_ok st'" "slots (nr_pages st' p) = insert (slot_of digest) (slots (nr_pages st p))"
    "initialized (nr_pages st' p)" "\<And>q. q \<noteq> p \<Longrightarrow> nr_pages st' q = nr_pages st q"
proof -
  let ?b = "slot_of digest" and ?page = "nr_pages st p"
  have page: "page_ok ?page"
    using assms(1) by (simp add: registry_ok_def)
  have fresh: "?b \<notin> slots ?page"
    and st': "st' = st\<lparr>nr_pages := (nr_pages st)(p := (mark_slot ?b (?page\<lparr>initialized := True\<rparr>))\<lparr>count := count ?page + 1\<rparr>),
        nr_totalNullifiers := nr_totalNullifiers st + 1, nr_log := nr_log st @ [event]\<rparr>"
    using assms by (simp_all add: register_digest_Inr)
  show slots: "slots (nr_pages st' p) = insert ?b (slots ?page)"
    using page by (simp add: st' slots_mark page_ok_def)
  have "unat (count ?page + 1) = Suc (unat (count ?page))"
    using page card_slots [of ?page] by (simp add: page_ok_def SLOTS_PER_PAGE_def unat_word_ariths)
  then have "page_ok (nr_pages st' p)"
    using page fresh slots by (simp add: st' page_ok_def)
  then show "registry_ok st'"
    using assms(1) by (auto simp: registry_ok_def st' split: if_splits)
  show "initialized (nr_pages st' p)" "\<And>q. q \<noteq> p \<Longrightarrow> nr_pages st' q = nr_pages st q"
    by (simp_all add: st')
qed

lemma register_digest_frame:
  "register_digest p digest event st = Inr st' \<Longrightarrow> nr_owner st' = nr_owner st \<and> nr_pool st' = nr_pool st
     \<and> nr_registrar st' = nr_registrar st \<and> nr_currentEpoch st' = nr_currentEpoch st
     \<and> nr_epochStartBlock st' = nr_epochStartBlock st \<and> nr_log st' = nr_log st @ [event]
     \<and> unat (nr_totalNullifiers st') = Suc (unat (nr_totalNullifiers st))"
  by (auto simp: register_digest_def Let_def outcome_simps unat_word_ariths)

lemma isNullifierSpent_slots:
  "registry_ok st \<Longrightarrow> isNullifierSpent sha p nf st \<longleftrightarrow> slot_of (sha (packed nf)) \<in> slots (nr_pages st p)"
  unfolding registry_ok_def page_ok_def isNullifierSpent_def Let_def
  using slot_of_less [of "sha (packed nf)"] by (auto simp: slots_def)

section \<open>The registry as a state machine\<close>

datatype registry_call =
    Initialize address address "256 word"
  | Register "64 word" bytes32
  | RegisterV2 "64 word" bytes32 "64 word" "64 word"
  | FinalizeEpoch bytes32
  | RegistryOwner "address option"

fun run_registry :: "hash_fun \<Rightarrow> address \<Rightarrow> 256 word \<Rightarrow> registry_call \<Rightarrow> registry \<Rightarrow> registry outcome" where
  "run_registry sha sender blk (Initialize pool registrar d) st = initialize_registry sender blk pool registrar d st"
| "run_registry sha sender blk (Register p nf) st = registerNullifier sha sender p nf st"
| "run_registry sha sender blk (RegisterV2 p nf c a) st = registerNullifierV2 sha sender p nf c a st"
| "run_registry sha sender blk (FinalizeEpoch root) st = finalizeEpoch sender blk root st"
| "run_registry sha sender blk (RegistryOwner to) st =
     bind_result (change_owner (nr_owner st) sender to) (\<lambda>own. Inr (st\<lparr>nr_owner := own\<rparr>))"

inductive registry_step :: "hash_fun \<Rightarrow> registry \<Rightarrow> registry \<Rightarrow> bool" for sha where
  "run_registry sha sender blk c st = Inr st' \<Longrightarrow> registry_step sha st st'"

definition deployed_registry :: "registry \<Rightarrow> bool" where
  "deployed_registry st \<longleftrightarrow> (\<exists>sender. st = new_registry sender)"

lemma new_registry_ok: "registry_ok (new_registry sender)"
proof -
  have "page_ok empty_page"
    by (simp add: page_ok_def) (simp add: empty_page_def)
  then show ?thesis
    by (simp add: registry_ok_def new_registry_def)
qed

lemma run_registry_ok: "registry_ok st \<Longrightarrow> run_registry sha sender blk c st = Inr st' \<Longrightarrow> registry_ok st'"
proof (cases c)
  case (Initialize pool registrar d)
  then show "registry_ok st \<Longrightarrow> run_registry sha sender blk c st = Inr st' \<Longrightarrow> registry_ok st'"
    by (auto simp: initialize_registry_def outcome_simps registry_ok_def)
next
  case (FinalizeEpoch rt)
  then show "registry_ok st \<Longrightarrow> run_registry sha sender blk c st = Inr st' \<Longrightarrow> registry_ok st'"
    by (auto simp: finalizeEpoch_def outcome_simps registry_ok_def)
next
  case (RegistryOwner own)
  then show "registry_ok st \<Longrightarrow> run_registry sha sender blk c st = Inr st' \<Longrightarrow> registry_ok st'"
    by (auto simp: outcome_simps registry_ok_def)
qed (auto simp: registerNullifier_def registerNullifierV2_def require_else_Inr intro: register_digest_ok)

interpretation registry: invariant_system deployed_registry "registry_step sha" registry_ok for sha
  by unfold_locales (auto simp: deployed_registry_def new_registry_ok registry_step.simps intro: run_registry_ok)


section \<open>The abstract registry\<close>

text \<open>The contract a pool relies on: a set of slots for each page, to which a free slot can be added.\<close>

definition set_register :: "64 word \<Rightarrow> nat \<Rightarrow> (64 word \<Rightarrow> nat set) \<Rightarrow> (64 word \<Rightarrow> nat set) outcome" where
  "set_register p b S = (if b \<in> S p then Inl NullifierAlreadySpent else Inr (S(p := insert b (S p))))"

definition abs_registry :: "registry \<Rightarrow> 64 word \<Rightarrow> nat set" where
  "abs_registry st p = slots (nr_pages st p)"

lemma register_digest_refines:
  assumes "registry_ok st" "unat (nr_totalNullifiers st) + 1 < 2 ^ 64"
  shows "map_sum id abs_registry (register_digest p digest event st) = set_register p (slot_of digest) (abs_registry st)"
proof (cases "slot_of digest \<in> slots (nr_pages st p)")
  case True
  then have "slot_spent ((nr_pages st p)\<lparr>initialized := True\<rparr>) (slot_of digest)"
    by (simp add: slots_def slot_spent_bit)
  with True show ?thesis
    by (simp add: register_digest_def set_register_def abs_registry_def Let_def)
next
  case False
  then obtain st' where st': "register_digest p digest event st = Inr st'"
    using assms register_digest_Inr [OF assms(1)] by blast
  have "abs_registry st' q = ((abs_registry st)(p := insert (slot_of digest) (abs_registry st p))) q" for q
    using register_digest_ok [OF assms(1) st'] by (cases "q = p") (simp_all add: abs_registry_def)
  with False st' show ?thesis
    by (auto simp: set_register_def abs_registry_def)
qed

lemma registry_grows: "registry_ok st \<Longrightarrow> run_registry sha sender blk c st = Inr st' \<Longrightarrow> abs_registry st q \<subseteq> abs_registry st' q"
proof (cases c)
  case (Register p nf)
  then show "registry_ok st \<Longrightarrow> run_registry sha sender blk c st = Inr st' \<Longrightarrow> abs_registry st q \<subseteq> abs_registry st' q"
    using register_digest_ok(2,4) [of st p _ _ st'] unfolding abs_registry_def
    by (cases "q = p") (auto simp: registerNullifier_def require_else_Inr)
next
  case (RegisterV2 p nf x y)
  then show "registry_ok st \<Longrightarrow> run_registry sha sender blk c st = Inr st' \<Longrightarrow> abs_registry st q \<subseteq> abs_registry st' q"
    using register_digest_ok(2,4) [of st p _ _ st'] unfolding abs_registry_def
    by (cases "q = p") (auto simp: registerNullifierV2_def require_else_Inr)
qed (auto simp: abs_registry_def initialize_registry_def finalizeEpoch_def outcome_simps)

text \<open>
  C26. The bitmap registry is a set of slots: in every state it can reach, a nullifier counts as spent
  exactly when its slot is taken; the registrar's registration of a nullifier of either version does what adding its slot
  to the set of the page does, refusing a slot that is taken, and anyone else's is refused; the counter
  of a page is the number of its slots, at most 2048; and what is spent stays spent whatever is called.
\<close>

theorem registry_is_a_set_of_slots:
  assumes "reachable deployed_registry (registry_step sha) st" "unat (nr_totalNullifiers st) + 1 < 2 ^ 64"
  shows "(isNullifierSpent sha p nf st \<longleftrightarrow> slot_of (sha (packed nf)) \<in> abs_registry st p)
    \<and> map_sum id abs_registry (registerNullifier sha sender p nf st)
        = (if sender = nr_registrar st then set_register p (slot_of (sha (packed nf))) (abs_registry st) else Inl Unauthorized)
    \<and> map_sum id abs_registry (registerNullifierV2 sha sender p nf chain app st)
        = (if sender = nr_registrar st
           then set_register p (slot_of (sha (packed nf @ packed chain @ packed app))) (abs_registry st) else Inl Unauthorized)
    \<and> unat (count (nr_pages st p)) = card (abs_registry st p) \<and> card (abs_registry st p) \<le> 2048
    \<and> (\<forall>st'. registry_step sha st st' \<longrightarrow> abs_registry st p \<subseteq> abs_registry st' p)"
proof (intro conjI allI impI)
  have ok: "registry_ok st"
    using assms(1) by (rule registry.reachable_inv)
  show "isNullifierSpent sha p nf st \<longleftrightarrow> slot_of (sha (packed nf)) \<in> abs_registry st p"
    by (simp add: isNullifierSpent_slots [OF ok] abs_registry_def)
  show "map_sum id abs_registry (registerNullifier sha sender p nf st)
      = (if sender = nr_registrar st then set_register p (slot_of (sha (packed nf))) (abs_registry st) else Inl Unauthorized)"
    by (simp add: registerNullifier_def register_digest_refines [OF ok assms(2)])
  show "map_sum id abs_registry (registerNullifierV2 sha sender p nf chain app st)
      = (if sender = nr_registrar st
         then set_register p (slot_of (sha (packed nf @ packed chain @ packed app))) (abs_registry st) else Inl Unauthorized)"
    by (simp add: registerNullifierV2_def register_digest_refines [OF ok assms(2)])
  show "unat (count (nr_pages st p)) = card (abs_registry st p)" "card (abs_registry st p) \<le> 2048"
    using ok card_slots [of "nr_pages st p"]
    by (simp_all add: registry_ok_def page_ok_def abs_registry_def SLOTS_PER_PAGE_def)
  show "abs_registry st p \<subseteq> abs_registry st' p" if "registry_step sha st st'" for st'
    using that registry_grows [OF ok, of sha] unfolding registry_step.simps by blast
qed

text \<open>A hash that reads the first two bytes off its argument.\<close>

definition front_hash :: hash_fun where
  "front_hash bs = push_bit 240 (word_of_nat (be_value (take 2 bs)))"

lemma registry_is_a_set_of_slots_witness:
  "\<exists>st. reachable deployed_registry (registry_step front_hash) st \<and> nr_registrar st = 7
     \<and> (\<exists>st'. registerNullifier front_hash 7 0 (push_bit 240 5) st = Inr st' \<and> isNullifierSpent front_hash 0 (push_bit 240 5) st')"
proof -
  let ?st = "(new_registry 1)\<lparr>nr_pool := 7, nr_registrar := 7, nr_epochStartBlock := 3, nr_epochDurationBlocks := 7200\<rparr>"
  have "run_registry front_hash 1 3 (Initialize 7 7 7200) (new_registry 1) = Inr ?st"
    by (simp add: initialize_registry_def only_owner_def new_registry_def)
  then have "registry_step front_hash (new_registry 1) ?st"
    by (rule registry_step.intros)
  moreover have "reachable deployed_registry (registry_step front_hash) (new_registry 1)"
    by (rule reach_init) (auto simp: deployed_registry_def)
  ultimately have reach: "reachable deployed_registry (registry_step front_hash) ?st"
    by (blast intro: reach_step)
  moreover have "unat (nr_totalNullifiers ?st) + 1 < 2 ^ 64"
    by (simp add: new_registry_def)
  note registry_is_a_set_of_slots [OF reach this, of 0 "push_bit 240 5" 7]
  then have "map_sum id abs_registry (registerNullifier front_hash 7 0 (push_bit 240 5) ?st)
      = set_register 0 (slot_of (front_hash (packed (push_bit 240 5 :: bytes32)))) (abs_registry ?st)"
    by simp
  moreover have "abs_registry ?st = (\<lambda>_. {})"
    by (rule ext) (simp add: abs_registry_def new_registry_def)
  ultimately obtain st' where st': "registerNullifier front_hash 7 0 (push_bit 240 5) ?st = Inr st'"
    by (cases "registerNullifier front_hash 7 0 (push_bit 240 5) ?st") (auto simp: set_register_def)
  moreover have ok: "registry_ok ?st"
    using reach by (rule registry.reachable_inv)
  ultimately have "isNullifierSpent front_hash 0 (push_bit 240 5) st'"
    using register_digest_ok [OF ok, of 0]
    by (auto simp: registerNullifier_def isNullifierSpent_slots require_else_Inr)
  with reach st' show ?thesis
    by (intro exI [of _ ?st]) simp
qed

end
