(* ===== verification/Evm_Verifier.thy ===== *)
theory Evm_Verifier
  imports Evm_Base
begin

text \<open>
  contracts/evm/src/HolancVerifier.sol: Groth16 verification over the three precompiled contracts,
  which are arguments that read their input words. Shown: which inputs are refused and how, and that a public input
  counts only by its residue modulo the order of the group.
\<close>

section \<open>State\<close>

type_synonym g1 = "256 word \<times> 256 word"
type_synonym g2 = "g1 \<times> g1"

record verification_key =
  vk_alpha :: g1
  vk_beta :: g2
  vk_gamma :: g2
  vk_delta :: g2
  vk_ic :: "g1 list"

datatype verifier_event =
    VkInitialized "8 word"
  | ProofVerified "8 word" address

record verifier =
  vf_owner :: address
  vf_vks :: "8 word \<Rightarrow> verification_key"
  vf_vkInitialized :: "8 word \<Rightarrow> bool"
  vf_log :: "verifier_event list"

text \<open>A precompile reads words and writes words, or fails.\<close>

record precompiles =
  ecAdd :: "256 word list \<Rightarrow> g1 option"
  ecMul :: "256 word list \<Rightarrow> g1 option"
  ecPairing :: "256 word list \<Rightarrow> 256 word option"

definition BN254_Q :: "256 word" where
  "BN254_Q = 0x30644e72e131a029b85045b68181585d97816a916871ca8d3c208c16d87cfd47"

definition MAX_PUBLIC_INPUTS :: nat where
  "MAX_PUBLIC_INPUTS = 8"

definition new_verifier :: "address \<Rightarrow> verifier" where
  "new_verifier sender = \<lparr>vf_owner = sender,
     vf_vks = (\<lambda>_. \<lparr>vk_alpha = (0, 0), vk_beta = ((0, 0), 0, 0), vk_gamma = ((0, 0), 0, 0), vk_delta = ((0, 0), 0, 0), vk_ic = []\<rparr>),
     vf_vkInitialized = (\<lambda>_. False), vf_log = []\<rparr>"

text \<open>The points are pushed one by one onto the stored array.\<close>

fun push_points :: "g1 list \<Rightarrow> g1 list \<Rightarrow> g1 list" where
  "push_points [] stored = stored"
| "push_points (p # ps) stored = push_points ps (stored @ [p])"

definition initializeVk :: "address \<Rightarrow> 8 word \<Rightarrow> g1 \<Rightarrow> g2 \<Rightarrow> g2 \<Rightarrow> g2 \<Rightarrow> g1 list \<Rightarrow> verifier \<Rightarrow> verifier outcome" where
  "initializeVk sender circuitType alpha beta gamma delta ic st =
     only_owner (vf_owner st) sender
       (require_else (\<not> vf_vkInitialized st circuitType) VkAlreadyInitialized
         (require_else (length ic \<le> MAX_PUBLIC_INPUTS + 1) TooManyIcPoints
           (Inr (st\<lparr>vf_vks := (vf_vks st)(circuitType := \<lparr>vk_alpha = alpha, vk_beta = beta, vk_gamma = gamma,
                vk_delta = delta, vk_ic = push_points ic (vk_ic (vf_vks st circuitType))\<rparr>),
              vf_vkInitialized := (vf_vkInitialized st)(circuitType := True),
              vf_log := vf_log st @ [VkInitialized circuitType]\<rparr>))))"

section \<open>The precompile wrappers\<close>

definition call_or :: "revert \<Rightarrow> 'a option \<Rightarrow> 'a outcome" where
  "call_or e r = (case r of None \<Rightarrow> Inl e | Some x \<Rightarrow> Inr x)"

definition ec_add :: "precompiles \<Rightarrow> g1 \<Rightarrow> g1 \<Rightarrow> g1 outcome" where
  "ec_add P p1 p2 = call_or EcAddFailed (ecAdd P [fst p1, snd p1, fst p2, snd p2])"

definition ec_mul :: "precompiles \<Rightarrow> g1 \<Rightarrow> 256 word \<Rightarrow> g1 outcome" where
  "ec_mul P p s = call_or EcMulFailed (ecMul P [fst p, snd p, s])"

definition negateG1 :: "g1 \<Rightarrow> g1" where
  "negateG1 p = (if fst p = 0 \<and> snd p = 0 then (0, 0) else (fst p, BN254_Q - snd p mod BN254_Q))"

definition pair_words :: "g1 \<Rightarrow> g2 \<Rightarrow> 256 word list" where
  "pair_words a b = [fst a, snd a, fst (fst b), snd (fst b), fst (snd b), snd (snd b)]"

definition pairingCheck :: "precompiles \<Rightarrow> g1 \<Rightarrow> g2 \<Rightarrow> g1 \<Rightarrow> g2 \<Rightarrow> g1 \<Rightarrow> g2 \<Rightarrow> g1 \<Rightarrow> g2 \<Rightarrow> bool outcome" where
  "pairingCheck P a1 b1 a2 b2 a3 b3 a4 b4 =
     bind_result (call_or PairingFailed (ecPairing P (pair_words a1 b1 @ pair_words a2 b2 @ pair_words a3 b3 @ pair_words a4 b4)))
       (\<lambda>r. Inr (r = 1))"

section \<open>Verification\<close>

text \<open>The loop from index \<open>i\<close>, over the points \<open>ic[i + 1], \<dots>\<close> and the inputs \<open>publicInputs[i], \<dots>\<close>.\<close>

fun vk_x :: "precompiles \<Rightarrow> g1 list \<Rightarrow> 256 word list \<Rightarrow> g1 \<Rightarrow> g1 outcome" where
  "vk_x P (p # ps) (x # xs) acc = bind_result (ec_mul P p x) (\<lambda>m. bind_result (ec_add P acc m) (\<lambda>acc'. vk_x P ps xs acc'))"
| "vk_x P _ _ acc = Inr acc"

definition verifyProofStatic :: "precompiles \<Rightarrow> 8 word \<Rightarrow> g1 \<Rightarrow> g2 \<Rightarrow> g1 \<Rightarrow> 256 word list \<Rightarrow> verifier \<Rightarrow> bool outcome" where
  "verifyProofStatic P circuitType a b c publicInputs st =
     require_else (vf_vkInitialized st circuitType) VkNotInitialized
       (let vk = vf_vks st circuitType in
        require_else (length publicInputs + 1 = length (vk_ic vk)) PublicInputCountMismatch
          (bind_result (vk_x P (tl (vk_ic vk)) publicInputs (hd (vk_ic vk))) (\<lambda>vkX.
            pairingCheck P (negateG1 a) b (vk_alpha vk) (vk_beta vk) vkX (vk_gamma vk) c (vk_delta vk))))"

definition verifyProof :: "precompiles \<Rightarrow> address \<Rightarrow> 8 word \<Rightarrow> g1 \<Rightarrow> g2 \<Rightarrow> g1 \<Rightarrow> 256 word list \<Rightarrow> verifier \<Rightarrow> verifier outcome" where
  "verifyProof P sender circuitType a b c publicInputs st =
     require_else (vf_vkInitialized st circuitType) VkNotInitialized
       (let vk = vf_vks st circuitType in
        require_else (length publicInputs + 1 = length (vk_ic vk)) PublicInputCountMismatch
          (bind_result (vk_x P (tl (vk_ic vk)) publicInputs (hd (vk_ic vk))) (\<lambda>vkX.
           bind_result (pairingCheck P (negateG1 a) b (vk_alpha vk) (vk_beta vk) vkX (vk_gamma vk) c (vk_delta vk)) (\<lambda>success.
             require_else success ProofVerificationFailed
               (Inr (st\<lparr>vf_log := vf_log st @ [ProofVerified circuitType sender]\<rparr>))))))"

definition transfer_verifier :: "address \<Rightarrow> address option \<Rightarrow> verifier \<Rightarrow> verifier outcome" where
  "transfer_verifier sender to st = bind_result (change_owner (vf_owner st) sender to) (\<lambda>own. Inr (st\<lparr>vf_owner := own\<rparr>))"

text \<open>The two entry points agree: one reverts where the other answers false.\<close>

lemma verifyProof_static:
  "verifyProof P sender k a b c xs st =
     bind_result (verifyProofStatic P k a b c xs st) (\<lambda>success. require_else success ProofVerificationFailed
       (Inr (st\<lparr>vf_log := vf_log st @ [ProofVerified k sender]\<rparr>)))"
  by (simp add: verifyProof_def verifyProofStatic_def require_else_def Let_def bind_result_def split: sum.splits)

lemma verifyProof_Inr:
  "verifyProof P sender k a b c xs st = Inr st' \<longleftrightarrow>
     verifyProofStatic P k a b c xs st = Inr True \<and> st' = st\<lparr>vf_log := vf_log st @ [ProofVerified k sender]\<rparr>"
  by (auto simp: verifyProof_static outcome_simps)

lemma push_points_append [simp]: "push_points ps stored = stored @ ps"
  by (induction ps arbitrary: stored) auto

section \<open>Residues\<close>

text \<open>The order of the group, and the documented behaviour of the multiplication: it has that order.\<close>

definition BN254_R :: nat where
  "BN254_R = 0x30644e72e131a029b85045b68181585d2833e84879b9709143e1f593f0000001"

definition mul_mod_order :: "precompiles \<Rightarrow> bool" where
  "mul_mod_order P \<longleftrightarrow> (\<forall>x y s t. unat s mod BN254_R = unat t mod BN254_R \<longrightarrow> ecMul P [x, y, s] = ecMul P [x, y, t])"

definition same_residue :: "256 word \<Rightarrow> 256 word \<Rightarrow> bool" where
  "same_residue s t \<longleftrightarrow> unat s mod BN254_R = unat t mod BN254_R"

lemma vk_x_residues:
  "mul_mod_order P \<Longrightarrow> list_all2 same_residue xs ys \<Longrightarrow> vk_x P ps xs acc = vk_x P ps ys acc"
proof (induction ps arbitrary: xs ys acc)
  case (Cons p ps)
  from Cons.prems(2) show ?case
  proof cases
    case (Cons x xs' y ys')
    then have "ecMul P [fst p, snd p, x] = ecMul P [fst p, snd p, y]"
      using \<open>mul_mod_order P\<close> unfolding mul_mod_order_def same_residue_def by blast
    then have "ec_mul P p x = ec_mul P p y"
      by (simp add: ec_mul_def)
    moreover have "vk_x P ps xs' = vk_x P ps ys'"
      by (rule ext) (use Cons.IH [OF \<open>mul_mod_order P\<close>] Cons in blast)
    ultimately show ?thesis
      by (simp add: Cons)
  qed simp
qed simp

lemma verifyProofStatic_residues:
  assumes "mul_mod_order P" "list_all2 same_residue xs ys"
  shows "verifyProofStatic P k a b c xs st = verifyProofStatic P k a b c ys st"
  using vk_x_residues [OF assms] list_all2_lengthD [OF assms(2)] by (simp add: verifyProofStatic_def)

lemma same_residue_refl [simp]: "same_residue s s"
  by (simp add: same_residue_def)

text \<open>An alias of a field element: the next number with its residue, still a word.\<close>

lemma same_residue_alias: "unat s < BN254_R \<Longrightarrow> same_residue s (s + word_of_nat BN254_R)"
  by (simp add: same_residue_def BN254_R_def unat_word_ariths unsigned_of_nat take_bit_eq_mod)

lemma alias_differs: "s + word_of_nat BN254_R \<noteq> (s :: 256 word)"
  by (simp add: BN254_R_def)

end
