(* ===== verification/Evm_Bridge.thy ===== *)
theory Evm_Bridge
  imports Evm_Base
begin

text \<open>
  contracts/evm/src/HolancBridge.sol: epoch roots of other chains and the locks of commitments. \<open>keccak256\<close> and
  SHA-256 are arguments; \<open>timestamp\<close> is that of the block. Shown: a lock is for good, and what a stored
  foreign root says was sent with a matching hash from another chain.
\<close>

section \<open>State\<close>

record outbound_message =
  om_sourceChain :: "64 word"
  om_sourceApp :: "64 word"
  om_epoch :: "64 word"
  om_nullifierRoot :: bytes32
  om_nullifierCount :: "64 word"
  om_timestamp :: "64 word"
  om_sequence :: "64 word"

record foreign_root =
  fr_sourceChain :: "64 word"
  fr_epoch :: "64 word"
  fr_nullifierRoot :: bytes32
  fr_nullifierCount :: "64 word"
  fr_messageHash :: bytes32
  fr_receivedAt :: "64 word"

record commitment_lock =
  cl_commitment :: bytes32
  cl_sourceChain :: "64 word"
  cl_destinationChain :: "64 word"
  cl_locker :: address
  cl_lockedAt :: "64 word"
  cl_isUnlocked :: bool
  cl_proofHash :: bytes32

record unlock_record =
  ur_commitment :: bytes32
  ur_sourceChain :: "64 word"
  ur_messageHash :: bytes32
  ur_unlockedAt :: "64 word"

datatype bridge_event =
    EpochRootPublished "64 word" "64 word" bytes32 "64 word" "64 word"
  | ForeignRootReceived "64 word" "64 word" bytes32 "64 word" bytes32
  | CommitmentLocked bytes32 "64 word" "64 word" address
  | CommitmentUnlocked bytes32 "64 word" bytes32
  | PeerSet "64 word" bytes32

record bridge =
  br_owner :: address
  br_pool :: address
  br_localChainId :: "64 word"
  br_localAppId :: "64 word"
  br_epochCounter :: "64 word"
  br_isActive :: bool
  br_lzEndpoint :: address
  br_outboundMessages :: "64 word \<Rightarrow> outbound_message"
  br_foreignRoots :: "64 word \<Rightarrow> 64 word \<Rightarrow> foreign_root"
  br_commitmentLocks :: "bytes32 \<Rightarrow> commitment_lock"
  br_unlockRecords :: "bytes32 \<Rightarrow> unlock_record"
  br_trustedPeers :: "64 word \<Rightarrow> bytes32"
  br_log :: "bridge_event list"

definition no_lock :: commitment_lock where
  "no_lock = \<lparr>cl_commitment = 0, cl_sourceChain = 0, cl_destinationChain = 0, cl_locker = 0, cl_lockedAt = 0,
     cl_isUnlocked = False, cl_proofHash = 0\<rparr>"

definition new_bridge :: "address \<Rightarrow> bridge" where
  "new_bridge sender = \<lparr>br_owner = sender, br_pool = 0, br_localChainId = 0, br_localAppId = 0, br_epochCounter = 0,
     br_isActive = False, br_lzEndpoint = 0,
     br_outboundMessages = (\<lambda>_. \<lparr>om_sourceChain = 0, om_sourceApp = 0, om_epoch = 0, om_nullifierRoot = 0,
       om_nullifierCount = 0, om_timestamp = 0, om_sequence = 0\<rparr>),
     br_foreignRoots = (\<lambda>_ _. \<lparr>fr_sourceChain = 0, fr_epoch = 0, fr_nullifierRoot = 0, fr_nullifierCount = 0,
       fr_messageHash = 0, fr_receivedAt = 0\<rparr>),
     br_commitmentLocks = (\<lambda>_. no_lock),
     br_unlockRecords = (\<lambda>_. \<lparr>ur_commitment = 0, ur_sourceChain = 0, ur_messageHash = 0, ur_unlockedAt = 0\<rparr>),
     br_trustedPeers = (\<lambda>_. 0), br_log = []\<rparr>"

section \<open>Operations\<close>

definition initialize_bridge :: "address \<Rightarrow> address \<Rightarrow> 64 word \<Rightarrow> 64 word \<Rightarrow> address \<Rightarrow> bridge \<Rightarrow> bridge outcome" where
  "initialize_bridge sender pool localChainId localAppId lzEndpoint st =
     only_owner (br_owner st) sender
       (require_else (br_pool st = 0) AlreadyInitialized
         (Inr (st\<lparr>br_pool := pool, br_localChainId := localChainId, br_localAppId := localAppId,
            br_lzEndpoint := lzEndpoint, br_isActive := True\<rparr>)))"

definition setTrustedPeer :: "address \<Rightarrow> 64 word \<Rightarrow> bytes32 \<Rightarrow> bridge \<Rightarrow> bridge outcome" where
  "setTrustedPeer sender chainId peer st =
     only_owner (br_owner st) sender
       (Inr (st\<lparr>br_trustedPeers := (br_trustedPeers st)(chainId := peer), br_log := br_log st @ [PeerSet chainId peer]\<rparr>))"

definition setActive :: "address \<Rightarrow> bool \<Rightarrow> bridge \<Rightarrow> bridge outcome" where
  "setActive sender active st = only_owner (br_owner st) sender (Inr (st\<lparr>br_isActive := active\<rparr>))"

definition publishEpochRoot_evm :: "address \<Rightarrow> 256 word \<Rightarrow> 64 word \<Rightarrow> bytes32 \<Rightarrow> 64 word \<Rightarrow> bridge \<Rightarrow> bridge outcome" where
  "publishEpochRoot_evm sender timestamp epoch nullifierRoot nullifierCount st =
     only_owner (br_owner st) sender
       (require_else (br_isActive st) BridgeInactive
         (let sq = br_epochCounter st in
          bind_result (checked_add sq 1) (\<lambda>next_sq.
            Inr (st\<lparr>br_outboundMessages := (br_outboundMessages st)(sq := \<lparr>om_sourceChain = br_localChainId st,
                   om_sourceApp = br_localAppId st, om_epoch = epoch, om_nullifierRoot = nullifierRoot,
                   om_nullifierCount = nullifierCount, om_timestamp = time64 timestamp, om_sequence = sq\<rparr>),
                br_log := br_log st @ [EpochRootPublished (br_localChainId st) epoch nullifierRoot nullifierCount sq],
                br_epochCounter := next_sq\<rparr>))))"

definition receiveEpochRoot_evm :: "hash_fun \<Rightarrow> address \<Rightarrow> 256 word \<Rightarrow> 64 word \<Rightarrow> 64 word \<Rightarrow> bytes32 \<Rightarrow> 64 word \<Rightarrow> bytes32 \<Rightarrow>
    bridge \<Rightarrow> bridge outcome" where
  "receiveEpochRoot_evm sha sender timestamp sourceChain epoch nullifierRoot nullifierCount messageHash st =
     only_owner (br_owner st) sender
       (require_else (br_isActive st) BridgeInactive
         (require_else (sourceChain \<noteq> br_localChainId st) CannotReceiveOwnChain
           (let computedHash = sha (packed sourceChain @ packed epoch @ packed nullifierRoot @ packed nullifierCount) in
            require_else (computedHash = messageHash) InvalidMerkleProof
              (Inr (st\<lparr>br_foreignRoots := (br_foreignRoots st)(sourceChain := (br_foreignRoots st sourceChain)(epoch :=
                     \<lparr>fr_sourceChain = sourceChain, fr_epoch = epoch, fr_nullifierRoot = nullifierRoot,
                      fr_nullifierCount = nullifierCount, fr_messageHash = messageHash, fr_receivedAt = time64 timestamp\<rparr>)),
                 br_log := br_log st @ [ForeignRootReceived sourceChain epoch nullifierRoot nullifierCount messageHash]\<rparr>)))))"

definition lockCommitment_evm :: "hash_fun \<Rightarrow> address \<Rightarrow> 256 word \<Rightarrow> bytes32 \<Rightarrow> 64 word \<Rightarrow> byte list \<Rightarrow> bridge \<Rightarrow> bridge outcome" where
  "lockCommitment_evm sha sender timestamp commitment destinationChain proof_data st =
     require_else (br_isActive st) BridgeInactive
       (require_else (destinationChain \<noteq> br_localChainId st) CannotBridgeToSelf
         (require_else (cl_lockedAt (br_commitmentLocks st commitment) = 0) CommitmentAlreadyLocked
           (Inr (st\<lparr>br_commitmentLocks := (br_commitmentLocks st)(commitment :=
                  \<lparr>cl_commitment = commitment, cl_sourceChain = br_localChainId st, cl_destinationChain = destinationChain,
                   cl_locker = sender, cl_lockedAt = time64 timestamp, cl_isUnlocked = False, cl_proofHash = sha proof_data\<rparr>),
              br_log := br_log st @ [CommitmentLocked commitment (br_localChainId st) destinationChain sender]\<rparr>))))"

definition unlockCommitment_evm :: "hash_fun \<Rightarrow> address \<Rightarrow> 256 word \<Rightarrow> bytes32 \<Rightarrow> 64 word \<Rightarrow> bytes32 \<Rightarrow> bridge \<Rightarrow> bridge outcome" where
  "unlockCommitment_evm keccak sender timestamp commitment sourceChain messageHash st =
     only_owner (br_owner st) sender
       (require_else (br_isActive st) BridgeInactive
         (require_else (sourceChain \<noteq> br_localChainId st) CannotReceiveOwnChain
           (let key = keccak (packed sourceChain @ packed commitment) in
            Inr (st\<lparr>br_unlockRecords := (br_unlockRecords st)(key := \<lparr>ur_commitment = commitment,
                   ur_sourceChain = sourceChain, ur_messageHash = messageHash, ur_unlockedAt = time64 timestamp\<rparr>),
                br_log := br_log st @ [CommitmentUnlocked commitment sourceChain messageHash]\<rparr>))))"

section \<open>Queries\<close>

definition isCommitmentLocked :: "bytes32 \<Rightarrow> bridge \<Rightarrow> bool" where
  "isCommitmentLocked commitment st \<longleftrightarrow>
     (let lock = br_commitmentLocks st commitment in cl_lockedAt lock \<noteq> 0 \<and> \<not> cl_isUnlocked lock)"

text \<open>The loop of \<open>verifyForeignNullifier\<close> from sibling \<open>i\<close>; a missing index counts as 0.\<close>

fun fold_path :: "hash_fun \<Rightarrow> bytes32 list \<Rightarrow> 8 word list \<Rightarrow> bytes32 \<Rightarrow> bytes32" where
  "fold_path sha [] is computed = computed"
| "fold_path sha (p # ps) is computed =
     (let idx = (if is \<noteq> [] then hd is else 0) in
      fold_path sha ps (tl is) (if idx = 0 then sha_pair sha computed p else sha_pair sha p computed))"

definition verifyForeignNullifier :: "hash_fun \<Rightarrow> 64 word \<Rightarrow> 64 word \<Rightarrow> bytes32 \<Rightarrow> bytes32 list \<Rightarrow> 8 word list \<Rightarrow> bridge \<Rightarrow> bool" where
  "verifyForeignNullifier sha sourceChain epoch nullifier proofPath proofIndices st \<longleftrightarrow>
     (let root = br_foreignRoots st sourceChain epoch in
      fr_receivedAt root \<noteq> 0 \<and> fold_path sha proofPath proofIndices nullifier = fr_nullifierRoot root)"


section \<open>The bridge as a state machine\<close>

datatype bridge_call =
    InitializeBridge address "64 word" "64 word" address
  | SetTrustedPeer "64 word" bytes32
  | SetActive bool
  | PublishEpochRoot "64 word" bytes32 "64 word"
  | ReceiveEpochRoot "64 word" "64 word" bytes32 "64 word" bytes32
  | LockCommitment bytes32 "64 word" "byte list"
  | UnlockCommitment bytes32 "64 word" bytes32
  | BridgeOwner "address option"

fun run_bridge :: "hash_fun \<Rightarrow> hash_fun \<Rightarrow> address \<Rightarrow> 256 word \<Rightarrow> bridge_call \<Rightarrow> bridge \<Rightarrow> bridge outcome" where
  "run_bridge sha keccak sender ts (InitializeBridge p c a e) st = initialize_bridge sender p c a e st"
| "run_bridge sha keccak sender ts (SetTrustedPeer c p) st = setTrustedPeer sender c p st"
| "run_bridge sha keccak sender ts (SetActive b) st = setActive sender b st"
| "run_bridge sha keccak sender ts (PublishEpochRoot e r n) st = publishEpochRoot_evm sender ts e r n st"
| "run_bridge sha keccak sender ts (ReceiveEpochRoot c e r n m) st = receiveEpochRoot_evm sha sender ts c e r n m st"
| "run_bridge sha keccak sender ts (LockCommitment c d p) st = lockCommitment_evm sha sender ts c d p st"
| "run_bridge sha keccak sender ts (UnlockCommitment c d m) st = unlockCommitment_evm keccak sender ts c d m st"
| "run_bridge sha keccak sender ts (BridgeOwner to) st =
     bind_result (change_owner (br_owner st) sender to) (\<lambda>own. Inr (st\<lparr>br_owner := own\<rparr>))"

inductive bridge_step :: "hash_fun \<Rightarrow> hash_fun \<Rightarrow> bridge \<Rightarrow> bridge \<Rightarrow> bool" for sha keccak where
  "run_bridge sha keccak sender ts c st = Inr st' \<Longrightarrow> bridge_step sha keccak st st'"

inductive_cases bridge_stepE: "bridge_step sha keccak st st'"

definition deployed_bridge :: "bridge \<Rightarrow> bool" where
  "deployed_bridge st \<longleftrightarrow> (\<exists>sender. st = new_bridge sender)"

text \<open>What stays true: no lock is marked unlocked, and every stored root answers for its chain, epoch and hash.\<close>

definition root_ok :: "hash_fun \<Rightarrow> 64 word \<Rightarrow> 64 word \<Rightarrow> foreign_root \<Rightarrow> bool" where
  "root_ok sha c e r \<longleftrightarrow> fr_receivedAt r \<noteq> 0 \<longrightarrow> fr_sourceChain r = c \<and> fr_epoch r = e
     \<and> fr_messageHash r = sha (packed c @ packed e @ packed (fr_nullifierRoot r) @ packed (fr_nullifierCount r))"

definition bridge_ok :: "hash_fun \<Rightarrow> bridge \<Rightarrow> bool" where
  "bridge_ok sha st \<longleftrightarrow> (\<forall>c. \<not> cl_isUnlocked (br_commitmentLocks st c))
     \<and> (\<forall>c e. root_ok sha c e (br_foreignRoots st c e))"

lemmas bridge_op_defs = initialize_bridge_def setTrustedPeer_def setActive_def publishEpochRoot_evm_def receiveEpochRoot_evm_def
  lockCommitment_evm_def unlockCommitment_evm_def

lemma run_bridge_ok: "bridge_ok sha st \<Longrightarrow> run_bridge sha keccak sender ts c st = Inr st' \<Longrightarrow> bridge_ok sha st'"
  by (cases c) (auto simp: bridge_op_defs outcome_simps Let_def bridge_ok_def root_ok_def split: if_splits)

lemma new_bridge_ok: "bridge_ok sha (new_bridge sender)"
  by (simp add: bridge_ok_def new_bridge_def no_lock_def root_ok_def)

interpretation bridge: invariant_system deployed_bridge "bridge_step sha keccak" "bridge_ok sha" for sha keccak
  by unfold_locales (auto simp: deployed_bridge_def new_bridge_ok elim!: bridge_stepE intro: run_bridge_ok)

lemma locks_kept:
  "run_bridge sha keccak sender ts c st = Inr st' \<Longrightarrow> cl_lockedAt (br_commitmentLocks st cm) \<noteq> 0 \<Longrightarrow>
    br_commitmentLocks st' cm = br_commitmentLocks st cm"
  by (cases c) (auto simp: bridge_op_defs outcome_simps Let_def)

lemma lock_anyones:
  "br_isActive st \<Longrightarrow> dest \<noteq> br_localChainId st \<Longrightarrow> cl_lockedAt (br_commitmentLocks st cm) = 0 \<Longrightarrow> time64 ts \<noteq> 0 \<Longrightarrow>
    \<exists>st'. lockCommitment_evm sha sender ts cm dest proof_data st = Inr st' \<and> isCommitmentLocked cm st'
      \<and> cl_locker (br_commitmentLocks st' cm) = sender"
  by (simp add: lockCommitment_evm_def isCommitmentLocked_def)

text \<open>
  A lock is for good and anybody's to set: on an active bridge every sender locks every commitment that is not
  locked, for every other chain and with any bytes as the proof, and what is locked in a state the bridge can reach is
  locked, by the same locker, in every later state, whatever is called, unlocking included.
\<close>

theorem bridge_locks_are_permanent:
  assumes "reachable deployed_bridge (bridge_step sha keccak) st"
  shows "(br_isActive st \<and> dest \<noteq> br_localChainId st \<and> \<not> isCommitmentLocked cm st \<and> time64 ts \<noteq> 0 \<longrightarrow>
      (\<exists>st'. lockCommitment_evm sha sender ts cm dest proof_data st = Inr st' \<and> isCommitmentLocked cm st'
        \<and> cl_locker (br_commitmentLocks st' cm) = sender))
    \<and> (isCommitmentLocked cm st \<longrightarrow> (\<forall>later. (bridge_step sha keccak)\<^sup>*\<^sup>* st later \<longrightarrow>
        isCommitmentLocked cm later \<and> br_commitmentLocks later cm = br_commitmentLocks st cm))"
proof (intro conjI impI allI)
  have "bridge_ok sha st"
    using assms by (rule bridge.reachable_inv)
  then have "\<not> cl_isUnlocked (br_commitmentLocks st cm)"
    by (simp add: bridge_ok_def)
  then show "\<exists>st'. lockCommitment_evm sha sender ts cm dest proof_data st = Inr st' \<and> isCommitmentLocked cm st'
      \<and> cl_locker (br_commitmentLocks st' cm) = sender"
    if "br_isActive st \<and> dest \<noteq> br_localChainId st \<and> \<not> isCommitmentLocked cm st \<and> time64 ts \<noteq> 0"
    using that by (intro lock_anyones) (auto simp: isCommitmentLocked_def Let_def)
next
  fix later assume locked: "isCommitmentLocked cm st" and steps: "(bridge_step sha keccak)\<^sup>*\<^sup>* st later"
  from steps have "br_commitmentLocks later cm = br_commitmentLocks st cm"
  proof (induction rule: rtranclp_induct)
    case (step mid later)
    then show ?case
      using locked by (auto simp: isCommitmentLocked_def Let_def elim!: bridge_stepE dest: locks_kept [where cm = cm])
  qed simp
  then show "br_commitmentLocks later cm = br_commitmentLocks st cm" "isCommitmentLocked cm later"
    using locked by (simp_all add: isCommitmentLocked_def)
qed

text \<open>A foreign nullifier is accepted only against a root that came with its hash.\<close>

lemma foreign_root_has_hash:
  assumes "reachable deployed_bridge (bridge_step sha keccak) st" "verifyForeignNullifier sha c e nf path is st"
  shows "fr_messageHash (br_foreignRoots st c e)
    = sha (packed c @ packed e @ packed (fold_path sha path is nf) @ packed (fr_nullifierCount (br_foreignRoots st c e)))"
  using bridge.reachable_inv [OF assms(1)] assms(2)
  by (auto simp: bridge_ok_def root_ok_def verifyForeignNullifier_def Let_def)


lemma bridge_locks_are_permanent_witness:
  "\<exists>st later. reachable deployed_bridge (bridge_step (\<lambda>_. 0) (\<lambda>_. 0)) st \<and> isCommitmentLocked 5 st
     \<and> unlockCommitment_evm (\<lambda>_. 0) 1 9 5 2 0 st = Inr later \<and> isCommitmentLocked 5 later"
proof -
  let ?sha = "\<lambda>_. 0 :: bytes32" and ?st0 = "new_bridge 1"
  define st1 where "st1 = ?st0\<lparr>br_pool := 3, br_localChainId := 1, br_localAppId := 1, br_lzEndpoint := 0, br_isActive := True\<rparr>"
  have "run_bridge ?sha ?sha 1 9 (InitializeBridge 3 1 1 0) ?st0 = Inr st1"
    by (simp add: initialize_bridge_def only_owner_def new_bridge_def st1_def)
  moreover have "reachable deployed_bridge (bridge_step ?sha ?sha) ?st0"
    by (rule reach_init) (auto simp: deployed_bridge_def)
  ultimately have reach1: "reachable deployed_bridge (bridge_step ?sha ?sha) st1"
    by (blast intro: reach_step bridge_step.intros)
  have "\<not> isCommitmentLocked 5 st1 \<and> br_isActive st1 \<and> 2 \<noteq> br_localChainId st1 \<and> time64 9 \<noteq> 0"
    by (simp add: st1_def new_bridge_def isCommitmentLocked_def no_lock_def time64_def)
  then obtain st where st: "lockCommitment_evm ?sha 8 9 5 2 [] st1 = Inr st" "isCommitmentLocked 5 st"
    using bridge_locks_are_permanent [OF reach1] by blast
  then have "run_bridge ?sha ?sha 8 9 (LockCommitment 5 2 []) st1 = Inr st"
    by simp
  with reach1 have reach: "reachable deployed_bridge (bridge_step ?sha ?sha) st"
    by (blast intro: reach_step bridge_step.intros)
  have "br_owner st = 1 \<and> br_isActive st \<and> br_localChainId st = 1"
    using st(1) by (auto simp: lockCommitment_evm_def require_else_Inr st1_def new_bridge_def)
  then obtain later where later: "unlockCommitment_evm ?sha 1 9 5 2 0 st = Inr later"
    by (simp add: unlockCommitment_evm_def only_owner_def)
  then have "(bridge_step ?sha ?sha)\<^sup>*\<^sup>* st later"
    by (intro r_into_rtranclp bridge_step.intros [of _ _ 1 9 "UnlockCommitment 5 2 0"]) simp
  then have "isCommitmentLocked 5 later"
    using bridge_locks_are_permanent [OF reach] st(2) by blast
  with reach st(2) later show ?thesis by blast
qed

end
