(* ===== verification/Evm_Pool.thy ===== *)
theory Evm_Pool
  imports Evm_Tree Evm_Nullifier Evm_Verifier Evm_Bridge
begin

text \<open>
  contracts/evm/src/HolancPool.sol: the pool, and the contracts it calls, as one world. The token is an
  argument: what its transfers do to its state, or \<open>None\<close> when they fail. The token does not call back into
  the pool, which \<open>nonReentrant\<close> would refuse.
\<close>

section \<open>State\<close>

datatype pool_event =
    PoolInitialized address address
  | DepositEvent "64 word" bytes32 "256 word" "byte list"
  | NewCommitment "64 word" bytes32 "byte list"
  | TransferEvent "bytes32 \<times> bytes32" "bytes32 \<times> bytes32" "256 word"
  | WithdrawEvent "bytes32 \<times> bytes32" "256 word" address "256 word"
  | FeeCollected "256 word"
  | RootUpdated bytes32

record pool =
  pl_owner :: address
  pl_token :: address
  pl_verifier :: address
  pl_nullifier :: address
  pl_bridge :: address
  pl_feeCollector :: address
  pl_nextLeafIndex :: "64 word"
  pl_currentRoot :: bytes32
  pl_rootHistory :: "bytes32 list"
  pl_rootHistoryIndex :: "8 word"
  pl_totalDeposited :: "256 word"
  pl_isPaused :: bool
  pl_epoch :: "64 word"
  pl_lastCommitment :: bytes32
  pl_filledSubtrees :: "bytes32 list"
  pl_sha256Root :: bytes32
  pl_zeros :: "bytes32 list"
  pl_log :: "pool_event list"

record 'tok world =
  ew_pool :: pool
  ew_verifier :: verifier
  ew_registry :: registry
  ew_bridge :: bridge
  ew_token :: 'tok

text \<open>
  What lies outside: hashes, precompiles, the address of this pool, the token's transfers (the first address is
  the caller), what others do with the token, where the bridge contract is, and what any other address answers.
\<close>

record 'tok outside =
  oe_sha :: hash_fun
  oe_keccak :: hash_fun
  oe_precompiles :: precompiles
  oe_self :: address
  oe_transferFrom :: "address \<Rightarrow> address \<Rightarrow> address \<Rightarrow> 256 word \<Rightarrow> 'tok \<Rightarrow> 'tok option"
  oe_transfer :: "address \<Rightarrow> address \<Rightarrow> 256 word \<Rightarrow> 'tok \<Rightarrow> 'tok option"
  oe_others :: "'tok \<Rightarrow> 'tok \<Rightarrow> bool"
  oe_bridgeAt :: address
  oe_answer :: "address \<Rightarrow> bytes32 \<Rightarrow> byte list option"

definition ROOT_HISTORY_SIZE :: nat where
  "ROOT_HISTORY_SIZE = 100"

definition MAX_OUTPUTS :: nat where
  "MAX_OUTPUTS = 2"

definition CIRCUIT_TRANSFER :: "8 word" where
  "CIRCUIT_TRANSFER = 1"

definition CIRCUIT_WITHDRAW :: "8 word" where
  "CIRCUIT_WITHDRAW = 2"

definition new_pool :: "hash_fun \<Rightarrow> address \<Rightarrow> address \<Rightarrow> address \<Rightarrow> address \<Rightarrow> address \<Rightarrow> pool" where
  "new_pool sha sender token verifier nullifier feeCollector =
     \<lparr>pl_owner = sender, pl_token = token, pl_verifier = verifier, pl_nullifier = nullifier, pl_bridge = 0,
      pl_feeCollector = feeCollector, pl_nextLeafIndex = 0, pl_currentRoot = 0,
      pl_rootHistory = replicate ROOT_HISTORY_SIZE 0, pl_rootHistoryIndex = 0, pl_totalDeposited = 0, pl_isPaused = False,
      pl_epoch = 0, pl_lastCommitment = 0, pl_filledSubtrees = replicate TREE_DEPTH 0, pl_sha256Root = 0,
      pl_zeros = zero_hashes sha, pl_log = [PoolInitialized token sender]\<rparr>"

section \<open>Administration\<close>

definition setBridge :: "address \<Rightarrow> address \<Rightarrow> pool \<Rightarrow> pool outcome" where
  "setBridge sender bridge st = only_owner (pl_owner st) sender (Inr (st\<lparr>pl_bridge := bridge\<rparr>))"

definition setPaused :: "address \<Rightarrow> bool \<Rightarrow> pool \<Rightarrow> pool outcome" where
  "setPaused sender paused st = only_owner (pl_owner st) sender (Inr (st\<lparr>pl_isPaused := paused\<rparr>))"

definition setFeeCollector :: "address \<Rightarrow> address \<Rightarrow> pool \<Rightarrow> pool outcome" where
  "setFeeCollector sender collector st = only_owner (pl_owner st) sender (Inr (st\<lparr>pl_feeCollector := collector\<rparr>))"

definition updateRoot :: "address \<Rightarrow> bytes32 \<Rightarrow> bytes32 \<Rightarrow> pool \<Rightarrow> pool outcome" where
  "updateRoot sender newRoot expectedSha256Root st =
     only_owner (pl_owner st) sender
       (require_else (pl_sha256Root st = expectedSha256Root) RootIntegrityMismatch
         (Inr (st\<lparr>pl_currentRoot := newRoot,
            pl_rootHistory := (pl_rootHistory st)[unat (pl_rootHistoryIndex st) := newRoot],
            pl_rootHistoryIndex := word_of_nat ((unat (pl_rootHistoryIndex st) + 1) mod ROOT_HISTORY_SIZE),
            pl_log := pl_log st @ [RootUpdated newRoot]\<rparr>)))"

section \<open>Guards\<close>

definition isKnownRoot :: "bytes32 \<Rightarrow> pool \<Rightarrow> bool" where
  "isKnownRoot rt st \<longleftrightarrow> pl_currentRoot st = rt \<or> rt \<in> set (pl_rootHistory st)"

text \<open>The static call of \<open>isCommitmentLocked(bytes32)\<close>: \<open>None\<close> when it fails, otherwise the data returned.\<close>

definition staticcall_bridge :: "'tok outside \<Rightarrow> 'tok world \<Rightarrow> bytes32 \<Rightarrow> byte list option" where
  "staticcall_bridge env w cm =
     (if pl_bridge (ew_pool w) = oe_bridgeAt env
      then Some (packed (if isCommitmentLocked cm (ew_bridge w) then 1 else 0 :: 256 word))
      else oe_answer env (pl_bridge (ew_pool w)) cm)"

definition assertNotBridgeLocked :: "'tok outside \<Rightarrow> 'tok world \<Rightarrow> bytes32 \<Rightarrow> unit outcome" where
  "assertNotBridgeLocked env w cm =
     (if pl_bridge (ew_pool w) = 0 then Inr ()
      else case staticcall_bridge env w cm of
          None \<Rightarrow> Inr ()
        | Some data \<Rightarrow>
            if 32 \<le> length data
            then (let v = be_value (take 32 data) in
                  if v = 0 then Inr () else if v = 1 then Inl CommitmentBridgeLocked else Inl EmptyRevert)
            else Inr ())"

section \<open>Deposit\<close>

definition deposit_evm :: "'tok outside \<Rightarrow> address \<Rightarrow> 256 word \<Rightarrow> bytes32 \<Rightarrow> byte list \<Rightarrow> 'tok world \<Rightarrow> 'tok world outcome" where
  "deposit_evm env sender amount commitment encryptedNote w =
     (let st = ew_pool w in
      require_else (\<not> pl_isPaused st) PoolPaused
       (require_else (amount \<noteq> 0) ZeroAmount
        (require_else (length encryptedNote \<le> 256) EncryptedNoteTooLarge
         (case oe_transferFrom env (oe_self env) sender (oe_self env) amount (ew_token w) of
            None \<Rightarrow> Inl TokenReverted
          | Some tok \<Rightarrow>
              bind_result (checked_add (pl_nextLeafIndex st) 1) (\<lambda>next_index.
              require_else (next_index \<noteq> 0) TreeFull
               (bind_result (checked_add (pl_totalDeposited st) amount) (\<lambda>total.
                  case insertLeaf (oe_sha env) (pl_zeros st) (pl_nextLeafIndex st) commitment (pl_filledSubtrees st) of
                    (filled, root) \<Rightarrow>
                      Inr (w\<lparr>ew_token := tok, ew_pool := st\<lparr>pl_nextLeafIndex := next_index, pl_totalDeposited := total,
                        pl_lastCommitment := commitment, pl_filledSubtrees := filled, pl_sha256Root := root,
                        pl_log := pl_log st @ [DepositEvent (pl_nextLeafIndex st) commitment amount encryptedNote]\<rparr>\<rparr>))))))))"

section \<open>Transfer and withdrawal\<close>

record transfer_call =
  tc_merkleRoot :: bytes32
  tc_nullifiers :: "bytes32 \<times> bytes32"
  tc_outputs :: "bytes32 \<times> bytes32"
  tc_fee :: "256 word"
  tc_notes :: "byte list list"
  tc_proofA :: g1
  tc_proofB :: g2
  tc_proofC :: g1

record withdraw_call = transfer_call +
  wc_exitAmount :: "256 word"
  wc_recipient :: address

text \<open>The steps the two handlers share: the nullifiers are registered, the outputs get their leaf numbers, the fee is paid.\<close>

definition register_both :: "'tok outside \<Rightarrow> bytes32 \<times> bytes32 \<Rightarrow> registry \<Rightarrow> registry outcome" where
  "register_both env nfs reg =
     bind_result (registerNullifier (oe_sha env) (oe_self env) 0 (fst nfs) reg)
       (registerNullifier (oe_sha env) (oe_self env) 0 (snd nfs))"

fun append_outputs :: "(bytes32 \<times> byte list) list \<Rightarrow> pool \<Rightarrow> pool outcome" where
  "append_outputs [] st = Inr st"
| "append_outputs ((cm, nt) # outs) st =
     bind_result (checked_add (pl_nextLeafIndex st) 1) (\<lambda>next_index.
       require_else (next_index \<noteq> 0) TreeFull
         (append_outputs outs (st\<lparr>pl_nextLeafIndex := next_index,
            pl_log := pl_log st @ [NewCommitment (pl_nextLeafIndex st) cm nt]\<rparr>)))"

definition pay :: "'tok outside \<Rightarrow> address \<Rightarrow> 256 word \<Rightarrow> 'tok world \<Rightarrow> 'tok world outcome" where
  "pay env to amount w =
     (case oe_transfer env (oe_self env) to amount (ew_token w) of
        None \<Rightarrow> Inl TokenReverted
      | Some tok \<Rightarrow> Inr (w\<lparr>ew_token := tok\<rparr>))"

definition emit :: "pool_event \<Rightarrow> 'tok world \<Rightarrow> 'tok world" where
  "emit e w = w\<lparr>ew_pool := (ew_pool w)\<lparr>pl_log := pl_log (ew_pool w) @ [e]\<rparr>\<rparr>"

definition transfer_inputs :: "'a transfer_call_scheme \<Rightarrow> 256 word list" where
  "transfer_inputs c = [tc_merkleRoot c, fst (tc_nullifiers c), snd (tc_nullifiers c), fst (tc_outputs c),
     snd (tc_outputs c), tc_fee c]"

definition withdraw_inputs :: "withdraw_call \<Rightarrow> 256 word list" where
  "withdraw_inputs c = [tc_merkleRoot c, fst (tc_nullifiers c), snd (tc_nullifiers c), fst (tc_outputs c),
     snd (tc_outputs c), wc_exitAmount c, tc_fee c]"

definition paired_outputs :: "'a transfer_call_scheme \<Rightarrow> (bytes32 \<times> byte list) list" where
  "paired_outputs c = zip [fst (tc_outputs c), snd (tc_outputs c)] (tc_notes c)"

definition transfer_evm :: "'tok outside \<Rightarrow> transfer_call \<Rightarrow> 'tok world \<Rightarrow> 'tok world outcome" where
  "transfer_evm env c w =
     (let st = ew_pool w in
      require_else (\<not> pl_isPaused st) PoolPaused
       (require_else (isKnownRoot (tc_merkleRoot c) st) UnknownMerkleRoot
        (require_else (length (tc_notes c) = MAX_OUTPUTS) MissingEncryptedNote
         (bind_result (assertNotBridgeLocked env w (fst (tc_nullifiers c))) (\<lambda>_.
          bind_result (assertNotBridgeLocked env w (snd (tc_nullifiers c))) (\<lambda>_.
          bind_result (verifyProof (oe_precompiles env) (oe_self env) CIRCUIT_TRANSFER (tc_proofA c) (tc_proofB c) (tc_proofC c)
            (transfer_inputs c) (ew_verifier w)) (\<lambda>verifier.
          bind_result (register_both env (tc_nullifiers c) (ew_registry w)) (\<lambda>reg.
          bind_result (append_outputs (paired_outputs c) st) (\<lambda>st'.
          let w' = w\<lparr>ew_verifier := verifier, ew_registry := reg, ew_pool := st'\<rparr> in
          bind_result (if tc_fee c > 0
              then bind_result (pay env (pl_feeCollector st) (tc_fee c) w') (\<lambda>v. Inr (emit (FeeCollected (tc_fee c)) v))
              else Inr w') (\<lambda>w''.
          Inr (emit (TransferEvent (tc_nullifiers c) (tc_outputs c) (tc_fee c)) w'')))))))))))"

definition withdraw_evm :: "'tok outside \<Rightarrow> withdraw_call \<Rightarrow> 'tok world \<Rightarrow> 'tok world outcome" where
  "withdraw_evm env c w =
     (let st = ew_pool w in
      require_else (\<not> pl_isPaused st) PoolPaused
       (require_else (wc_exitAmount c \<noteq> 0) ZeroAmount
        (require_else (isKnownRoot (tc_merkleRoot c) st) UnknownMerkleRoot
         (require_else (length (tc_notes c) = MAX_OUTPUTS) MissingEncryptedNote
          (bind_result (assertNotBridgeLocked env w (fst (tc_nullifiers c))) (\<lambda>_.
           bind_result (assertNotBridgeLocked env w (snd (tc_nullifiers c))) (\<lambda>_.
           bind_result (verifyProof (oe_precompiles env) (oe_self env) CIRCUIT_WITHDRAW (tc_proofA c) (tc_proofB c) (tc_proofC c)
             (withdraw_inputs c) (ew_verifier w)) (\<lambda>verifier.
           bind_result (checked_add (wc_exitAmount c) (tc_fee c)) (\<lambda>due.
           require_else (due \<le> pl_totalDeposited st) InsufficientPoolBalance
            (bind_result (register_both env (tc_nullifiers c) (ew_registry w)) (\<lambda>reg.
             bind_result (checked_sub (pl_totalDeposited st) (wc_exitAmount c)) (\<lambda>total.
             bind_result (pay env (wc_recipient c) (wc_exitAmount c)
               (w\<lparr>ew_verifier := verifier, ew_registry := reg, ew_pool := st\<lparr>pl_totalDeposited := total\<rparr>\<rparr>)) (\<lambda>w1.
             bind_result (append_outputs (paired_outputs c) (ew_pool w1)) (\<lambda>st'.
             let w2 = w1\<lparr>ew_pool := st'\<rparr> in
             bind_result (if tc_fee c > 0
                 then bind_result (checked_sub (pl_totalDeposited st') (tc_fee c)) (\<lambda>total'.
                   bind_result (pay env (pl_feeCollector st') (tc_fee c) (w2\<lparr>ew_pool := st'\<lparr>pl_totalDeposited := total'\<rparr>\<rparr>)) (\<lambda>w3.
                     Inr (emit (FeeCollected (tc_fee c)) w3)))
                 else Inr w2) (\<lambda>w4.
             Inr (emit (WithdrawEvent (tc_nullifiers c) (wc_exitAmount c) (wc_recipient c) (tc_fee c)) w4))))))))))))))))"

end
