(* ===== verification/Evm_Pool_Calls.thy ===== *)
theory Evm_Pool_Calls
  imports Evm_Pool
begin

text \<open>
  When each handler of the pool returns, and the world it leaves; the pool and its contracts as a state machine.
\<close>

named_theorems pool_simps \<open>what an operation of the pool needs and leaves\<close>

section \<open>The shared steps\<close>

fun output_events :: "64 word \<Rightarrow> (bytes32 \<times> byte list) list \<Rightarrow> pool_event list" where
  "output_events i [] = []"
| "output_events i ((cm, nt) # outs) = NewCommitment i cm nt # output_events (i + 1) outs"

lemma append_outputs_Inr:
  "append_outputs outs st = Inr st' \<longleftrightarrow> unat (pl_nextLeafIndex st) + length outs < 2 ^ 64
     \<and> st' = st\<lparr>pl_nextLeafIndex := pl_nextLeafIndex st + word_of_nat (length outs),
         pl_log := pl_log st @ output_events (pl_nextLeafIndex st) outs\<rparr>"
proof (induction outs arbitrary: st)
  case (Cons x outs)
  obtain cm nt where x: "x = (cm, nt)" by (cases x)
  have "unat (pl_nextLeafIndex st + 1) = unat (pl_nextLeafIndex st) + 1" and "pl_nextLeafIndex st + 1 \<noteq> 0"
    if "unat (pl_nextLeafIndex st) + 1 < 2 ^ 64"
    using that by (auto simp: unat_word_ariths word_unat_eq_iff)
  then show ?case
    by (auto simp: x outcome_simps Cons.IH add.assoc)
next
  case Nil
  have "unat (pl_nextLeafIndex st) < 2 ^ 64"
    using unsigned_less [of "pl_nextLeafIndex st"] by simp
  then show ?case by auto
qed

lemma length_paired_outputs [simp]: "length (tc_notes c) = MAX_OUTPUTS \<Longrightarrow> length (paired_outputs c) = 2"
  by (simp add: paired_outputs_def MAX_OUTPUTS_def)

lemma pay_Inr: "pay env to amount w = Inr w' \<longleftrightarrow>
    (\<exists>tok. oe_transfer env (oe_self env) to amount (ew_token w) = Some tok \<and> w' = w\<lparr>ew_token := tok\<rparr>)"
  by (auto simp: pay_def split: option.splits)

lemma unat_less_2p: "unat (x :: 256 word) < 2 ^ 256"
  using unsigned_less [of x] by simp

abbreviation spent_slots :: "registry \<Rightarrow> nat set" where
  "spent_slots reg \<equiv> slots (nr_pages reg 0)"

abbreviation nf_slot :: "'tok outside \<Rightarrow> bytes32 \<Rightarrow> nat" where
  "nf_slot env nf \<equiv> slot_of (oe_sha env (packed nf))"

lemma registerNullifier_ok:
  assumes "registry_ok reg" "registerNullifier sha sender 0 nf reg = Inr reg'"
  shows "registry_ok reg'" "slot_of (sha (packed nf)) \<notin> spent_slots reg"
    "spent_slots reg' = insert (slot_of (sha (packed nf))) (spent_slots reg)" "sender = nr_registrar reg"
    "nr_registrar reg' = nr_registrar reg" "nr_pool reg' = nr_pool reg"
    "unat (nr_totalNullifiers reg') = Suc (unat (nr_totalNullifiers reg))"
proof -
  obtain event where run: "register_digest 0 (sha (packed nf)) event reg = Inr reg'" and "sender = nr_registrar reg"
    using assms(2) by (auto simp: registerNullifier_def require_else_Inr)
  then show "registry_ok reg'" "slot_of (sha (packed nf)) \<notin> spent_slots reg"
    "spent_slots reg' = insert (slot_of (sha (packed nf))) (spent_slots reg)" "sender = nr_registrar reg"
    "nr_registrar reg' = nr_registrar reg" "nr_pool reg' = nr_pool reg"
    "unat (nr_totalNullifiers reg') = Suc (unat (nr_totalNullifiers reg))"
    using register_digest_ok [OF assms(1) run] register_digest_frame [OF run] register_digest_Inr [OF assms(1)] by simp_all
qed

lemma registerNullifier_free:
  assumes "registry_ok reg" "sender = nr_registrar reg" "slot_of (sha (packed nf)) \<notin> spent_slots reg"
    "unat (nr_totalNullifiers reg) + 1 < 2 ^ 64"
  shows "\<exists>reg'. registerNullifier sha sender 0 nf reg = Inr reg'"
  using assms register_digest_Inr [OF assms(1)] by (simp add: registerNullifier_def)

lemma register_both_ok:
  assumes "registry_ok reg" "register_both env nfs reg = Inr reg'"
  shows "registry_ok reg'" "nf_slot env (fst nfs) \<notin> spent_slots reg" "nf_slot env (snd nfs) \<notin> spent_slots reg"
    "nf_slot env (fst nfs) \<noteq> nf_slot env (snd nfs)"
    "spent_slots reg' = {nf_slot env (fst nfs), nf_slot env (snd nfs)} \<union> spent_slots reg"
    "nr_registrar reg = oe_self env" "nr_registrar reg' = oe_self env" "nr_pool reg' = nr_pool reg"
    "unat (nr_totalNullifiers reg') = unat (nr_totalNullifiers reg) + 2"
proof -
  obtain mid where mid: "registerNullifier (oe_sha env) (oe_self env) 0 (fst nfs) reg = Inr mid"
    "registerNullifier (oe_sha env) (oe_self env) 0 (snd nfs) mid = Inr reg'"
    using assms(2) by (auto simp: register_both_def bind_result_Inr_iff)
  note one = registerNullifier_ok [OF assms(1) mid(1)]
  note two = registerNullifier_ok [OF one(1) mid(2)]
  show "registry_ok reg'" by (rule two(1))
  show "nf_slot env (fst nfs) \<notin> spent_slots reg" by (rule one(2))
  show "nf_slot env (snd nfs) \<notin> spent_slots reg" "nf_slot env (fst nfs) \<noteq> nf_slot env (snd nfs)"
    using two(2) unfolding one(3) by simp_all
  show "spent_slots reg' = {nf_slot env (fst nfs), nf_slot env (snd nfs)} \<union> spent_slots reg"
    unfolding two(3) one(3) by blast
  show "nr_registrar reg = oe_self env" by (rule one(4) [symmetric])
  show "nr_registrar reg' = oe_self env" unfolding two(5) by (rule two(4) [symmetric])
  show "nr_pool reg' = nr_pool reg" "unat (nr_totalNullifiers reg') = unat (nr_totalNullifiers reg) + 2"
    using one(6,7) two(6,7) by simp_all
qed

lemma register_both_free:
  assumes "registry_ok reg" "nr_registrar reg = oe_self env" "unat (nr_totalNullifiers reg) + 2 < 2 ^ 64"
    and "nf_slot env (fst nfs) \<notin> spent_slots reg" "nf_slot env (snd nfs) \<notin> spent_slots reg"
    and "nf_slot env (fst nfs) \<noteq> nf_slot env (snd nfs)"
  shows "\<exists>reg'. register_both env nfs reg = Inr reg'"
proof -
  have "unat (nr_totalNullifiers reg) + 1 < 2 ^ 64"
    using assms(3) by simp
  then obtain mid where mid: "registerNullifier (oe_sha env) (oe_self env) 0 (fst nfs) reg = Inr mid"
    using registerNullifier_free [of reg "oe_self env" "oe_sha env" "fst nfs", OF assms(1) assms(2) [symmetric] assms(4)] by blast
  note one = registerNullifier_ok [OF assms(1) mid]
  have self: "oe_self env = nr_registrar mid"
    unfolding one(5) by (rule assms(2) [symmetric])
  have fresh: "nf_slot env (snd nfs) \<notin> spent_slots mid" and room: "unat (nr_totalNullifiers mid) + 1 < 2 ^ 64"
    unfolding one(3,7) using assms(3,5,6) by auto
  obtain reg' where "registerNullifier (oe_sha env) (oe_self env) 0 (snd nfs) mid = Inr reg'"
    using registerNullifier_free [of mid "oe_self env" "oe_sha env" "snd nfs", OF one(1) self fresh room] by blast
  with mid show ?thesis
    by (simp add: register_both_def)
qed

section \<open>The handlers\<close>

lemma deposit_Inr:
  "deposit_evm env sender amount cm nt w = Inr w' \<longleftrightarrow>
     \<not> pl_isPaused (ew_pool w) \<and> amount \<noteq> 0 \<and> length nt \<le> 256
     \<and> unat (pl_nextLeafIndex (ew_pool w)) + 1 < 2 ^ 64 \<and> unat (pl_totalDeposited (ew_pool w)) + unat amount < 2 ^ 256
     \<and> (\<exists>tok filled root. oe_transferFrom env (oe_self env) sender (oe_self env) amount (ew_token w) = Some tok
       \<and> insertLeaf (oe_sha env) (pl_zeros (ew_pool w)) (pl_nextLeafIndex (ew_pool w)) cm (pl_filledSubtrees (ew_pool w)) = (filled, root)
       \<and> w' = w\<lparr>ew_token := tok, ew_pool := (ew_pool w)\<lparr>pl_nextLeafIndex := pl_nextLeafIndex (ew_pool w) + 1,
           pl_totalDeposited := pl_totalDeposited (ew_pool w) + amount, pl_lastCommitment := cm,
           pl_filledSubtrees := filled, pl_sha256Root := root,
           pl_log := pl_log (ew_pool w) @ [DepositEvent (pl_nextLeafIndex (ew_pool w)) cm amount nt]\<rparr>\<rparr>)"
proof -
  have "pl_nextLeafIndex (ew_pool w) + 1 \<noteq> 0" if "unat (pl_nextLeafIndex (ew_pool w)) + 1 < 2 ^ 64"
    using that by (auto simp: word_unat_eq_iff unat_word_ariths)
  then show ?thesis
    by (auto simp: deposit_evm_def Let_def outcome_simps split: option.splits prod.splits)
qed

text \<open>The events of the fee, and its payment: nothing happens for a fee of zero.\<close>

definition fee_events :: "256 word \<Rightarrow> pool_event list" where
  "fee_events fee = (if fee > 0 then [FeeCollected fee] else [])"

definition pays_fee :: "'tok outside \<Rightarrow> address \<Rightarrow> 256 word \<Rightarrow> 'tok \<Rightarrow> 'tok \<Rightarrow> bool" where
  "pays_fee env collector fee tok tok' \<longleftrightarrow>
     (if fee > 0 then oe_transfer env (oe_self env) collector fee tok = Some tok' else tok' = tok)"

lemma transfer_Inr:
  "transfer_evm env c w = Inr w' \<longleftrightarrow>
     \<not> pl_isPaused (ew_pool w) \<and> isKnownRoot (tc_merkleRoot c) (ew_pool w) \<and> length (tc_notes c) = MAX_OUTPUTS
     \<and> assertNotBridgeLocked env w (fst (tc_nullifiers c)) = Inr () \<and> assertNotBridgeLocked env w (snd (tc_nullifiers c)) = Inr ()
     \<and> verifyProofStatic (oe_precompiles env) CIRCUIT_TRANSFER (tc_proofA c) (tc_proofB c) (tc_proofC c) (transfer_inputs c)
         (ew_verifier w) = Inr True
     \<and> unat (pl_nextLeafIndex (ew_pool w)) + 2 < 2 ^ 64
     \<and> (\<exists>reg tok. register_both env (tc_nullifiers c) (ew_registry w) = Inr reg
       \<and> pays_fee env (pl_feeCollector (ew_pool w)) (tc_fee c) (ew_token w) tok
       \<and> w' = w\<lparr>ew_verifier := (ew_verifier w)\<lparr>vf_log := vf_log (ew_verifier w) @ [ProofVerified CIRCUIT_TRANSFER (oe_self env)]\<rparr>,
           ew_registry := reg, ew_token := tok,
           ew_pool := (ew_pool w)\<lparr>pl_nextLeafIndex := pl_nextLeafIndex (ew_pool w) + 2,
             pl_log := pl_log (ew_pool w) @ output_events (pl_nextLeafIndex (ew_pool w)) (paired_outputs c)
               @ fee_events (tc_fee c) @ [TransferEvent (tc_nullifiers c) (tc_outputs c) (tc_fee c)]\<rparr>\<rparr>)"
  unfolding transfer_evm_def Let_def outcome_simps verifyProof_Inr append_outputs_Inr
  by (cases "tc_fee c > 0") (auto simp: pay_Inr emit_def fee_events_def pays_fee_def bind_result_Inr_iff)

lemma both_due:
  fixes e f t :: "256 word"
  assumes "unat e + unat f < 2 ^ 256" "e + f \<le> t"
  shows "e \<le> t" "f \<le> t - e"
proof -
  have "unat e + unat f \<le> unat t"
    using assms by (simp add: word_le_nat_alt unat_word_ariths)
  then show "e \<le> t" "f \<le> t - e"
    by (simp_all add: word_le_nat_alt unat_sub)
qed

lemma withdraw_Inr:
  "withdraw_evm env c w = Inr w' \<longleftrightarrow>
     \<not> pl_isPaused (ew_pool w) \<and> wc_exitAmount c \<noteq> 0 \<and> isKnownRoot (tc_merkleRoot c) (ew_pool w)
     \<and> length (tc_notes c) = MAX_OUTPUTS
     \<and> assertNotBridgeLocked env w (fst (tc_nullifiers c)) = Inr () \<and> assertNotBridgeLocked env w (snd (tc_nullifiers c)) = Inr ()
     \<and> verifyProofStatic (oe_precompiles env) CIRCUIT_WITHDRAW (tc_proofA c) (tc_proofB c) (tc_proofC c) (withdraw_inputs c)
         (ew_verifier w) = Inr True
     \<and> unat (wc_exitAmount c) + unat (tc_fee c) \<le> unat (pl_totalDeposited (ew_pool w))
     \<and> unat (pl_nextLeafIndex (ew_pool w)) + 2 < 2 ^ 64
     \<and> (\<exists>reg tok1 tok. register_both env (tc_nullifiers c) (ew_registry w) = Inr reg
       \<and> oe_transfer env (oe_self env) (wc_recipient c) (wc_exitAmount c) (ew_token w) = Some tok1
       \<and> pays_fee env (pl_feeCollector (ew_pool w)) (tc_fee c) tok1 tok
       \<and> w' = w\<lparr>ew_verifier := (ew_verifier w)\<lparr>vf_log := vf_log (ew_verifier w) @ [ProofVerified CIRCUIT_WITHDRAW (oe_self env)]\<rparr>,
           ew_registry := reg, ew_token := tok,
           ew_pool := (ew_pool w)\<lparr>pl_nextLeafIndex := pl_nextLeafIndex (ew_pool w) + 2,
             pl_totalDeposited := pl_totalDeposited (ew_pool w) - wc_exitAmount c - tc_fee c,
             pl_log := pl_log (ew_pool w) @ output_events (pl_nextLeafIndex (ew_pool w)) (paired_outputs c)
               @ fee_events (tc_fee c) @ [WithdrawEvent (tc_nullifiers c) (wc_exitAmount c) (wc_recipient c) (tc_fee c)]\<rparr>\<rparr>)"
proof -
  have due: "unat (wc_exitAmount c) + unat (tc_fee c) < 2 ^ 256
      \<and> wc_exitAmount c + tc_fee c \<le> pl_totalDeposited (ew_pool w)
    \<longleftrightarrow> unat (wc_exitAmount c) + unat (tc_fee c) \<le> unat (pl_totalDeposited (ew_pool w))"
    using unat_less_2p [of "pl_totalDeposited (ew_pool w)"]
    by (auto simp: word_le_nat_alt unat_word_ariths)
  show ?thesis
    unfolding withdraw_evm_def Let_def require_else_Inr bind_result_Inr_iff checked_add_Inr checked_sub_Inr verifyProof_Inr
      append_outputs_Inr due [symmetric]
    by (cases "ew_pool w"; cases "tc_fee c = 0")
      (auto simp: pay_Inr emit_def fee_events_def pays_fee_def bind_result_Inr_iff checked_sub_Inr word_neq_0_conv both_due)
qed


lemma withdraw_runs:
  assumes "\<not> pl_isPaused (ew_pool w)" "wc_exitAmount c \<noteq> 0" "isKnownRoot (tc_merkleRoot c) (ew_pool w)"
    and "length (tc_notes c) = MAX_OUTPUTS"
    and "assertNotBridgeLocked env w (fst (tc_nullifiers c)) = Inr ()" "assertNotBridgeLocked env w (snd (tc_nullifiers c)) = Inr ()"
    and "verifyProofStatic (oe_precompiles env) CIRCUIT_WITHDRAW (tc_proofA c) (tc_proofB c) (tc_proofC c) (withdraw_inputs c)
         (ew_verifier w) = Inr True"
    and "unat (wc_exitAmount c) + unat (tc_fee c) \<le> unat (pl_totalDeposited (ew_pool w))"
    and "unat (pl_nextLeafIndex (ew_pool w)) + 2 < 2 ^ 64"
    and "register_both env (tc_nullifiers c) (ew_registry w) = Inr reg"
    and "oe_transfer env (oe_self env) (wc_recipient c) (wc_exitAmount c) (ew_token w) = Some tok_paid"
    and "pays_fee env (pl_feeCollector (ew_pool w)) (tc_fee c) tok_paid tok"
  shows "\<exists>w'. withdraw_evm env c w = Inr w' \<and> ew_token w' = tok \<and> ew_registry w' = reg
    \<and> pl_totalDeposited (ew_pool w') = pl_totalDeposited (ew_pool w) - wc_exitAmount c - tc_fee c"
proof -
  let ?w = "w\<lparr>ew_verifier := (ew_verifier w)\<lparr>vf_log := vf_log (ew_verifier w) @ [ProofVerified CIRCUIT_WITHDRAW (oe_self env)]\<rparr>,
     ew_registry := reg, ew_token := tok,
     ew_pool := (ew_pool w)\<lparr>pl_nextLeafIndex := pl_nextLeafIndex (ew_pool w) + 2,
       pl_totalDeposited := pl_totalDeposited (ew_pool w) - wc_exitAmount c - tc_fee c,
       pl_log := pl_log (ew_pool w) @ output_events (pl_nextLeafIndex (ew_pool w)) (paired_outputs c)
         @ fee_events (tc_fee c) @ [WithdrawEvent (tc_nullifiers c) (wc_exitAmount c) (wc_recipient c) (tc_fee c)]\<rparr>\<rparr>"
  have "withdraw_evm env c w = Inr ?w"
    unfolding withdraw_Inr using assms by blast
  then show ?thesis
    by (intro exI [of _ ?w]) simp
qed


lemma transfer_runs:
  assumes "\<not> pl_isPaused (ew_pool w)" "isKnownRoot (tc_merkleRoot c) (ew_pool w)" "length (tc_notes c) = MAX_OUTPUTS"
    and "assertNotBridgeLocked env w (fst (tc_nullifiers c)) = Inr ()" "assertNotBridgeLocked env w (snd (tc_nullifiers c)) = Inr ()"
    and "verifyProofStatic (oe_precompiles env) CIRCUIT_TRANSFER (tc_proofA c) (tc_proofB c) (tc_proofC c) (transfer_inputs c)
         (ew_verifier w) = Inr True"
    and "unat (pl_nextLeafIndex (ew_pool w)) + 2 < 2 ^ 64"
    and "register_both env (tc_nullifiers c) (ew_registry w) = Inr reg"
    and "pays_fee env (pl_feeCollector (ew_pool w)) (tc_fee c) (ew_token w) tok"
  shows "\<exists>w'. transfer_evm env c w = Inr w' \<and> ew_token w' = tok \<and> ew_registry w' = reg
    \<and> pl_totalDeposited (ew_pool w') = pl_totalDeposited (ew_pool w)"
proof -
  let ?w = "w\<lparr>ew_verifier := (ew_verifier w)\<lparr>vf_log := vf_log (ew_verifier w) @ [ProofVerified CIRCUIT_TRANSFER (oe_self env)]\<rparr>,
     ew_registry := reg, ew_token := tok,
     ew_pool := (ew_pool w)\<lparr>pl_nextLeafIndex := pl_nextLeafIndex (ew_pool w) + 2,
       pl_log := pl_log (ew_pool w) @ output_events (pl_nextLeafIndex (ew_pool w)) (paired_outputs c)
         @ fee_events (tc_fee c) @ [TransferEvent (tc_nullifiers c) (tc_outputs c) (tc_fee c)]\<rparr>\<rparr>"
  have "transfer_evm env c w = Inr ?w"
    unfolding transfer_Inr using assms by blast
  then show ?thesis
    by (intro exI [of _ ?w]) simp
qed

end
