(* ===== verification/Evm_Pool_Run.thy ===== *)
theory Evm_Pool_Run
  imports Evm_Pool_Calls
begin

text \<open>
  The pool and its contracts as one state machine: anyone may call any contract at any time, and the token moves
  on its own. Its invariants: what the log says was spent, the known roots, the tree, and the books.
\<close>

section \<open>Steps\<close>

datatype pool_call =
    CallDeposit "256 word" bytes32 "byte list"
  | CallTransfer transfer_call
  | CallWithdraw withdraw_call
  | CallUpdateRoot bytes32 bytes32
  | CallSetBridge address
  | CallSetPaused bool
  | CallSetFeeCollector address
  | CallOwner "address option"

definition on_pool :: "(pool \<Rightarrow> pool outcome) \<Rightarrow> 'tok world \<Rightarrow> 'tok world outcome" where
  "on_pool f w = bind_result (f (ew_pool w)) (\<lambda>st. Inr (w\<lparr>ew_pool := st\<rparr>))"

fun run_pool :: "'tok outside \<Rightarrow> address \<Rightarrow> pool_call \<Rightarrow> 'tok world \<Rightarrow> 'tok world outcome" where
  "run_pool env sender (CallDeposit amount cm nt) w = deposit_evm env sender amount cm nt w"
| "run_pool env sender (CallTransfer c) w = transfer_evm env c w"
| "run_pool env sender (CallWithdraw c) w = withdraw_evm env c w"
| "run_pool env sender (CallUpdateRoot rt expected) w = on_pool (updateRoot sender rt expected) w"
| "run_pool env sender (CallSetBridge b) w = on_pool (setBridge sender b) w"
| "run_pool env sender (CallSetPaused b) w = on_pool (setPaused sender b) w"
| "run_pool env sender (CallSetFeeCollector a) w = on_pool (setFeeCollector sender a) w"
| "run_pool env sender (CallOwner to) w =
     on_pool (\<lambda>st. bind_result (change_owner (pl_owner st) sender to) (\<lambda>own. Inr (st\<lparr>pl_owner := own\<rparr>))) w"

text \<open>The pool itself calls no contract but in its handlers, so every other caller is another address.\<close>

inductive world_step :: "'tok outside \<Rightarrow> 'tok world \<Rightarrow> 'tok world \<Rightarrow> bool" for env where
  pool_call: "sender \<noteq> oe_self env \<Longrightarrow> run_pool env sender c w = Inr w' \<Longrightarrow> world_step env w w'"
| registry_call: "sender \<noteq> oe_self env \<Longrightarrow> run_registry (oe_sha env) sender blk rc (ew_registry w) = Inr reg \<Longrightarrow>
    world_step env w (w\<lparr>ew_registry := reg\<rparr>)"
| bridge_call: "run_bridge (oe_sha env) (oe_keccak env) sender ts bc (ew_bridge w) = Inr br \<Longrightarrow>
    world_step env w (w\<lparr>ew_bridge := br\<rparr>)"
| key_call: "initializeVk sender k alpha beta gamma delta ic (ew_verifier w) = Inr vf \<Longrightarrow>
    world_step env w (w\<lparr>ew_verifier := vf\<rparr>)"
| verify_call: "verifyProof (oe_precompiles env) sender k a b c xs (ew_verifier w) = Inr vf \<Longrightarrow>
    world_step env w (w\<lparr>ew_verifier := vf\<rparr>)"
| verifier_owner: "transfer_verifier sender to (ew_verifier w) = Inr vf \<Longrightarrow>
    world_step env w (w\<lparr>ew_verifier := vf\<rparr>)"
| token_moves: "oe_others env (ew_token w) tok \<Longrightarrow> world_step env w (w\<lparr>ew_token := tok\<rparr>)"

text \<open>A deployment: fresh contracts, and the pool registered with the registry.\<close>

definition deployed :: "'tok outside \<Rightarrow> 'tok world \<Rightarrow> bool" where
  "deployed env w \<longleftrightarrow> oe_self env \<noteq> 0
     \<and> (\<exists>sender token vf nf collector. ew_pool w = new_pool (oe_sha env) sender token vf nf collector)
     \<and> (\<exists>own blk duration. initialize_registry own blk (oe_self env) (oe_self env) duration (new_registry own) = Inr (ew_registry w))
     \<and> (\<exists>own. ew_verifier w = new_verifier own) \<and> (\<exists>own. ew_bridge w = new_bridge own)"

lemma deployed_facts:
  assumes "deployed env w"
  shows "oe_self env \<noteq> 0" "nr_registrar (ew_registry w) = oe_self env" "nr_pool (ew_registry w) = oe_self env"
    "nr_pages (ew_registry w) = (\<lambda>_. empty_page)" "nr_totalNullifiers (ew_registry w) = 0"
    "\<exists>sender token vf nf collector. ew_pool w = new_pool (oe_sha env) sender token vf nf collector"
proof -
  obtain own blk duration where
    "initialize_registry own blk (oe_self env) (oe_self env) duration (new_registry own) = Inr (ew_registry w)"
    using assms by (auto simp: deployed_def)
  then have "ew_registry w = (new_registry own)\<lparr>nr_pool := oe_self env, nr_registrar := oe_self env,
      nr_epochStartBlock := blk, nr_epochDurationBlocks := duration\<rparr>"
    by (simp add: initialize_registry_def outcome_simps)
  then show "nr_registrar (ew_registry w) = oe_self env" "nr_pool (ew_registry w) = oe_self env"
    "nr_pages (ew_registry w) = (\<lambda>_. empty_page)" "nr_totalNullifiers (ew_registry w) = 0"
    by (simp_all add: new_registry_def)
qed (use assms in \<open>simp_all add: deployed_def\<close>)

section \<open>What is spent\<close>

fun spent_of :: "pool_event \<Rightarrow> bytes32 list" where
  "spent_of (TransferEvent nfs _ _) = [fst nfs, snd nfs]"
| "spent_of (WithdrawEvent nfs _ _ _) = [fst nfs, snd nfs]"
| "spent_of _ = []"

definition spent_nullifiers :: "pool_event list \<Rightarrow> bytes32 list" where
  "spent_nullifiers es = concat (map spent_of es)"

lemma spent_nullifiers_simps [simp, pool_simps]:
  "spent_nullifiers [] = []" "spent_nullifiers (e # es) = spent_of e @ spent_nullifiers es"
  "spent_nullifiers (es @ fs) = spent_nullifiers es @ spent_nullifiers fs"
  "spent_nullifiers (output_events i outs) = []" "spent_nullifiers (fee_events fee) = []"
proof -
  show "spent_nullifiers (output_events i outs) = []"
    by (induction i outs rule: output_events.induct) (simp_all add: spent_nullifiers_def)
qed (simp_all add: spent_nullifiers_def fee_events_def)

definition spends_ok :: "'tok outside \<Rightarrow> 'tok world \<Rightarrow> bool" where
  "spends_ok env w \<longleftrightarrow> registry_ok (ew_registry w) \<and> nr_registrar (ew_registry w) = oe_self env \<and> nr_pool (ew_registry w) \<noteq> 0
     \<and> distinct (map (nf_slot env) (spent_nullifiers (pl_log (ew_pool w))))
     \<and> spent_slots (ew_registry w) = set (map (nf_slot env) (spent_nullifiers (pl_log (ew_pool w))))"

lemma deployed_spends_ok: "deployed env w \<Longrightarrow> spends_ok env w"
  using deployed_facts [of env w] new_registry_ok
  by (auto simp: spends_ok_def registry_ok_def new_registry_def new_pool_def)

lemma registry_others:
  "run_registry sha sender blk c reg = Inr reg' \<Longrightarrow> sender \<noteq> nr_registrar reg \<Longrightarrow> nr_pool reg \<noteq> 0 \<Longrightarrow>
    nr_pages reg' = nr_pages reg \<and> nr_registrar reg' = nr_registrar reg \<and> nr_pool reg' = nr_pool reg"
  by (cases c) (auto simp: initialize_registry_def registerNullifier_def registerNullifierV2_def finalizeEpoch_def outcome_simps)

lemma spends_kept:
  assumes "spends_ok env w" "ew_registry w' = ew_registry w"
    "spent_nullifiers (pl_log (ew_pool w')) = spent_nullifiers (pl_log (ew_pool w))"
  shows "spends_ok env w'"
  using assms by (simp add: spends_ok_def)

lemma spends_added:
  assumes "spends_ok env w" "register_both env nfs (ew_registry w) = Inr (ew_registry w')"
    "spent_nullifiers (pl_log (ew_pool w')) = spent_nullifiers (pl_log (ew_pool w)) @ [fst nfs, snd nfs]"
  shows "spends_ok env w'"
proof -
  have ok: "registry_ok (ew_registry w)"
    using assms(1) by (simp add: spends_ok_def)
  from register_both_ok [OF ok assms(2)] assms(1,3) show ?thesis
    unfolding spends_ok_def assms(3) by auto
qed

text \<open>The calls of the owner: money, leaves and tree stay, and only an update of the root is logged.\<close>

lemma admin_call:
  assumes "run_pool env sender c w = Inr w'" "\<forall>amount cm nt. c \<noteq> CallDeposit amount cm nt"
    "\<forall>t. c \<noteq> CallTransfer t" "\<forall>t. c \<noteq> CallWithdraw t"
  shows "\<exists>st. w' = w\<lparr>ew_pool := st\<rparr> \<and> pl_totalDeposited st = pl_totalDeposited (ew_pool w)
    \<and> pl_nextLeafIndex st = pl_nextLeafIndex (ew_pool w) \<and> pl_filledSubtrees st = pl_filledSubtrees (ew_pool w)
    \<and> pl_sha256Root st = pl_sha256Root (ew_pool w) \<and> pl_zeros st = pl_zeros (ew_pool w)
    \<and> (pl_log st = pl_log (ew_pool w) \<and> pl_currentRoot st = pl_currentRoot (ew_pool w)
        \<and> pl_rootHistory st = pl_rootHistory (ew_pool w) \<and> pl_rootHistoryIndex st = pl_rootHistoryIndex (ew_pool w)
      \<or> (\<exists>rt expected. updateRoot sender rt expected (ew_pool w) = Inr st \<and> pl_log st = pl_log (ew_pool w) @ [RootUpdated rt]))"
  using assms by (cases c) (auto simp: on_pool_def updateRoot_def setBridge_def setPaused_def setFeeCollector_def outcome_simps)

lemma spends_ok_step: "spends_ok env w \<Longrightarrow> world_step env w w' \<Longrightarrow> spends_ok env w'"
proof (rotate_tac 1, induction rule: world_step.induct)
  case (pool_call sender c w w')
  show ?case
  proof (cases c)
    case (CallDeposit amount cm nt)
    then show ?thesis
      using pool_call by (auto simp: deposit_Inr intro!: spends_kept [of env w])
  next
    case (CallTransfer t)
    then show ?thesis
      using pool_call by (auto simp: transfer_Inr intro!: spends_added [of env w "tc_nullifiers t"])
  next
    case (CallWithdraw t)
    then show ?thesis
      using pool_call by (auto simp: withdraw_Inr intro!: spends_added [of env w "tc_nullifiers t"])
  qed (use pool_call in \<open>auto dest!: admin_call intro!: spends_kept [of env w] simp del: run_pool.simps\<close>)
next
  case (registry_call sender blk rc w reg)
  then show ?case
    using run_registry_ok [OF _ registry_call(2)] registry_others [OF registry_call(2)] by (auto simp: spends_ok_def)
qed (auto intro: spends_kept)

interpretation spends: invariant_system "deployed env" "world_step env" "spends_ok env" for env
  by unfold_locales (auto intro: deployed_spends_ok spends_ok_step)


text \<open>Every step is a deposit, a spend, a call of the owner, or leaves the pool as it is.\<close>

lemma world_step_kinds:
  assumes "world_step env w w'"
  obtains (dep) sender amount cm nt where "sender \<noteq> oe_self env" "deposit_evm env sender amount cm nt w = Inr w'"
  | (tra) c where "transfer_evm env c w = Inr w'"
  | (wit) c where "withdraw_evm env c w = Inr w'"
  | (admin) sender st where "w' = w\<lparr>ew_pool := st\<rparr>" "pl_totalDeposited st = pl_totalDeposited (ew_pool w)"
      "pl_nextLeafIndex st = pl_nextLeafIndex (ew_pool w)" "pl_filledSubtrees st = pl_filledSubtrees (ew_pool w)"
      "pl_sha256Root st = pl_sha256Root (ew_pool w)" "pl_zeros st = pl_zeros (ew_pool w)"
      "pl_log st = pl_log (ew_pool w) \<and> pl_currentRoot st = pl_currentRoot (ew_pool w)
         \<and> pl_rootHistory st = pl_rootHistory (ew_pool w) \<and> pl_rootHistoryIndex st = pl_rootHistoryIndex (ew_pool w)
       \<or> (\<exists>rt expected. updateRoot sender rt expected (ew_pool w) = Inr st \<and> pl_log st = pl_log (ew_pool w) @ [RootUpdated rt])"
  | (other) "ew_pool w' = ew_pool w" "ew_token w' = ew_token w \<or> oe_others env (ew_token w) (ew_token w')"
  using assms
proof cases
  case (pool_call sender c)
  show thesis
  proof (cases c)
    case (CallDeposit amount cm nt)
    with pool_call show thesis by (auto intro: dep)
  next
    case (CallTransfer t)
    with pool_call show thesis by (auto intro: tra)
  next
    case (CallWithdraw t)
    with pool_call show thesis by (auto intro: wit)
  qed (use admin_call [OF pool_call(2)] admin in blast)+
qed (auto intro: other)

end
