(* ===== verification/Evm_Pool_Instance.thy ===== *)
theory Evm_Pool_Instance
  imports Evm_Pool_Run
begin

text \<open>
  A pool over small functions: a token that is the pool's balance, a multiplication that keeps the residue of
  its scalar, a pairing that always holds, a hash that reads two bytes. It is deployed, gets its keys and one deposit,
  and can be spent from.
\<close>

definition small_mul :: "256 word list \<Rightarrow> g1 option" where
  "small_mul xs = Some (hd xs, word_of_nat (unat (last xs) mod BN254_R))"

definition small_env :: "nat outside" where
  "small_env = \<lparr>oe_sha = front_hash, oe_keccak = front_hash,
     oe_precompiles = \<lparr>ecAdd = (\<lambda>_. Some (0, 0)), ecMul = small_mul, ecPairing = (\<lambda>_. Some 1)\<rparr>, oe_self = 9,
     oe_transferFrom = (\<lambda>_ from _ amount tok. Some (if from = 9 then tok else tok + unat amount)),
     oe_transfer = (\<lambda>_ to amount tok. if unat amount \<le> tok then Some (if to = 9 then tok else tok - unat amount) else None),
     oe_others = (\<le>), oe_bridgeAt = 77, oe_answer = (\<lambda>_ _. None)\<rparr>"

lemma small_env_simps [simp]:
  "oe_sha small_env = front_hash" "oe_self small_env = 9"
  "oe_transferFrom small_env x from y amount tok = Some (if from = 9 then tok else tok + unat amount)"
  "oe_transfer small_env x to amount tok = (if unat amount \<le> tok then Some (if to = 9 then tok else tok - unat amount) else None)"
  "oe_others small_env = (\<le>)"
  "ecAdd (oe_precompiles small_env) xs = Some (0, 0)" "ecMul (oe_precompiles small_env) xs = small_mul xs"
  "ecPairing (oe_precompiles small_env) xs = Some 1"
  by (simp_all add: small_env_def)

lemma small_mul_order: "mul_mod_order (oe_precompiles small_env)"
  by (simp add: mul_mod_order_def small_mul_def)

section \<open>Deployment and keys\<close>

definition small_registry :: registry where
  "small_registry = (new_registry 1)\<lparr>nr_pool := 9, nr_registrar := 9, nr_epochStartBlock := 3, nr_epochDurationBlocks := 7200\<rparr>"

definition small_world :: "nat world" where
  "small_world = \<lparr>ew_pool = new_pool front_hash 1 2 3 4 6, ew_verifier = new_verifier 1, ew_registry = small_registry,
     ew_bridge = new_bridge 1, ew_token = 0\<rparr>"

lemma small_deployed: "deployed small_env small_world"
proof -
  have "initialize_registry 1 3 9 9 7200 (new_registry 1) = Inr small_registry"
    by (simp add: initialize_registry_def only_owner_def new_registry_def small_registry_def)
  then show ?thesis
    unfolding deployed_def small_world_def by (simp; blast)
qed

definition small_key :: "nat \<Rightarrow> verification_key" where
  "small_key n = \<lparr>vk_alpha = (1, 2), vk_beta = ((1, 2), 3, 4), vk_gamma = ((1, 2), 3, 4), vk_delta = ((1, 2), 3, 4),
     vk_ic = replicate n (1, 2)\<rparr>"

definition small_verifier :: verifier where
  "small_verifier = (new_verifier 1)\<lparr>vf_vks := (vf_vks (new_verifier 1))(1 := small_key 7, 2 := small_key 8),
     vf_vkInitialized := (\<lambda>_. False)(1 := True, 2 := True), vf_log := [VkInitialized 1, VkInitialized 2]\<rparr>"

lemma keys_set:
  "\<exists>vf. initializeVk 1 1 (1, 2) ((1, 2), 3, 4) ((1, 2), 3, 4) ((1, 2), 3, 4) (replicate 7 (1, 2)) (new_verifier 1) = Inr vf
     \<and> initializeVk 1 2 (1, 2) ((1, 2), 3, 4) ((1, 2), 3, 4) ((1, 2), 3, 4) (replicate 8 (1, 2)) vf = Inr small_verifier"
  by (simp add: initializeVk_def only_owner_def new_verifier_def MAX_PUBLIC_INPUTS_def small_verifier_def small_key_def)

lemma small_verifies:
  "length xs = 6 \<Longrightarrow> verifyProofStatic (oe_precompiles small_env) 1 a b c xs (small_verifier\<lparr>vf_log := l\<rparr>) = Inr True"
  "length xs = 7 \<Longrightarrow> verifyProofStatic (oe_precompiles small_env) 2 a b c xs (small_verifier\<lparr>vf_log := l\<rparr>) = Inr True"
proof -
  have run: "length ps = length xs \<Longrightarrow> \<exists>v. vk_x (oe_precompiles small_env) ps xs acc = Inr v" for ps acc
    by (induction ps xs arbitrary: acc rule: list_induct2) (simp_all add: ec_mul_def ec_add_def call_or_def small_mul_def)
  show "length xs = 6 \<Longrightarrow> verifyProofStatic (oe_precompiles small_env) 1 a b c xs (small_verifier\<lparr>vf_log := l\<rparr>) = Inr True"
    using run [of "tl (replicate 7 (1, 2))" "(1, 2)"]
    by (auto simp: verifyProofStatic_def small_verifier_def new_verifier_def small_key_def pairingCheck_def call_or_def)
  show "length xs = 7 \<Longrightarrow> verifyProofStatic (oe_precompiles small_env) 2 a b c xs (small_verifier\<lparr>vf_log := l\<rparr>) = Inr True"
    using run [of "tl (replicate 8 (1, 2))" "(1, 2)"]
    by (auto simp: verifyProofStatic_def small_verifier_def new_verifier_def small_key_def pairingCheck_def call_or_def)
qed

section \<open>One deposit\<close>

lemma small_deposited:
  "\<exists>w. reachable (deployed small_env) (world_step small_env) w \<and> ew_token w = 10 \<and> pl_totalDeposited (ew_pool w) = 10
     \<and> pl_nextLeafIndex (ew_pool w) = 1 \<and> ew_registry w = small_registry \<and> ew_verifier w = small_verifier
     \<and> \<not> pl_isPaused (ew_pool w) \<and> pl_bridge (ew_pool w) = 0 \<and> pl_feeCollector (ew_pool w) = 6
     \<and> isKnownRoot 0 (ew_pool w) \<and> spent_nullifiers (pl_log (ew_pool w)) = []
     \<and> (\<exists>i nt. pl_log (ew_pool w) = [PoolInitialized 2 1, DepositEvent i 5 10 nt])"
proof -
  let ?R = "reachable (deployed small_env) (world_step small_env)"
  obtain vf where vf: "initializeVk 1 1 (1, 2) ((1, 2), 3, 4) ((1, 2), 3, 4) ((1, 2), 3, 4) (replicate 7 (1, 2)) (new_verifier 1) = Inr vf"
    "initializeVk 1 2 (1, 2) ((1, 2), 3, 4) ((1, 2), 3, 4) ((1, 2), 3, 4) (replicate 8 (1, 2)) vf = Inr small_verifier"
    using keys_set by blast
  have "?R small_world"
    using small_deployed by (rule reach_init)
  moreover have "world_step small_env small_world (small_world\<lparr>ew_verifier := vf\<rparr>)"
    by (rule key_call) (use vf(1) in \<open>simp add: small_world_def\<close>)
  moreover have "world_step small_env (small_world\<lparr>ew_verifier := vf\<rparr>) (small_world\<lparr>ew_verifier := vf, ew_verifier := small_verifier\<rparr>)"
    by (rule key_call) (use vf(2) in simp)
  ultimately have reach: "?R (small_world\<lparr>ew_verifier := vf, ew_verifier := small_verifier\<rparr>)"
    by (blast intro: reach_step)
  let ?w = "small_world\<lparr>ew_verifier := small_verifier\<rparr>"
  obtain filled rt where ins: "insertLeaf front_hash (zero_hashes front_hash) 0 5 (replicate TREE_DEPTH 0) = (filled, rt)"
    by (cases "insertLeaf front_hash (zero_hashes front_hash) 0 5 (replicate TREE_DEPTH 0)")
  define w where "w = ?w\<lparr>ew_token := 10, ew_pool := (ew_pool ?w)\<lparr>pl_nextLeafIndex := 1, pl_totalDeposited := 10,
    pl_lastCommitment := 5, pl_filledSubtrees := filled, pl_sha256Root := rt,
    pl_log := pl_log (ew_pool ?w) @ [DepositEvent 0 5 10 []]\<rparr>\<rparr>"
  have "run_pool small_env 5 (CallDeposit 10 5 []) ?w = Inr w"
    using ins by (simp add: deposit_Inr small_world_def new_pool_def w_def)
  then have "world_step small_env ?w w"
    by (rule pool_call [of 5, rotated]) simp
  with reach have "?R w"
    by (auto intro: reach_step)
  then show ?thesis
    by (intro exI [of _ w]) (simp add: w_def small_world_def new_pool_def isKnownRoot_def)
qed


section \<open>Slots\<close>

text \<open>The slot of a number under the hash that reads two bytes: its 16 highest bits, modulo 2048.\<close>

lemma le_value_drop: "le_value (drop n (le_bytes (n + k) v)) = v div 256 ^ n mod 256 ^ k"
  by (induction n arbitrary: v) (simp_all add: le_value_le_bytes_mod div_mult2_eq)

lemma front_slot: "slot_of (front_hash (packed (w :: bytes32))) = unat w div 2 ^ 240 mod 2048"
proof -
  have "take 2 (packed w) = rev (drop 30 (le_bytes (30 + 2) (unat w)))"
    by (simp add: packed_def take_rev)
  then have "be_value (take 2 (packed w)) = unat w div 256 ^ 30 mod 256 ^ 2"
    unfolding be_value_def rev_rev_ident by (metis le_value_drop rev_rev_ident)
  moreover have "unat w div 2 ^ 240 < 2 ^ 16"
    using unat_less_2p [of w] by (simp add: div_less_iff_less_mult)
  ultimately have "be_value (take 2 (packed w)) = unat w div 2 ^ 240" and small: "unat w div 2 ^ 240 < 2 ^ 16"
    by simp_all
  then have "front_hash (packed w) = push_bit 240 (word_of_nat (unat w div 2 ^ 240))"
    by (simp add: front_hash_def)
  moreover have "unat (drop_bit 240 (push_bit 240 (word_of_nat m) :: bytes32)) = m" if "m < 2 ^ 16" for m
  proof -
    have "unat (word_of_nat m :: bytes32) = m"
      using that by (simp add: unsigned_of_nat take_bit_eq_mod)
    moreover have "take_bit 256 (push_bit 240 m) = m * 2 ^ 240"
      using that by (simp add: take_bit_eq_mod push_bit_eq_mult)
    ultimately have shifted: "unat (push_bit 240 (word_of_nat m) :: bytes32) = m * 2 ^ 240"
      by (simp only: unsigned_push_bit_eq len_of_numeral_defs) simp
    show ?thesis
      unfolding unsigned_drop_bit_eq shifted using that by (simp add: take_bit_eq_mod drop_bit_eq_div)
  qed
  ultimately show ?thesis
    using small by (simp add: slot_of_def SLOTS_PER_PAGE_def)
qed

lemma small_slots:
  "slot_of (front_hash (packed (5 :: bytes32))) = 0" "slot_of (front_hash (packed (7 * 2 ^ 240 :: bytes32))) = 7"
  "slot_of (front_hash (packed (5 + word_of_nat BN254_R :: bytes32))) = 100"
  "slot_of (front_hash (packed (7 * 2 ^ 240 + word_of_nat BN254_R :: bytes32))) = 107"
  by (simp_all add: front_slot BN254_R_def)

lemma small_registry_slots: "spent_slots small_registry = {}" "registry_ok small_registry" "nr_registrar small_registry = 9"
    "nr_totalNullifiers small_registry = 0"
  using new_registry_ok [of 1] by (simp_all add: small_registry_def registry_ok_def) (simp_all add: new_registry_def)

definition small_withdraw :: withdraw_call where
  "small_withdraw = \<lparr>tc_merkleRoot = 0, tc_nullifiers = (5, 7 * 2 ^ 240), tc_outputs = (1, 2), tc_fee = 1, tc_notes = [[], []],
     tc_proofA = (1, 2), tc_proofB = ((1, 2), 3, 4), tc_proofC = (1, 2), wc_exitAmount = 3, wc_recipient = 8\<rparr>"

definition small_transfer :: transfer_call where
  "small_transfer = \<lparr>tc_merkleRoot = 0, tc_nullifiers = (5, 7 * 2 ^ 240), tc_outputs = (1, 2), tc_fee = 1, tc_notes = [[], []],
     tc_proofA = (1, 2), tc_proofB = ((1, 2), 3, 4), tc_proofC = (1, 2)\<rparr>"

lemma small_registers:
  "\<exists>reg. register_both small_env (5, 7 * 2 ^ 240) small_registry = Inr reg"
  by (rule register_both_free) (simp_all add: small_registry_slots front_slot)

lemma small_spends:
  "\<exists>w w'. reachable (deployed small_env) (world_step small_env) w \<and> withdraw_evm small_env small_withdraw w = Inr w'
     \<and> ew_token w = 10 \<and> ew_token w' = 6 \<and> pl_totalDeposited (ew_pool w') = 6 \<and> pl_bridge (ew_pool w) = 0
     \<and> ew_registry w = small_registry \<and> pl_nextLeafIndex (ew_pool w') = 3 \<and> pl_feeCollector (ew_pool w') = 6
     \<and> pl_feeCollector (ew_pool w) = 6 \<and> reachable (deployed small_env) (world_step small_env) w'
     \<and> spent_nullifiers (pl_log (ew_pool w')) = [5, 7 * 2 ^ 240]"
proof -
  obtain w where w: "reachable (deployed small_env) (world_step small_env) w" "ew_token w = 10" "pl_totalDeposited (ew_pool w) = 10"
    "pl_nextLeafIndex (ew_pool w) = 1" "ew_registry w = small_registry" "ew_verifier w = small_verifier"
    "\<not> pl_isPaused (ew_pool w)" "pl_bridge (ew_pool w) = 0" "pl_feeCollector (ew_pool w) = 6" "isKnownRoot 0 (ew_pool w)"
    "spent_nullifiers (pl_log (ew_pool w)) = []"
    using small_deposited by blast
  obtain reg where reg: "register_both small_env (5, 7 * 2 ^ 240) small_registry = Inr reg"
    using small_registers by blast
  have proven: "verifyProofStatic (oe_precompiles small_env) CIRCUIT_WITHDRAW (1, 2) ((1, 2), 3, 4) (1, 2)
      (withdraw_inputs small_withdraw) small_verifier = Inr True"
    using small_verifies(2) [of "withdraw_inputs small_withdraw" "(1, 2)" "((1, 2), 3, 4)" "(1, 2)" "vf_log small_verifier"]
    by (simp add: CIRCUIT_WITHDRAW_def withdraw_inputs_def)
  have "\<exists>w'. withdraw_evm small_env small_withdraw w = Inr w' \<and> ew_token w' = 6 \<and> ew_registry w' = reg
      \<and> pl_totalDeposited (ew_pool w') = pl_totalDeposited (ew_pool w) - wc_exitAmount small_withdraw - tc_fee small_withdraw"
    by (rule withdraw_runs [where tok_paid = 7])
      (use w reg proven in \<open>simp_all add: small_withdraw_def MAX_OUTPUTS_def assertNotBridgeLocked_def pays_fee_def\<close>)
  then obtain w' where w': "withdraw_evm small_env small_withdraw w = Inr w'" "ew_token w' = 6" "pl_totalDeposited (ew_pool w') = 6"
    using w(3) by (auto simp: small_withdraw_def)
  moreover have "pl_nextLeafIndex (ew_pool w') = 3" "pl_feeCollector (ew_pool w') = 6"
    "spent_nullifiers (pl_log (ew_pool w')) = [5, 7 * 2 ^ 240]"
    using w'(1) w(4,9,11) by (auto simp: withdraw_Inr small_withdraw_def)
  moreover have "world_step small_env w w'"
    by (rule pool_call [of 5 _ "CallWithdraw small_withdraw"]) (use w'(1) in simp_all)
  then have "reachable (deployed small_env) (world_step small_env) w'"
    using w(1) by (rule reach_step [rotated])
  ultimately show ?thesis
    using w by blast
qed


lemma small_transfers:
  "\<exists>w w'. reachable (deployed small_env) (world_step small_env) w \<and> transfer_evm small_env small_transfer w = Inr w'
     \<and> ew_token w = 10 \<and> pl_totalDeposited (ew_pool w) = 10 \<and> pl_feeCollector (ew_pool w) = 6"
proof -
  obtain w where w: "reachable (deployed small_env) (world_step small_env) w" "ew_token w = 10" "pl_totalDeposited (ew_pool w) = 10"
    "pl_nextLeafIndex (ew_pool w) = 1" "ew_registry w = small_registry" "ew_verifier w = small_verifier"
    "\<not> pl_isPaused (ew_pool w)" "pl_bridge (ew_pool w) = 0" "pl_feeCollector (ew_pool w) = 6" "isKnownRoot 0 (ew_pool w)"
    using small_deposited by blast
  obtain reg where reg: "register_both small_env (5, 7 * 2 ^ 240) small_registry = Inr reg"
    using small_registers by blast
  have proven: "verifyProofStatic (oe_precompiles small_env) CIRCUIT_TRANSFER (1, 2) ((1, 2), 3, 4) (1, 2)
      (transfer_inputs small_transfer) small_verifier = Inr True"
    using small_verifies(1) [of "transfer_inputs small_transfer" "(1, 2)" "((1, 2), 3, 4)" "(1, 2)" "vf_log small_verifier"]
    by (simp add: CIRCUIT_TRANSFER_def transfer_inputs_def)
  have "\<exists>w'. transfer_evm small_env small_transfer w = Inr w' \<and> ew_token w' = 9 \<and> ew_registry w' = reg
      \<and> pl_totalDeposited (ew_pool w') = pl_totalDeposited (ew_pool w)"
    by (rule transfer_runs)
      (use w reg proven in \<open>simp_all add: small_transfer_def MAX_OUTPUTS_def assertNotBridgeLocked_def pays_fee_def\<close>)
  with w show ?thesis by blast
qed

end
