(* ===== verification/Evm_Pool_Safety.thy ===== *)
theory Evm_Pool_Safety
  imports Evm_Pool_Instance
begin

text \<open>
  What the pool keeps in every world it can reach: no slot is spent twice, the books cover the balance
  up to the fees of transfers, the known roots are the last hundred, and, until something is spent, its tree is
  the complete tree of its deposits.
\<close>

section \<open>No double spending, and no more than 1024 spends\<close>

lemma distinct_slots_le:
  assumes "distinct (map slot_of ds)"
  shows "length ds \<le> 2048"
proof -
  have "length (map slot_of ds) \<le> card {..<SLOTS_PER_PAGE}"
    unfolding distinct_card [OF assms, symmetric] by (rule card_mono) auto
  then show ?thesis
    by (simp add: SLOTS_PER_PAGE_def)
qed

lemma full_page:
  assumes "distinct (map slot_of ds)" "length ds = 2048"
  shows "slot_of d \<in> set (map slot_of ds)"
proof -
  have "set (map slot_of ds) = {..<SLOTS_PER_PAGE}"
  proof (rule card_subset_eq)
    show "card (set (map slot_of ds)) = card {..<SLOTS_PER_PAGE}"
      unfolding distinct_card [OF assms(1)] by (simp add: assms(2) SLOTS_PER_PAGE_def)
  qed auto
  then show ?thesis by simp
qed

lemma slots_as_digests: "map (nf_slot env) nfs = map slot_of (map (\<lambda>nf. oe_sha env (packed nf)) nfs)"
  by simp

text \<open>
  C8. Nothing is spent twice on the EVM, and little is spent at all: in every world the pool can reach, whoever
  called whatever before, the nullifiers of all transfers and withdrawals so far have different slots, a
  nullifier counts as spent exactly when its slot is among theirs, a transfer or withdrawal that succeeds
  brings two new slots, and since there are 2048 of them, after 1024 transfers and withdrawals none succeeds again and what is in
  the pool stays there.
\<close>

theorem pool_spends_each_slot_once:
  assumes "reachable (deployed env) (world_step env) w"
  shows "distinct (map (nf_slot env) (spent_nullifiers (pl_log (ew_pool w))))
    \<and> (\<forall>nf. isNullifierSpent (oe_sha env) 0 nf (ew_registry w)
        \<longleftrightarrow> nf_slot env nf \<in> set (map (nf_slot env) (spent_nullifiers (pl_log (ew_pool w)))))
    \<and> (\<forall>c w'. transfer_evm env c w = Inr w' \<longrightarrow> spent_nullifiers (pl_log (ew_pool w'))
          = spent_nullifiers (pl_log (ew_pool w)) @ [fst (tc_nullifiers c), snd (tc_nullifiers c)])
    \<and> (\<forall>c w'. withdraw_evm env c w = Inr w' \<longrightarrow> spent_nullifiers (pl_log (ew_pool w'))
          = spent_nullifiers (pl_log (ew_pool w)) @ [fst (tc_nullifiers c), snd (tc_nullifiers c)])
    \<and> length (spent_nullifiers (pl_log (ew_pool w))) \<le> 2048
    \<and> (length (spent_nullifiers (pl_log (ew_pool w))) = 2048 \<longrightarrow>
        (\<forall>c w'. transfer_evm env c w \<noteq> Inr w') \<and> (\<forall>c w'. withdraw_evm env c w \<noteq> Inr w'))"
proof -
  have inv: "spends_ok env w"
    using assms by (rule spends.reachable_inv)
  then have ok: "registry_ok (ew_registry w)"
    and dist: "distinct (map (nf_slot env) (spent_nullifiers (pl_log (ew_pool w))))"
    and slots: "spent_slots (ew_registry w) = set (map (nf_slot env) (spent_nullifiers (pl_log (ew_pool w))))"
    by (simp_all add: spends_ok_def)
  have frozen: "register_both env nfs (ew_registry w) \<noteq> Inr reg" if "length (spent_nullifiers (pl_log (ew_pool w))) = 2048" for nfs reg
    using register_both_ok(2) [OF ok] full_page [of "map (\<lambda>nf. oe_sha env (packed nf)) (spent_nullifiers (pl_log (ew_pool w)))"]
      dist that unfolding slots slots_as_digests by fastforce
  show ?thesis
    using dist distinct_slots_le [of "map (\<lambda>nf. oe_sha env (packed nf)) (spent_nullifiers (pl_log (ew_pool w)))"]
    by (auto simp: isNullifierSpent_slots [OF ok] slots transfer_Inr withdraw_Inr frozen comp_def)
qed

section \<open>The books\<close>

text \<open>A token that moves exactly what it is told: what the pool relies on, and that others cannot take from it.\<close>

definition token_ok :: "'tok outside \<Rightarrow> ('tok \<Rightarrow> address \<Rightarrow> nat) \<Rightarrow> bool" where
  "token_ok env bal \<longleftrightarrow>
     (\<forall>from amount tok tok'. oe_transferFrom env (oe_self env) from (oe_self env) amount tok = Some tok' \<and> from \<noteq> oe_self env \<longrightarrow>
        bal tok' (oe_self env) = bal tok (oe_self env) + unat amount)
     \<and> (\<forall>to amount tok tok'. oe_transfer env (oe_self env) to amount tok = Some tok' \<longrightarrow> unat amount \<le> bal tok (oe_self env)
        \<and> bal tok' (oe_self env) = (if to = oe_self env then bal tok (oe_self env) else bal tok (oe_self env) - unat amount))
     \<and> (\<forall>tok tok'. oe_others env tok tok' \<longrightarrow> bal tok (oe_self env) \<le> bal tok' (oe_self env))"

fun transfer_fee_of :: "pool_event \<Rightarrow> nat" where
  "transfer_fee_of (TransferEvent _ _ fee) = unat fee"
| "transfer_fee_of _ = 0"

definition transfer_fees :: "pool_event list \<Rightarrow> nat" where
  "transfer_fees es = sum_list (map transfer_fee_of es)"

lemma transfer_fees_simps [simp]:
  "transfer_fees [] = 0" "transfer_fees (e # es) = transfer_fee_of e + transfer_fees es"
  "transfer_fees (es @ fs) = transfer_fees es + transfer_fees fs"
  "transfer_fees (output_events i outs) = 0" "transfer_fees (fee_events fee) = 0"
proof -
  show "transfer_fees (output_events i outs) = 0"
    by (induction i outs rule: output_events.induct) (simp_all add: transfer_fees_def)
qed (simp_all add: transfer_fees_def fee_events_def)

definition books_ok :: "'tok outside \<Rightarrow> ('tok \<Rightarrow> address \<Rightarrow> nat) \<Rightarrow> 'tok world \<Rightarrow> bool" where
  "books_ok env bal w \<longleftrightarrow>
     unat (pl_totalDeposited (ew_pool w)) \<le> bal (ew_token w) (oe_self env) + transfer_fees (pl_log (ew_pool w))"

lemma token_okD:
  assumes "token_ok env bal"
  shows "oe_transferFrom env (oe_self env) from (oe_self env) amount tok = Some tok' \<Longrightarrow> from \<noteq> oe_self env \<Longrightarrow>
      bal tok' (oe_self env) = bal tok (oe_self env) + unat amount"
    and "oe_transfer env (oe_self env) to amount tok = Some tok' \<Longrightarrow> unat amount \<le> bal tok (oe_self env)
      \<and> bal tok' (oe_self env) = (if to = oe_self env then bal tok (oe_self env) else bal tok (oe_self env) - unat amount)"
    and "oe_others env tok tok' \<Longrightarrow> bal tok (oe_self env) \<le> bal tok' (oe_self env)"
  using assms unfolding token_ok_def by blast+

lemma pays_fee_balance:
  assumes "token_ok env bal" "pays_fee env collector fee tok tok'"
  shows "unat fee \<le> bal tok (oe_self env)"
    "bal tok' (oe_self env) = (if collector = oe_self env then bal tok (oe_self env) else bal tok (oe_self env) - unat fee)"
  using assms(2) token_okD(2) [OF assms(1), of collector fee tok tok']
  by (cases "fee = 0"; simp add: pays_fee_def word_neq_0_conv)+

lemma withdraw_total:
  "withdraw_evm env c w = Inr w' \<Longrightarrow> unat (pl_totalDeposited (ew_pool w'))
     = unat (pl_totalDeposited (ew_pool w)) - unat (wc_exitAmount c) - unat (tc_fee c)
    \<and> unat (wc_exitAmount c) + unat (tc_fee c) \<le> unat (pl_totalDeposited (ew_pool w))"
  by (auto simp: withdraw_Inr unat_sub word_le_nat_alt)

lemma books_ok_step:
  assumes "token_ok env bal" "books_ok env bal w" "world_step env w w'"
  shows "books_ok env bal w'"
  using assms(3)
proof (cases rule: world_step_kinds)
  case (dep sender amount cm nt)
  then show ?thesis
    using assms(2) token_okD(1) [OF assms(1)] by (auto simp: deposit_Inr books_ok_def unat_word_ariths)
next
  case (tra c)
  then obtain tok where "pays_fee env (pl_feeCollector (ew_pool w)) (tc_fee c) (ew_token w) tok" "ew_token w' = tok"
    "pl_totalDeposited (ew_pool w') = pl_totalDeposited (ew_pool w)"
    "transfer_fees (pl_log (ew_pool w')) = transfer_fees (pl_log (ew_pool w)) + unat (tc_fee c)"
    by (auto simp: transfer_Inr)
  with pays_fee_balance [OF assms(1) this(1)] assms(2) show ?thesis
    by (auto simp: books_ok_def split: if_splits)
next
  case (wit c)
  then obtain tok1 where tok: "oe_transfer env (oe_self env) (wc_recipient c) (wc_exitAmount c) (ew_token w) = Some tok1"
    "pays_fee env (pl_feeCollector (ew_pool w)) (tc_fee c) tok1 (ew_token w')"
    "transfer_fees (pl_log (ew_pool w')) = transfer_fees (pl_log (ew_pool w))"
    by (auto simp: withdraw_Inr)
  show ?thesis
    using withdraw_total [OF wit] token_okD(2) [OF assms(1) tok(1)] pays_fee_balance [OF assms(1) tok(2)] tok(3) assms(2)
    by (auto simp: books_ok_def split: if_splits)
next
  case (admin sender st)
  then show ?thesis
    using assms(2) by (auto simp: books_ok_def)
next
  case other
  then show ?thesis
    using assms(2) token_okD(3) [OF assms(1)] by (force simp: books_ok_def)
qed


interpretation books: invariant_system "deployed env" "world_step env" "\<lambda>w. token_ok env bal \<longrightarrow> books_ok env bal w" for env bal
proof unfold_locales
  fix w :: "'a world" assume "deployed env w"
  from deployed_facts(6) [OF this] show "token_ok env bal \<longrightarrow> books_ok env bal w"
    by (auto simp: books_ok_def new_pool_def)
qed (use books_ok_step in blast)

text \<open>
  C10. What the pool says it holds is covered by what it holds and the fees its transfers paid, never by its
  balance alone: over a token that moves what it is told, in every reachable world the recorded total is at most the
  balance plus those fees. A transfer pays its fee out of the pool and leaves the total as it was, so once
  the two were equal, the fee is missing: a withdrawal that the recorded total allows and the balance does not is
  refused by the token, whoever makes it.
\<close>

theorem fees_of_transfers_are_missing:
  assumes "token_ok env bal" "reachable (deployed env) (world_step env) w"
  shows "unat (pl_totalDeposited (ew_pool w)) \<le> bal (ew_token w) (oe_self env) + transfer_fees (pl_log (ew_pool w))
    \<and> (\<forall>c w'. transfer_evm env c w = Inr w' \<and> pl_feeCollector (ew_pool w) \<noteq> oe_self env
        \<and> bal (ew_token w) (oe_self env) = unat (pl_totalDeposited (ew_pool w)) \<longrightarrow>
        pl_totalDeposited (ew_pool w') = pl_totalDeposited (ew_pool w)
        \<and> bal (ew_token w') (oe_self env) + unat (tc_fee c) = unat (pl_totalDeposited (ew_pool w'))
        \<and> (\<forall>d v. bal (ew_token w') (oe_self env) < unat (wc_exitAmount d) \<longrightarrow> withdraw_evm env d w' \<noteq> Inr v))"
proof (intro conjI allI impI)
  show "unat (pl_totalDeposited (ew_pool w)) \<le> bal (ew_token w) (oe_self env) + transfer_fees (pl_log (ew_pool w))"
    using books.reachable_inv [OF assms(2), of bal] assms(1) by (simp add: books_ok_def)
next
  fix c w'
  assume t: "transfer_evm env c w = Inr w' \<and> pl_feeCollector (ew_pool w) \<noteq> oe_self env
      \<and> bal (ew_token w) (oe_self env) = unat (pl_totalDeposited (ew_pool w))"
  then show total: "pl_totalDeposited (ew_pool w') = pl_totalDeposited (ew_pool w)"
    by (auto simp: transfer_Inr)
  have "pays_fee env (pl_feeCollector (ew_pool w)) (tc_fee c) (ew_token w) (ew_token w')"
    using t by (auto simp: transfer_Inr)
  with pays_fee_balance [OF assms(1) this] t total
  show "bal (ew_token w') (oe_self env) + unat (tc_fee c) = unat (pl_totalDeposited (ew_pool w'))" by simp
  fix d :: withdraw_call and v assume "bal (ew_token w') (oe_self env) < unat (wc_exitAmount d)"
  then show "withdraw_evm env d w' \<noteq> Inr v"
    using token_okD(2) [OF assms(1), of "wc_recipient d" "wc_exitAmount d" "ew_token w'"] by (force simp: withdraw_Inr)
qed

section \<open>The known roots\<close>

fun updated_root :: "pool_event \<Rightarrow> bytes32 list" where
  "updated_root (RootUpdated rt) = [rt]"
| "updated_root _ = []"

definition root_updates :: "pool_event list \<Rightarrow> bytes32 list" where
  "root_updates es = concat (map updated_root es)"

lemma root_updates_simps [simp]:
  "root_updates [] = []" "root_updates (e # es) = updated_root e @ root_updates es"
  "root_updates (es @ fs) = root_updates es @ root_updates fs"
  "root_updates (output_events i outs) = []" "root_updates (fee_events fee) = []"
proof -
  show "root_updates (output_events i outs) = []"
    by (induction i outs rule: output_events.induct) (simp_all add: root_updates_def)
qed (simp_all add: root_updates_def fee_events_def)

text \<open>Update number \<open>j\<close> of the last hundred is at place \<open>j mod 100\<close>; a place no update has reached holds zero.\<close>

definition ring_ok :: "bytes32 list \<Rightarrow> pool \<Rightarrow> bool" where
  "ring_ok us st \<longleftrightarrow> length (pl_rootHistory st) = ROOT_HISTORY_SIZE
     \<and> unat (pl_rootHistoryIndex st) = length us mod ROOT_HISTORY_SIZE
     \<and> pl_currentRoot st = (if us = [] then 0 else last us)
     \<and> (\<forall>j < length us. length us \<le> j + ROOT_HISTORY_SIZE \<longrightarrow> pl_rootHistory st ! (j mod ROOT_HISTORY_SIZE) = us ! j)
     \<and> (\<forall>i < ROOT_HISTORY_SIZE. length us \<le> i \<longrightarrow> pl_rootHistory st ! i = 0)"

lemma ring_updated:
  assumes "ring_ok us st" "updateRoot sender rt expected st = Inr st'"
  shows "ring_ok (us @ [rt]) st'"
proof -
  let ?n = "length us" and ?N = ROOT_HISTORY_SIZE
  have pos: "0 < ?N" by (simp add: ROOT_HISTORY_SIZE_def)
  have st': "pl_currentRoot st' = rt" "pl_rootHistory st' = (pl_rootHistory st)[?n mod ?N := rt]"
    "pl_rootHistoryIndex st' = word_of_nat ((?n mod ?N + 1) mod ?N)"
    using assms by (auto simp: updateRoot_def only_owner_def require_else_Inr ring_ok_def)
  have "(?n mod ?N + 1) mod ?N = Suc ?n mod ?N" by (simp add: mod_Suc_eq)
  then have idx: "unat (pl_rootHistoryIndex st') = Suc ?n mod ?N"
    by (simp add: st'(3) unsigned_of_nat take_bit_eq_mod ROOT_HISTORY_SIZE_def)
  have apart: "j mod ?N \<noteq> ?n mod ?N" if "j < ?n" "Suc ?n \<le> j + ?N" for j
  proof
    assume "j mod ?N = ?n mod ?N"
    then have "?N dvd ?n - j"
      using that mod_eq_dvd_iff_nat [of j ?n ?N] by simp
    with that show False
      by (auto dest!: dvd_imp_le)
  qed
  show ?thesis
    unfolding ring_ok_def
  proof (intro conjI allI impI)
    show "length (pl_rootHistory st') = ?N" "pl_currentRoot st' = (if us @ [rt] = [] then 0 else last (us @ [rt]))"
      "unat (pl_rootHistoryIndex st') = length (us @ [rt]) mod ?N"
      using assms(1) st' idx by (simp_all add: ring_ok_def)
  next
    fix j assume j: "j < length (us @ [rt])" "length (us @ [rt]) \<le> j + ?N"
    show "pl_rootHistory st' ! (j mod ?N) = (us @ [rt]) ! j"
    proof (cases "j = ?n")
      case True
      then show ?thesis
        using assms(1) pos by (simp add: st' ring_ok_def)
    next
      case False
      then show ?thesis
        using assms(1) j apart [of j] by (simp add: st' ring_ok_def nth_append)
    qed
  next
    fix i assume i: "i < ?N" "length (us @ [rt]) \<le> i"
    then show "pl_rootHistory st' ! i = 0"
      using assms(1) by (simp add: st' ring_ok_def)
  qed
qed

lemma ring_window:
  assumes "ring_ok us st"
  shows "isKnownRoot rt st \<longleftrightarrow> rt \<in> set (drop (length us - ROOT_HISTORY_SIZE) us) \<or> length us < ROOT_HISTORY_SIZE \<and> rt = 0"
proof -
  let ?n = "length us" and ?N = ROOT_HISTORY_SIZE
  have pos: "0 < ?N" by (simp add: ROOT_HISTORY_SIZE_def)
  have hist: "rt \<in> set (pl_rootHistory st) \<longleftrightarrow> (\<exists>i < ?N. pl_rootHistory st ! i = rt)" for rt
    using assms by (auto simp: ring_ok_def in_set_conv_nth)
  have recent: "rt \<in> set (drop (?n - ?N) us) \<longleftrightarrow> (\<exists>j < ?n. ?n \<le> j + ?N \<and> us ! j = rt)" for rt
  proof
    assume "rt \<in> set (drop (?n - ?N) us)"
    then obtain k where k: "k < ?n - (?n - ?N)" "us ! (?n - ?N + k) = rt"
      by (auto simp: in_set_conv_nth)
    then show "\<exists>j < ?n. ?n \<le> j + ?N \<and> us ! j = rt"
      by (intro exI [of _ "?n - ?N + k"]) auto
  next
    assume "\<exists>j < ?n. ?n \<le> j + ?N \<and> us ! j = rt"
    then obtain j where "j < ?n" "?n \<le> j + ?N" "us ! j = rt" by blast
    then show "rt \<in> set (drop (?n - ?N) us)"
      unfolding in_set_conv_nth by (intro exI [of _ "j - (?n - ?N)"]) auto
  qed
  have place: "\<exists>j < ?n. ?n \<le> j + ?N \<and> j mod ?N = i" if "i < ?N" "i < ?n" for i
  proof -
    define r where "r = (?n - 1 - i) mod ?N"
    have r: "r < ?N" "r \<le> ?n - 1 - i" "?N dvd ?n - 1 - i - r"
      using pos by (simp_all add: r_def minus_mod_eq_mult_div)
    then have "?N dvd ?n - 1 - r - i" "i \<le> ?n - 1 - r"
      using that by (simp_all add: add.commute)
    then have "(?n - 1 - r) mod ?N = i mod ?N"
      using mod_eq_dvd_iff_nat [of i "?n - 1 - r" ?N] by simp
    then show ?thesis
      using r(1,2) that by (intro exI [of _ "?n - 1 - r"]) auto
  qed
  have "(\<exists>i < ?N. pl_rootHistory st ! i = rt) \<longleftrightarrow> (\<exists>j < ?n. ?n \<le> j + ?N \<and> us ! j = rt) \<or> ?n < ?N \<and> rt = 0"
  proof
    assume "\<exists>i < ?N. pl_rootHistory st ! i = rt"
    then obtain i where i: "i < ?N" "pl_rootHistory st ! i = rt" by blast
    show "(\<exists>j < ?n. ?n \<le> j + ?N \<and> us ! j = rt) \<or> ?n < ?N \<and> rt = 0"
    proof (cases "i < ?n")
      case True
      then show ?thesis
        using place [OF i(1)] i assms by (auto simp: ring_ok_def)
    next
      case False
      then show ?thesis
        using i assms by (auto simp: ring_ok_def)
    qed
  next
    assume "(\<exists>j < ?n. ?n \<le> j + ?N \<and> us ! j = rt) \<or> ?n < ?N \<and> rt = 0"
    then show "\<exists>i < ?N. pl_rootHistory st ! i = rt"
      using assms pos by (auto simp: ring_ok_def intro: mod_less_divisor)
  qed
  moreover have "pl_currentRoot st = rt \<longrightarrow> (\<exists>j < ?n. ?n \<le> j + ?N \<and> us ! j = rt) \<or> ?n < ?N \<and> rt = 0"
    using assms pos by (cases "us = []") (auto simp: ring_ok_def last_conv_nth intro: exI [of _ "?n - 1"])
  ultimately show ?thesis
    by (auto simp: isKnownRoot_def hist recent)
qed

definition roots_ok :: "'tok world \<Rightarrow> bool" where
  "roots_ok w \<longleftrightarrow> ring_ok (root_updates (pl_log (ew_pool w))) (ew_pool w)"

lemma roots_ok_step:
  assumes "roots_ok w" "world_step env w w'"
  shows "roots_ok w'"
  using assms(2)
proof (cases rule: world_step_kinds)
  case (admin sender st)
  then show ?thesis
    using assms(1) ring_updated [of "root_updates (pl_log (ew_pool w))" "ew_pool w"]
    by (auto simp: roots_ok_def ring_ok_def)
qed (use assms(1) in \<open>auto simp: roots_ok_def ring_ok_def deposit_Inr transfer_Inr withdraw_Inr\<close>)

interpretation roots: invariant_system "deployed env" "world_step env" roots_ok for env
proof unfold_locales
  fix env and w :: "'a world" assume "deployed env w"
  from deployed_facts(6) [OF this] show "roots_ok w"
    by (auto simp: roots_ok_def ring_ok_def new_pool_def)
qed (rule roots_ok_step)

text \<open>
  C27. The ring of roots is the list of the last hundred: in every reachable world a root is known exactly when it is one of
  the last hundred that updates brought, or it is zero and there were fewer than a hundred. The zero root is
  thus accepted by a fresh pool, before anyone has set a root.
\<close>

theorem known_roots_are_the_last_hundred:
  assumes "reachable (deployed env) (world_step env) w"
  shows "isKnownRoot rt (ew_pool w) \<longleftrightarrow>
    (let us = root_updates (pl_log (ew_pool w)) in rt \<in> set (drop (length us - 100) us) \<or> length us < 100 \<and> rt = 0)"
  using ring_window roots.reachable_inv [OF assms] unfolding roots_ok_def ROOT_HISTORY_SIZE_def Let_def by blast


section \<open>The tree of the deposits\<close>

fun deposited_of :: "pool_event \<Rightarrow> bytes32 list" where
  "deposited_of (DepositEvent _ cm _ _) = [cm]"
| "deposited_of _ = []"

definition deposited :: "pool_event list \<Rightarrow> bytes32 list" where
  "deposited es = concat (map deposited_of es)"

lemma deposited_simps [simp]:
  "deposited [] = []" "deposited (e # es) = deposited_of e @ deposited es"
  "deposited (es @ fs) = deposited es @ deposited fs"
  by (simp_all add: deposited_def)

text \<open>The empty leaf of the reference tree is the hash of two zeros.\<close>

abbreviation empty_leaf :: "'tok outside \<Rightarrow> bytes32" where
  "empty_leaf env \<equiv> sha_pair (oe_sha env) 0 0"

definition tree_ok :: "'tok outside \<Rightarrow> 'tok world \<Rightarrow> bool" where
  "tree_ok env w \<longleftrightarrow> pl_zeros (ew_pool w) = zero_hashes (oe_sha env)
     \<and> (spent_nullifiers (pl_log (ew_pool w)) = [] \<longrightarrow>
        (let ds = deposited (pl_log (ew_pool w)) in
         unat (pl_nextLeafIndex (ew_pool w)) = length ds
         \<and> frontier (sha_pair (oe_sha env)) (empty_leaf env) TREE_DEPTH ds (pl_filledSubtrees (ew_pool w))
         \<and> pl_sha256Root (ew_pool w) = (if ds = [] then 0
             else tree_node (sha_pair (oe_sha env)) (empty_leaf env) ds TREE_DEPTH ((length ds - 1) div 2 ^ TREE_DEPTH))))"

lemma spends_leave_tree:
  "transfer_evm env c w = Inr w' \<Longrightarrow> pl_sha256Root (ew_pool w') = pl_sha256Root (ew_pool w)
     \<and> pl_filledSubtrees (ew_pool w') = pl_filledSubtrees (ew_pool w) \<and> pl_zeros (ew_pool w') = pl_zeros (ew_pool w)
     \<and> unat (pl_nextLeafIndex (ew_pool w')) = unat (pl_nextLeafIndex (ew_pool w)) + 2
     \<and> spent_nullifiers (pl_log (ew_pool w')) \<noteq> []"
  "withdraw_evm env d w = Inr w' \<Longrightarrow> pl_sha256Root (ew_pool w') = pl_sha256Root (ew_pool w)
     \<and> pl_filledSubtrees (ew_pool w') = pl_filledSubtrees (ew_pool w) \<and> pl_zeros (ew_pool w') = pl_zeros (ew_pool w)
     \<and> unat (pl_nextLeafIndex (ew_pool w')) = unat (pl_nextLeafIndex (ew_pool w)) + 2
     \<and> spent_nullifiers (pl_log (ew_pool w')) \<noteq> []"
  by (auto simp: transfer_Inr withdraw_Inr unat_word_ariths)

lemma tree_ok_step:
  assumes "tree_ok env w" "world_step env w w'"
  shows "tree_ok env w'"
  using assms(2)
proof (cases rule: world_step_kinds)
  case (dep sender amount cm nt)
  then obtain filled where run: "insertLeaf (oe_sha env) (pl_zeros (ew_pool w)) (pl_nextLeafIndex (ew_pool w)) cm (pl_filledSubtrees (ew_pool w))
      = (filled, pl_sha256Root (ew_pool w'))"
    and after: "pl_filledSubtrees (ew_pool w') = filled" "pl_zeros (ew_pool w') = pl_zeros (ew_pool w)"
      "unat (pl_nextLeafIndex (ew_pool w')) = unat (pl_nextLeafIndex (ew_pool w)) + 1"
      "spent_nullifiers (pl_log (ew_pool w')) = spent_nullifiers (pl_log (ew_pool w))"
      "deposited (pl_log (ew_pool w')) = deposited (pl_log (ew_pool w)) @ [cm]"
    by (auto simp: deposit_Inr unat_word_ariths)
  show ?thesis
  proof (cases "spent_nullifiers (pl_log (ew_pool w)) = []")
    case True
    let ?ds = "deposited (pl_log (ew_pool w))"
    have before: "frontier (sha_pair (oe_sha env)) (empty_leaf env) TREE_DEPTH ?ds (pl_filledSubtrees (ew_pool w))"
      "unat (pl_nextLeafIndex (ew_pool w)) = length ?ds" "pl_zeros (ew_pool w) = zero_hashes (oe_sha env)"
      using assms(1) True by (simp_all add: tree_ok_def Let_def)
    from insertLeaf_correct [OF before(1,2) run [unfolded before(3)]] after before show ?thesis
      by (simp add: tree_ok_def Let_def)
  qed (use assms(1) after in \<open>simp add: tree_ok_def\<close>)
next
  case (tra c)
  then show ?thesis
    using assms(1) spends_leave_tree(1) [OF tra] by (simp add: tree_ok_def)
next
  case (wit c)
  then show ?thesis
    using assms(1) spends_leave_tree(2) [OF wit] by (simp add: tree_ok_def)
qed (use assms(1) in \<open>auto simp: tree_ok_def Let_def\<close>)

interpretation tree: invariant_system "deployed env" "world_step env" "tree_ok env" for env
proof unfold_locales
  fix w :: "'a world" assume "deployed env w"
  from deployed_facts(6) [OF this] show "tree_ok env w"
    by (auto simp: tree_ok_def new_pool_def frontier_Nil)
qed (rule tree_ok_step)

text \<open>
  C9. The incremental tree is the real one, until it is not. As long as nothing was spent, the hash that the pool computed
  with one stored hash per level is the root of the complete tree of depth 20 over all its deposits, in their order
  and with the hash of two zeros as the empty leaf; deposits beyond \<open>2 ^ 20\<close> are not refused but start a tree of their own.
  A transfer or withdrawal gives its outputs the next two leaf numbers and leaves the tree and its root as they were.
\<close>

theorem incremental_tree_is_complete_tree:
  assumes "reachable (deployed env) (world_step env) w"
  shows "(let ds = deposited (pl_log (ew_pool w)); st = ew_pool w in
      spent_nullifiers (pl_log st) = [] \<and> ds \<noteq> [] \<longrightarrow>
        unat (pl_nextLeafIndex st) = length ds
        \<and> pl_sha256Root st = tree_node (sha_pair (oe_sha env)) (sha_pair (oe_sha env) 0 0)
            (drop ((length ds - 1) div 2 ^ 20 * 2 ^ 20) ds) 20 0)
    \<and> (\<forall>c w'. transfer_evm env c w = Inr w' \<longrightarrow> unat (pl_nextLeafIndex (ew_pool w')) = unat (pl_nextLeafIndex (ew_pool w)) + 2
        \<and> pl_filledSubtrees (ew_pool w') = pl_filledSubtrees (ew_pool w) \<and> pl_sha256Root (ew_pool w') = pl_sha256Root (ew_pool w))
    \<and> (\<forall>c w'. withdraw_evm env c w = Inr w' \<longrightarrow> unat (pl_nextLeafIndex (ew_pool w')) = unat (pl_nextLeafIndex (ew_pool w)) + 2
        \<and> pl_filledSubtrees (ew_pool w') = pl_filledSubtrees (ew_pool w) \<and> pl_sha256Root (ew_pool w') = pl_sha256Root (ew_pool w))"
proof -
  have block: "tree_node h z ds 20 q = tree_node h z (drop (q * 2 ^ 20) ds) 20 0" for h z q and ds :: "bytes32 list"
    using tree_node_block [of h z ds 20 q 0] by simp
  have "tree_ok env w"
    using assms by (rule tree.reachable_inv)
  then show ?thesis
    unfolding tree_ok_def Let_def TREE_DEPTH_def block [symmetric] by (simp add: spends_leave_tree)
qed


section \<open>The properties on the small pool\<close>

lemma small_token_ok: "token_ok small_env (\<lambda>tok _. tok)"
  by (auto simp: token_ok_def split: if_splits)

lemma pool_spends_each_slot_once_witness:
  "\<exists>w w'. reachable (deployed small_env) (world_step small_env) w \<and> withdraw_evm small_env small_withdraw w = Inr w'
     \<and> spent_nullifiers (pl_log (ew_pool w')) = [5, 7 * 2 ^ 240] \<and> isNullifierSpent front_hash 0 5 (ew_registry w')
     \<and> \<not> isNullifierSpent front_hash 0 (3 * 2 ^ 240) (ew_registry w')"
proof -
  obtain w w' where w: "reachable (deployed small_env) (world_step small_env) w" "withdraw_evm small_env small_withdraw w = Inr w'"
    "reachable (deployed small_env) (world_step small_env) w'" "spent_nullifiers (pl_log (ew_pool w')) = [5, 7 * 2 ^ 240]"
    using small_spends by blast
  from pool_spends_each_slot_once [OF w(3)] have
    "isNullifierSpent front_hash 0 nf (ew_registry w') \<longleftrightarrow> nf_slot small_env nf \<in> {0, 7}" for nf
    by (simp add: w(4) front_slot)
  with w show ?thesis
    by (intro exI [of _ w] exI [of _ w']) (simp add: front_slot)
qed

lemma fees_of_transfers_are_missing_witness:
  "\<exists>w w'. reachable (deployed small_env) (world_step small_env) w \<and> transfer_evm small_env small_transfer w = Inr w'
     \<and> pl_totalDeposited (ew_pool w') = 10 \<and> ew_token w' = 9
     \<and> (\<forall>v. withdraw_evm small_env (small_withdraw\<lparr>tc_fee := 0, wc_exitAmount := 10\<rparr>) w' \<noteq> Inr v)"
proof -
  obtain w w' where w: "reachable (deployed small_env) (world_step small_env) w" "transfer_evm small_env small_transfer w = Inr w'"
    "ew_token w = 10" "pl_totalDeposited (ew_pool w) = 10" "pl_feeCollector (ew_pool w) = 6"
    using small_transfers by blast
  have books: "pl_totalDeposited (ew_pool w') = pl_totalDeposited (ew_pool w)
      \<and> ew_token w' + unat (tc_fee small_transfer) = unat (pl_totalDeposited (ew_pool w'))
      \<and> (\<forall>d v. ew_token w' < unat (wc_exitAmount d) \<longrightarrow> withdraw_evm small_env d w' \<noteq> Inr v)"
    using fees_of_transfers_are_missing [OF small_token_ok w(1)] w(2-5) by simp
  then have total: "pl_totalDeposited (ew_pool w') = 10"
    using w(4) by simp
  have "ew_token w' = 9"
    using books unfolding total by (simp add: small_transfer_def)
  with w(1,2) books total show ?thesis
    by (intro exI [of _ w] exI [of _ w']) simp
qed

lemma known_roots_are_the_last_hundred_witness:
  "\<exists>w. reachable (deployed small_env) (world_step small_env) w \<and> isKnownRoot 0 (ew_pool w) \<and> \<not> isKnownRoot 1 (ew_pool w)"
proof -
  obtain w i nt where w: "reachable (deployed small_env) (world_step small_env) w"
    "pl_log (ew_pool w) = [PoolInitialized 2 1, DepositEvent i 5 10 nt]"
    using small_deposited by blast
  from known_roots_are_the_last_hundred [OF w(1)] show ?thesis
    using w by (intro exI [of _ w]) simp
qed

lemma incremental_tree_is_complete_tree_witness:
  "\<exists>w. reachable (deployed small_env) (world_step small_env) w \<and> deposited (pl_log (ew_pool w)) = [5]
     \<and> pl_sha256Root (ew_pool w) = tree_node (sha_pair front_hash) (sha_pair front_hash 0 0) [5] 20 0"
proof -
  obtain w i nt where w: "reachable (deployed small_env) (world_step small_env) w"
    "pl_log (ew_pool w) = [PoolInitialized 2 1, DepositEvent i 5 10 nt]"
    using small_deposited by blast
  from incremental_tree_is_complete_tree [OF w(1)] have
    "pl_sha256Root (ew_pool w) = tree_node (sha_pair front_hash) (sha_pair front_hash 0 0) [5] 20 0"
    using w(2) by (simp add: Let_def del: tree_node.simps)
  with w show ?thesis
    by (intro exI [of _ w]) simp
qed

end
