(* ===== verification/Evm_Pool_Spends.thy ===== *)
theory Evm_Pool_Spends
  imports Evm_Pool_Safety
begin

text \<open>
  What a proof does not bind: the recipient, and the representation of the nullifiers. With a pool whose
  contracts are instantiated by small functions, on which the properties of the pool are witnessed.
\<close>

section \<open>A proof is anyone's\<close>

text \<open>
  C28. A withdrawal does not name its recipient to the circuit: whatever withdrawal succeeds would have succeeded in the same
  world, for the same nullifiers, with any other recipient that the token can pay and any other encrypted
  notes, so whoever sees it before it is included can take its payment.
\<close>

theorem withdrawal_pays_any_recipient:
  assumes "withdraw_evm env c w = Inr w'" "length nts = 2"
    and "oe_transfer env (oe_self env) r (wc_exitAmount c) (ew_token w) = Some tok_paid"
    and "pays_fee env (pl_feeCollector (ew_pool w)) (tc_fee c) tok_paid tok"
  shows "\<exists>w''. withdraw_evm env (c\<lparr>wc_recipient := r, tc_notes := nts\<rparr>) w = Inr w'' \<and> ew_token w'' = tok
    \<and> ew_registry w'' = ew_registry w' \<and> pl_totalDeposited (ew_pool w'') = pl_totalDeposited (ew_pool w')"
proof -
  let ?c = "c\<lparr>wc_recipient := r, tc_notes := nts\<rparr>"
  have "withdraw_inputs ?c = withdraw_inputs c"
    by (simp add: withdraw_inputs_def)
  then show ?thesis
    using withdraw_runs [of w ?c env "ew_registry w'" tok_paid tok] assms by (auto simp: withdraw_Inr MAX_OUTPUTS_def)
qed

section \<open>A proof pays twice\<close>

definition nf_alias :: "bytes32 \<Rightarrow> bytes32" where
  "nf_alias nf = nf + word_of_nat BN254_R"



section \<open>On the small pool\<close>

lemma withdrawal_pays_any_recipient_witness:
  "\<exists>w w''. withdraw_evm small_env (small_withdraw\<lparr>wc_recipient := 66, tc_notes := [[], []]\<rparr>) w = Inr w'' \<and> ew_token w'' = 6"
proof -
  obtain w w' where w: "withdraw_evm small_env small_withdraw w = Inr w'" "ew_token w = 10" "pl_feeCollector (ew_pool w) = 6"
    using small_spends by blast
  have "\<exists>w''. withdraw_evm small_env (small_withdraw\<lparr>wc_recipient := 66, tc_notes := [[], []]\<rparr>) w = Inr w'' \<and> ew_token w'' = 6
    \<and> ew_registry w'' = ew_registry w' \<and> pl_totalDeposited (ew_pool w'') = pl_totalDeposited (ew_pool w')"
    by (rule withdrawal_pays_any_recipient [OF w(1), of _ _ 7])
      (simp_all add: w small_withdraw_def pays_fee_def)
  then show ?thesis by blast
qed


end
