(* ===== verification/Evm_Drain.thy ===== *)
theory Evm_Drain
  imports Evm_Pool_Spends Circuit_Soundness
begin

text \<open>
  The pool, its verifier and the withdrawal circuit together: what the circuit accepts, the pool pays.
\<close>

section \<open>Circuit and verifier\<close>

text \<open>
  \<open>enc\<close> writes a field element as a word; numbers below \<open>2 ^ 64\<close> are written as themselves. The verifier is complete for the
  circuit: an accepted statement has a proof under the key that is stored.
\<close>

definition public_words :: "('f \<Rightarrow> bytes32) \<Rightarrow> 'f exit_inputs \<Rightarrow> 256 word list" where
  "public_words enc pub = map enc (cp_root pub # cp_nullifiers pub @ cp_outputs pub @ [cp_exit pub, cp_fee pub])"

definition complete_for_withdraw :: "'tok outside \<Rightarrow> ('f::field list \<Rightarrow> 'f) \<Rightarrow> ('f \<Rightarrow> bytes32) \<Rightarrow> verifier \<Rightarrow> bool" where
  "complete_for_withdraw env H enc vf \<longleftrightarrow>
     (\<forall>pub prv exit_bits. Withdraw H TREE_DEPTH pub prv exit_bits \<longrightarrow>
        (\<exists>a b c. verifyProofStatic (oe_precompiles env) CIRCUIT_WITHDRAW a b c (public_words enc pub) vf = Inr True))"

definition writes_numbers :: "('f::field \<Rightarrow> bytes32) \<Rightarrow> bool" where
  "writes_numbers enc \<longleftrightarrow> (\<forall>v < 2 ^ 64. enc (of_nat v) = word_of_nat v)"

lemma withdraw_public:
  "Withdraw H depth pub prv exit_bits \<Longrightarrow> cw_in prv = [a, b] \<Longrightarrow>
    cp_nullifiers pub = [H [cw_key prv, note_cm H a], H [cw_key prv, note_cm H b]] \<and> (\<exists>x y. cp_outputs pub = [x, y])"
  by (auto simp: Withdraw_def two_in_two_out_def signal_shape_def list_2 two_slots input_spent_def NullifierV1_def Let_def)

section \<open>Paying for notes nobody deposited\<close>


section \<open>On the small pool\<close>

text \<open>Over the rationals, with a hash whose tree has the root \<open>-1\<close>, which is written as the zero root.\<close>

definition thin_hash :: "rat list \<Rightarrow> rat" where
  "thin_hash xs = (case xs of [k, cm] \<Rightarrow> if k = 9 then cm * 2 ^ 240 else - 1 | [own, val, asset, blind] \<Rightarrow> blind | _ \<Rightarrow> 0)"

definition floor_word :: "rat \<Rightarrow> bytes32" where
  "floor_word q = word_of_nat (nat \<lfloor>q\<rfloor>)"

lemma thin_path: "MerkleProof thin_hash (- 1) (replicate n 5) (replicate n 0) = - 1"
  by (induction n) (simp_all add: thin_hash_def)


end
