(* ===== verification/Evm_Compliance.thy ===== *)
theory Evm_Compliance
  imports Evm_Verifier
begin

text \<open>
  contracts/evm/src/HolancCompliance.sol: oracles, disclosures and attestations of wealth proofs. Shown: how long an
  attestation stands and who can end it, what the limit on oracles counts, and that the threshold is compared with the first
  public input, which the circuit declares to be the Merkle root.
\<close>

section \<open>State\<close>

datatype ComplianceMode_evm = PermissionlessMode | OptionalDisclosureMode | MandatoryDisclosureMode

record oracle_permissions_evm =
  op_canView :: bool
  op_canRequestWealthProof :: bool
  op_canFlag :: bool

datatype DisclosureScopeType = FullScope | TimeBoundedScope | AmountBoundedScope

record DisclosureScope_evm =
  ds_scopeType :: DisclosureScopeType
  ds_start :: "64 word"
  ds_end :: "64 word"
  ds_minAmount :: "64 word"

record OracleRecord_evm =
  or_oraclePubkey :: address
  or_oracleName :: bytes32
  or_permissions :: oracle_permissions_evm
  or_registeredAt :: "64 word"
  or_isActive :: bool
  or_disclosureCount :: "64 word"

record DisclosureRecord_evm =
  dr_discloser :: address
  dr_oracle :: address
  dr_encryptedViewingKey :: "byte list"
  dr_scope :: DisclosureScope_evm
  dr_disclosedAt :: "64 word"
  dr_isRevoked :: bool
  dr_revokedAt :: "64 word"

record WealthAttestation_evm =
  wa_prover :: address
  wa_threshold :: "64 word"
  wa_proofHash :: bytes32
  wa_circuitType :: "8 word"
  wa_attestedAt :: "64 word"
  wa_isValid :: bool
  wa_expiry :: "64 word"

datatype compliance_event =
    OracleRegistered address address oracle_permissions_evm
  | ViewingKeyDisclosed address address address DisclosureScope_evm
  | DisclosureRevoked address address address
  | WealthProofSubmitted address address "64 word" "8 word"
  | WealthProofInvalidated address address
  | WealthProofValidated address address "64 word"
  | OracleDeactivated address address

record compliance =
  cm_owner :: address
  cm_pool :: address
  cm_mode :: ComplianceMode_evm
  cm_oracleCount :: "8 word"
  cm_totalDisclosures :: "64 word"
  cm_isActive :: bool
  cm_proofExpirySeconds :: "64 word"
  cm_verifier :: address
  cm_oracles :: "address \<Rightarrow> OracleRecord_evm"
  cm_disclosures :: "bytes32 \<Rightarrow> DisclosureRecord_evm"
  cm_attestations :: "bytes32 \<Rightarrow> WealthAttestation_evm"
  cm_log :: "compliance_event list"

definition MAX_ORACLES :: nat where
  "MAX_ORACLES = 16"

definition CIRCUIT_WEALTH_PROOF :: "8 word" where
  "CIRCUIT_WEALTH_PROOF = 10"

definition new_compliance :: "address \<Rightarrow> compliance" where
  "new_compliance sender = \<lparr>cm_owner = sender, cm_pool = 0, cm_mode = PermissionlessMode, cm_oracleCount = 0,
     cm_totalDisclosures = 0, cm_isActive = False, cm_proofExpirySeconds = 0, cm_verifier = 0,
     cm_oracles = (\<lambda>_. \<lparr>or_oraclePubkey = 0, or_oracleName = 0,
       or_permissions = \<lparr>op_canView = False, op_canRequestWealthProof = False, op_canFlag = False\<rparr>, or_registeredAt = 0,
       or_isActive = False, or_disclosureCount = 0\<rparr>),
     cm_disclosures = (\<lambda>_. \<lparr>dr_discloser = 0, dr_oracle = 0, dr_encryptedViewingKey = [],
       dr_scope = \<lparr>ds_scopeType = FullScope, ds_start = 0, ds_end = 0, ds_minAmount = 0\<rparr>, dr_disclosedAt = 0,
       dr_isRevoked = False, dr_revokedAt = 0\<rparr>),
     cm_attestations = (\<lambda>_. \<lparr>wa_prover = 0, wa_threshold = 0, wa_proofHash = 0, wa_circuitType = 0, wa_attestedAt = 0,
       wa_isValid = False, wa_expiry = 0\<rparr>), cm_log = []\<rparr>"

section \<open>Administration\<close>

definition initialize_compliance :: "address \<Rightarrow> address \<Rightarrow> address \<Rightarrow> ComplianceMode_evm \<Rightarrow> 64 word \<Rightarrow> compliance \<Rightarrow>
    compliance outcome" where
  "initialize_compliance sender pool verifier mode seconds st =
     only_owner (cm_owner st) sender
       (require_else (cm_pool st = 0) AlreadyInitialized
         (Inr (st\<lparr>cm_pool := pool, cm_verifier := verifier, cm_mode := mode,
            cm_proofExpirySeconds := (if sint seconds > 0 then seconds else 86400), cm_isActive := True\<rparr>)))"

definition registerOracle_evm :: "address \<Rightarrow> 256 word \<Rightarrow> address \<Rightarrow> bytes32 \<Rightarrow> oracle_permissions_evm \<Rightarrow> compliance \<Rightarrow>
    compliance outcome" where
  "registerOracle_evm sender timestamp oraclePubkey oracleName permissions st =
     only_owner (cm_owner st) sender
       (require_else (unat (cm_oracleCount st) < MAX_ORACLES) TooManyOracles
         (bind_result (checked_add (cm_oracleCount st) 1) (\<lambda>n.
           Inr (st\<lparr>cm_oracles := (cm_oracles st)(oraclePubkey := \<lparr>or_oraclePubkey = oraclePubkey, or_oracleName = oracleName,
                 or_permissions = permissions, or_registeredAt = time64 timestamp, or_isActive = True, or_disclosureCount = 0\<rparr>),
               cm_oracleCount := n, cm_log := cm_log st @ [OracleRegistered (cm_pool st) oraclePubkey permissions]\<rparr>))))"

definition deactivateOracle_evm :: "address \<Rightarrow> address \<Rightarrow> compliance \<Rightarrow> compliance outcome" where
  "deactivateOracle_evm sender oraclePubkey st =
     only_owner (cm_owner st) sender
       (Inr (st\<lparr>cm_oracles := (cm_oracles st)(oraclePubkey := (cm_oracles st oraclePubkey)\<lparr>or_isActive := False\<rparr>),
          cm_log := cm_log st @ [OracleDeactivated (cm_pool st) oraclePubkey]\<rparr>))"

definition updateProofExpiry_evm :: "address \<Rightarrow> 64 word \<Rightarrow> compliance \<Rightarrow> compliance outcome" where
  "updateProofExpiry_evm sender seconds st =
     only_owner (cm_owner st) sender
       (require_else (sint seconds > 0) InvalidExpiry (Inr (st\<lparr>cm_proofExpirySeconds := seconds\<rparr>)))"

section \<open>Disclosure\<close>

definition pair_key :: "hash_fun \<Rightarrow> address \<Rightarrow> address \<Rightarrow> bytes32" where
  "pair_key keccak a b = keccak (packed a @ packed b)"

definition discloseViewingKey_evm :: "hash_fun \<Rightarrow> address \<Rightarrow> 256 word \<Rightarrow> address \<Rightarrow> byte list \<Rightarrow> DisclosureScope_evm \<Rightarrow>
    compliance \<Rightarrow> compliance outcome" where
  "discloseViewingKey_evm keccak sender timestamp orc encryptedViewingKey scope st =
     (let rec_o = cm_oracles st orc; key = pair_key keccak sender orc in
      require_else (or_isActive rec_o) OracleInactive
       (require_else (op_canView (or_permissions rec_o)) OracleLacksPermission
         (bind_result (checked_add (cm_totalDisclosures st) 1) (\<lambda>total.
          bind_result (checked_add (or_disclosureCount rec_o) 1) (\<lambda>n.
            Inr (st\<lparr>cm_disclosures := (cm_disclosures st)(key := \<lparr>dr_discloser = sender, dr_oracle = orc,
                   dr_encryptedViewingKey = encryptedViewingKey, dr_scope = scope, dr_disclosedAt = time64 timestamp,
                   dr_isRevoked = False, dr_revokedAt = 0\<rparr>),
                 cm_totalDisclosures := total,
                 cm_oracles := (cm_oracles st)(orc := rec_o\<lparr>or_disclosureCount := n\<rparr>),
                 cm_log := cm_log st @ [ViewingKeyDisclosed (cm_pool st) sender orc scope]\<rparr>))))))"

definition revokeDisclosure_evm :: "hash_fun \<Rightarrow> address \<Rightarrow> 256 word \<Rightarrow> address \<Rightarrow> compliance \<Rightarrow> compliance outcome" where
  "revokeDisclosure_evm keccak sender timestamp orc st =
     (let key = pair_key keccak sender orc; d = cm_disclosures st key in
      require_else (dr_discloser d = sender) NotDiscloser
       (require_else (\<not> dr_isRevoked d) AlreadyRevoked
         (Inr (st\<lparr>cm_disclosures := (cm_disclosures st)(key := d\<lparr>dr_isRevoked := True, dr_revokedAt := time64 timestamp\<rparr>),
            cm_log := cm_log st @ [DisclosureRevoked (cm_pool st) sender orc]\<rparr>))))"

section \<open>Wealth proofs\<close>

definition submitWealthProof_evm :: "precompiles \<Rightarrow> hash_fun \<Rightarrow> hash_fun \<Rightarrow> address \<Rightarrow> address \<Rightarrow> 256 word \<Rightarrow> 64 word \<Rightarrow> g1 \<Rightarrow> g2 \<Rightarrow> g1 \<Rightarrow>
    256 word list \<Rightarrow> verifier \<times> compliance \<Rightarrow> (verifier \<times> compliance) outcome" where
  "submitWealthProof_evm P sha keccak self sender timestamp threshold a b c publicInputs w =
     (let st = snd w in
      require_else (cm_mode st \<noteq> PermissionlessMode) ComplianceModeDisallows
       (bind_result (verifyProof P self CIRCUIT_WEALTH_PROOF a b c publicInputs (fst w)) (\<lambda>vf.
        require_else (\<not> (length publicInputs > 0 \<and> hd publicInputs \<noteq> ucast threshold)) ThresholdMismatch
         (let proofHash = sha (packed (fst a) @ packed (snd a) @ packed (fst (fst b)) @ packed (snd (fst b))
                @ packed (fst (snd b)) @ packed (snd (snd b)) @ packed (fst c) @ packed (snd c));
              key = pair_key keccak (cm_pool st) sender in
          bind_result (checked_sadd (time64 timestamp) (cm_proofExpirySeconds st)) (\<lambda>expiry.
            Inr (vf, st\<lparr>cm_attestations := (cm_attestations st)(key := \<lparr>wa_prover = sender, wa_threshold = threshold,
                   wa_proofHash = proofHash, wa_circuitType = CIRCUIT_WEALTH_PROOF, wa_attestedAt = time64 timestamp,
                   wa_isValid = True, wa_expiry = expiry\<rparr>),
                 cm_log := cm_log st @ [WealthProofSubmitted (cm_pool st) sender threshold CIRCUIT_WEALTH_PROOF]\<rparr>))))))"

definition past :: "256 word \<Rightarrow> 64 word \<Rightarrow> bool" where
  "past timestamp expiry \<longleftrightarrow> sint (time64 timestamp) > sint expiry"

definition invalidateWealthProof_evm :: "hash_fun \<Rightarrow> address \<Rightarrow> 256 word \<Rightarrow> address \<Rightarrow> compliance \<Rightarrow> compliance outcome" where
  "invalidateWealthProof_evm keccak sender timestamp prover st =
     (let key = pair_key keccak (cm_pool st) prover; att = cm_attestations st key in
      require_else (prover = sender \<or> cm_owner st = sender \<or> past timestamp (wa_expiry att)) Unauthorized
       (Inr (st\<lparr>cm_attestations := (cm_attestations st)(key := att\<lparr>wa_isValid := False\<rparr>),
          cm_log := cm_log st @ [WealthProofInvalidated (cm_pool st) prover]\<rparr>)))"

definition validateWealthProof_evm :: "hash_fun \<Rightarrow> 256 word \<Rightarrow> address \<Rightarrow> compliance \<Rightarrow> (64 word \<times> compliance) outcome" where
  "validateWealthProof_evm keccak timestamp prover st =
     (let att = cm_attestations st (pair_key keccak (cm_pool st) prover) in
      require_else (wa_isValid att) ProofInvalidated
       (require_else (\<not> past timestamp (wa_expiry att)) ProofExpired
         (Inr (wa_threshold att,
           st\<lparr>cm_log := cm_log st @ [WealthProofValidated (cm_pool st) prover (wa_threshold att)]\<rparr>))))"

lemmas compliance_op_defs = initialize_compliance_def registerOracle_evm_def deactivateOracle_evm_def updateProofExpiry_evm_def
  discloseViewingKey_evm_def revokeDisclosure_evm_def submitWealthProof_evm_def invalidateWealthProof_evm_def
  validateWealthProof_evm_def


section \<open>The contract as a state machine\<close>

datatype compliance_call =
    InitializeCompliance address address ComplianceMode_evm "64 word"
  | RegisterOracle address bytes32 oracle_permissions_evm
  | DeactivateOracle address
  | UpdateProofExpiry "64 word"
  | DiscloseViewingKey address "byte list" DisclosureScope_evm
  | RevokeDisclosure address
  | SubmitWealthProof "64 word" g1 g2 g1 "256 word list"
  | InvalidateWealthProof address
  | ValidateWealthProof address
  | ComplianceOwner "address option"

definition on_compliance :: "(compliance \<Rightarrow> compliance outcome) \<Rightarrow> verifier \<times> compliance \<Rightarrow> (verifier \<times> compliance) outcome" where
  "on_compliance f w = bind_result (f (snd w)) (\<lambda>st. Inr (fst w, st))"

fun run_compliance :: "precompiles \<Rightarrow> hash_fun \<Rightarrow> hash_fun \<Rightarrow> address \<Rightarrow> address \<Rightarrow> 256 word \<Rightarrow> compliance_call \<Rightarrow>
    verifier \<times> compliance \<Rightarrow> (verifier \<times> compliance) outcome" where
  "run_compliance P sha keccak self s t (InitializeCompliance p v m e) w = on_compliance (initialize_compliance s p v m e) w"
| "run_compliance P sha keccak self s t (RegisterOracle a n ps) w = on_compliance (registerOracle_evm s t a n ps) w"
| "run_compliance P sha keccak self s t (DeactivateOracle a) w = on_compliance (deactivateOracle_evm s a) w"
| "run_compliance P sha keccak self s t (UpdateProofExpiry e) w = on_compliance (updateProofExpiry_evm s e) w"
| "run_compliance P sha keccak self s t (DiscloseViewingKey a k sc) w = on_compliance (discloseViewingKey_evm keccak s t a k sc) w"
| "run_compliance P sha keccak self s t (RevokeDisclosure a) w = on_compliance (revokeDisclosure_evm keccak s t a) w"
| "run_compliance P sha keccak self s t (SubmitWealthProof v a b c xs) w = submitWealthProof_evm P sha keccak self s t v a b c xs w"
| "run_compliance P sha keccak self s t (InvalidateWealthProof p) w = on_compliance (invalidateWealthProof_evm keccak s t p) w"
| "run_compliance P sha keccak self s t (ValidateWealthProof p) w =
     on_compliance (\<lambda>st. bind_result (validateWealthProof_evm keccak t p st) (\<lambda>r. Inr (snd r))) w"
| "run_compliance P sha keccak self s t (ComplianceOwner to) w =
     on_compliance (\<lambda>st. bind_result (change_owner (cm_owner st) s to) (\<lambda>own. Inr (st\<lparr>cm_owner := own\<rparr>))) w"

inductive compliance_step :: "precompiles \<Rightarrow> hash_fun \<Rightarrow> hash_fun \<Rightarrow> address \<Rightarrow> verifier \<times> compliance \<Rightarrow> verifier \<times> compliance \<Rightarrow> bool"
  for P sha keccak self where
  "run_compliance P sha keccak self s t c w = Inr w' \<Longrightarrow> compliance_step P sha keccak self w w'"

inductive_cases compliance_stepE: "compliance_step P sha keccak self w w'"

definition deployed_compliance :: "verifier \<times> compliance \<Rightarrow> bool" where
  "deployed_compliance w \<longleftrightarrow> (\<exists>sender. snd w = new_compliance sender)"

text \<open>The limit counts registrations, the repeated ones included, and nothing gives a place back.\<close>

fun is_registration :: "compliance_event \<Rightarrow> bool" where
  "is_registration (OracleRegistered _ _ _) = True"
| "is_registration _ = False"

definition oracles_ok :: "verifier \<times> compliance \<Rightarrow> bool" where
  "oracles_ok w \<longleftrightarrow> unat (cm_oracleCount (snd w)) = length (filter is_registration (cm_log (snd w)))
     \<and> unat (cm_oracleCount (snd w)) \<le> MAX_ORACLES"

lemma oracles_ok_step: "oracles_ok w \<Longrightarrow> run_compliance P sha keccak self s t c w = Inr w' \<Longrightarrow> oracles_ok w'"
  by (cases c) (auto simp: on_compliance_def compliance_op_defs outcome_simps Let_def oracles_ok_def MAX_ORACLES_def unat_word_ariths)

interpretation compliance: invariant_system deployed_compliance "compliance_step P sha keccak self" oracles_ok for P sha keccak self
proof unfold_locales
  show "oracles_ok w" if "deployed_compliance w" for w
    using that by (auto simp: deployed_compliance_def oracles_ok_def new_compliance_def)
qed (blast elim: compliance_stepE intro: oracles_ok_step)

lemma no_oracle_after_sixteen:
  assumes "reachable deployed_compliance (compliance_step P sha keccak self) w"
    and "length (filter is_registration (cm_log (snd w))) = 16"
  shows "registerOracle_evm s t a n ps (snd w) \<noteq> Inr st"
  using compliance.reachable_inv [OF assms(1)] assms(2) by (auto simp: oracles_ok_def registerOracle_evm_def outcome_simps MAX_ORACLES_def)

section \<open>How long an attestation stands\<close>

text \<open>Before it expires, only its prover and the owner can change it, over a hash that keeps provers apart.\<close>

lemma attestation_stands:
  assumes "run_compliance P sha keccak self s t c w = Inr w'" "inj (pair_key keccak (cm_pool (snd w)))"
    and "s \<noteq> p" "s \<noteq> cm_owner (snd w)" "\<not> past t (wa_expiry (cm_attestations (snd w) (pair_key keccak (cm_pool (snd w)) p)))"
  shows "cm_attestations (snd w') (pair_key keccak (cm_pool (snd w)) p) = cm_attestations (snd w) (pair_key keccak (cm_pool (snd w)) p)
    \<and> cm_pool (snd w') = cm_pool (snd w) \<and> cm_owner (snd w') = cm_owner (snd w)"
  using assms
  by (cases c) (auto simp: on_compliance_def compliance_op_defs outcome_simps Let_def change_owner_def inj_eq past_def)

section \<open>The threshold\<close>

text \<open>The public inputs in the order the circuit declares them: \<open>merkle_root\<close>, \<open>threshold\<close>, \<open>owner_commitment\<close>.\<close>

definition wealth_words :: "('f \<Rightarrow> bytes32) \<Rightarrow> 'f \<Rightarrow> 'f \<Rightarrow> 'f \<Rightarrow> 256 word list" where
  "wealth_words enc merkle_root threshold owner_commitment = map enc [merkle_root, threshold, owner_commitment]"

text \<open>
  C29. The contract compares the threshold with the Merkle root. An attestation is given only when the root, as a number, is the
  threshold: so every honest wealth proof, for whatever threshold, is refused with a mismatch once the verifier has
  accepted it, unless the root happens to be that number; and where it does, the attestation is for the
  root, whatever threshold was proven.
\<close>

theorem wealth_attestation_is_for_the_root:
  assumes "cm_mode (snd w) \<noteq> PermissionlessMode"
    and "verifyProofStatic P CIRCUIT_WEALTH_PROOF a b c (wealth_words enc rt proven own) (fst w) = Inr True"
    and "sint (time64 t) + sint (cm_proofExpirySeconds (snd w)) < 2 ^ 63" "0 \<le> sint (time64 t)" "0 \<le> sint (cm_proofExpirySeconds (snd w))"
  shows "if enc rt = ucast v
    then \<exists>w'. submitWealthProof_evm P sha keccak self s t v a b c (wealth_words enc rt proven own) w = Inr w'
      \<and> (\<exists>st. validateWealthProof_evm keccak t s (snd w') = Inr (v, st))
    else submitWealthProof_evm P sha keccak self s t v a b c (wealth_words enc rt proven own) w = Inl ThresholdMismatch"
proof -
  have sum: "checked_sadd (time64 t) (cm_proofExpirySeconds (snd w)) = Inr (time64 t + cm_proofExpirySeconds (snd w))"
    using assms(3-5) by (simp add: checked_sadd_def)
  have verified: "verifyProof P self CIRCUIT_WEALTH_PROOF a b c (wealth_words enc rt proven own) (fst w)
      = Inr ((fst w)\<lparr>vf_log := vf_log (fst w) @ [ProofVerified CIRCUIT_WEALTH_PROOF self]\<rparr>)"
    using assms(2) by (simp add: verifyProof_Inr)
  have "sint (time64 t + cm_proofExpirySeconds (snd w)) = sint (time64 t) + sint (cm_proofExpirySeconds (snd w))"
    using assms(3-5) by (simp add: sint_word_ariths signed_take_bit_int_eq_self)
  then have "\<not> past t (time64 t + cm_proofExpirySeconds (snd w))"
    using assms(5) by (simp add: past_def)
  moreover have "wealth_words enc rt proven own \<noteq> []" "hd (wealth_words enc rt proven own) = enc rt"
    by (simp_all add: wealth_words_def)
  ultimately show ?thesis
    using assms(1) by (simp add: submitWealthProof_evm_def Let_def verified sum validateWealthProof_evm_def)
qed


text \<open>A proof of the threshold 5 over the root 77: refused for 5, attested for 77.\<close>

definition wealth_verifier :: verifier where
  "wealth_verifier = (new_verifier 1)\<lparr>vf_vks := (\<lambda>_. \<lparr>vk_alpha = (1, 2), vk_beta = ((1, 2), 3, 4), vk_gamma = ((1, 2), 3, 4),
     vk_delta = ((1, 2), 3, 4), vk_ic = replicate 4 (1, 2)\<rparr>), vf_vkInitialized := (\<lambda>k. k = 10)\<rparr>"

definition easy_precompiles :: precompiles where
  "easy_precompiles = \<lparr>ecAdd = (\<lambda>_. Some (0, 0)), ecMul = (\<lambda>_. Some (0, 0)), ecPairing = (\<lambda>_. Some 1)\<rparr>"

lemma wealth_attestation_is_for_the_root_witness:
  "\<exists>w w' st. verifyProofStatic easy_precompiles CIRCUIT_WEALTH_PROOF (1, 2) ((1, 2), 3, 4) (1, 2) (wealth_words id 77 5 9) (fst w) = Inr True
     \<and> submitWealthProof_evm easy_precompiles (\<lambda>_. 0) (\<lambda>_. 0) 3 8 100 5 (1, 2) ((1, 2), 3, 4) (1, 2) (wealth_words id 77 5 9) w
         = Inl ThresholdMismatch
     \<and> submitWealthProof_evm easy_precompiles (\<lambda>_. 0) (\<lambda>_. 0) 3 8 100 77 (1, 2) ((1, 2), 3, 4) (1, 2) (wealth_words id 77 5 9) w = Inr w'
     \<and> validateWealthProof_evm (\<lambda>_. 0) 100 8 (snd w') = Inr (77, st)"
proof -
  let ?w = "(wealth_verifier, (new_compliance 1)\<lparr>cm_mode := OptionalDisclosureMode, cm_proofExpirySeconds := 86400\<rparr>)"
  have mode: "cm_mode (snd ?w) \<noteq> PermissionlessMode"
    by (simp add: new_compliance_def)
  have ok: "verifyProofStatic easy_precompiles CIRCUIT_WEALTH_PROOF (1, 2) ((1, 2), 3, 4) (1, 2) (wealth_words id 77 5 9) (fst ?w) = Inr True"
    by (simp add: verifyProofStatic_def wealth_words_def wealth_verifier_def new_verifier_def CIRCUIT_WEALTH_PROOF_def
        easy_precompiles_def ec_mul_def ec_add_def call_or_def pairingCheck_def numeral_eq_Suc)
  have time: "sint (time64 100) + sint (cm_proofExpirySeconds (snd ?w)) < 2 ^ 63" "0 \<le> sint (time64 100)"
    "0 \<le> sint (cm_proofExpirySeconds (snd ?w))"
    by (simp_all add: time64_def new_compliance_def)
  note result = wealth_attestation_is_for_the_root [OF mode ok time, where self = 3 and s = 8 and sha = "\<lambda>_. 0" and keccak = "\<lambda>_. 0"]
  show ?thesis
    by (rule exI [of _ ?w]) (use ok result [where v = 5] result [where v = 77] in auto)
qed

end
