(* ===== verification/Evm_Adapter.thy ===== *)
theory Evm_Adapter
  imports Evm_Pool_Safety Sdk_Adapters
begin

text \<open>
  The EVM adapter of the SDK against the pool contract: sdk/typescript/src/adapters/evm.ts calling
  contracts/evm/src/HolancPool.sol. The chain mines each transaction in a block of its own. How ethers.js writes a 32-byte
  text as a word and back, and how it names transactions, is an argument.
\<close>

section \<open>A chain with one pool\<close>

record abi =
  ab_bytes32 :: "string \<Rightarrow> bytes32 option"
  ab_text :: "bytes32 \<Rightarrow> string"
  ab_hash :: "nat \<Rightarrow> string"
  ab_address :: "address \<Rightarrow> string"
  ab_sender :: address
  ab_pool :: string

text \<open>Two transactions have two hashes.\<close>

definition abi_ok :: "abi \<Rightarrow> bool" where
  "abi_ok ab \<longleftrightarrow> inj (ab_hash ab)"

text \<open>The world, and for each mined transaction its hash and the events of the pool.\<close>

record 'tok mined =
  mi_world :: "'tok world"
  mi_txs :: "(string \<times> pool_event list) list"

definition u256_of_int :: "int \<Rightarrow> 256 word option" where
  "u256_of_int v = (if 0 \<le> v \<and> v < 2 ^ 256 then Some (word_of_int v) else None)"

text \<open>The arguments of a call as the contract receives them; \<open>None\<close> when they cannot be encoded.\<close>

definition deposit_args :: "abi \<Rightarrow> int \<Rightarrow> string \<Rightarrow> (256 word \<times> bytes32) option" where
  "deposit_args ab amount cm =
     (case u256_of_int amount of None \<Rightarrow> None | Some a \<Rightarrow> (case ab_bytes32 ab cm of None \<Rightarrow> None | Some c \<Rightarrow> Some (a, c)))"

definition two_words :: "abi \<Rightarrow> string list \<Rightarrow> (bytes32 \<times> bytes32) option" where
  "two_words ab xs = (case those (map (ab_bytes32 ab) xs) of Some [a, b] \<Rightarrow> Some (a, b) | _ \<Rightarrow> None)"

definition point_words :: "int \<times> int \<Rightarrow> g1 option" where
  "point_words p = (case (u256_of_int (fst p), u256_of_int (snd p)) of (Some x, Some y) \<Rightarrow> Some (x, y) | _ \<Rightarrow> None)"

definition transfer_args :: "abi \<Rightarrow> string \<Rightarrow> string list \<Rightarrow> string list \<Rightarrow> int \<Rightarrow> byte list list \<Rightarrow> evm_proof \<Rightarrow> transfer_call option" where
  "transfer_args ab rt nfs outs fee nts p =
     (case (ab_bytes32 ab rt, two_words ab nfs, two_words ab outs, u256_of_int fee) of
        (Some rt', Some nfs', Some outs', Some fee') \<Rightarrow>
          (case (point_words (proofA p), point_words (fst (proofB p)), point_words (snd (proofB p)), point_words (proofC p)) of
             (Some a, Some b0, Some b1, Some c) \<Rightarrow>
               Some \<lparr>tc_merkleRoot = rt', tc_nullifiers = nfs', tc_outputs = outs', tc_fee = fee', tc_notes = nts,
                     tc_proofA = a, tc_proofB = (b0, b1), tc_proofC = c\<rparr>
           | _ \<Rightarrow> None)
      | _ \<Rightarrow> None)"

definition mine :: "abi \<Rightarrow> ('tok world \<Rightarrow> 'tok world outcome) \<Rightarrow> 'tok mined \<Rightarrow> 'tok mined \<times> (js_error + string)" where
  "mine ab f m =
     (case f (mi_world m) of
        Inl _ \<Rightarrow> (m, Inl (Error ''execution reverted''))
      | Inr w \<Rightarrow>
          let hash = ab_hash ab (length (mi_txs m)) in
          (m\<lparr>mi_world := w,
             mi_txs := mi_txs m @ [(hash, drop (length (pl_log (ew_pool (mi_world m)))) (pl_log (ew_pool w)))]\<rparr>, Inr hash))"

text \<open>How \<open>parseLog\<close> reads an event of the pool: what is neither of the two is passed over.\<close>

fun parse_pool_event :: "pool_event \<Rightarrow> parsed_log" where
  "parse_pool_event (DepositEvent i _ _ _) = Inr (Some (''DepositEvent'', uint i))"
| "parse_pool_event (NewCommitment i _ _) = Inr (Some (''NewCommitment'', uint i))"
| "parse_pool_event _ = Inr None"

fun commitment_log :: "abi \<Rightarrow> string \<Rightarrow> nat \<Rightarrow> pool_event \<Rightarrow> evm_log list" where
  "commitment_log ab hash blk (NewCommitment i cm nt) =
     [\<lparr>log_leaf = uint i, log_commitment = ab_text ab cm, log_data = nt, log_txHash = hash, log_blockNumber = int blk\<rparr>]"
| "commitment_log ab hash blk _ = []"

definition block_logs :: "abi \<Rightarrow> 'tok mined \<Rightarrow> nat \<Rightarrow> evm_log list" where
  "block_logs ab m blk = concat (map (commitment_log ab (fst (mi_txs m ! blk)) blk) (snd (mi_txs m ! blk)))"

definition commitment_logs :: "abi \<Rightarrow> 'tok mined \<Rightarrow> int \<Rightarrow> int \<Rightarrow> evm_log list" where
  "commitment_logs ab m lo hi =
     concat (map (block_logs ab m) (filter (\<lambda>b. lo \<le> int b \<and> int b \<le> hi) [0..<length (mi_txs m)]))"

text \<open>Withdrawals, approvals and calls of other contracts go to another chain object.\<close>

definition pool_chain :: "'tok outside \<Rightarrow> abi \<Rightarrow> 'tok mined evm_chain \<Rightarrow> 'tok mined evm_chain" where
  "pool_chain env ab other = other\<lparr>
     has_provider := True,
     send_call := (\<lambda>call m.
       case call of
         PoolDeposit to amount cm nt \<Rightarrow>
           if to = ab_pool ab then
             (case deposit_args ab amount cm of
                None \<Rightarrow> (m, Inl TypeError)
              | Some (a, c) \<Rightarrow> mine ab (deposit_evm env (ab_sender ab) a c nt) m)
           else send_call other call m
       | PoolTransfer to rt nfs outs fee nts p \<Rightarrow>
           if to = ab_pool ab then
             (case transfer_args ab rt nfs outs fee nts p of
                None \<Rightarrow> (m, Inl TypeError)
              | Some c \<Rightarrow> mine ab (transfer_evm env c) m)
           else send_call other call m
       | _ \<Rightarrow> send_call other call m),
     wait_tx := (\<lambda>hash m.
       case find (\<lambda>t. fst t = hash) (mi_txs m) of
         None \<Rightarrow> wait_tx other hash m
       | Some t \<Rightarrow> (m, Inr (Some \<lparr>logs = map parse_pool_event (snd t)\<rparr>))),
     chain_root := (\<lambda>_ m. Inr (ab_text ab (pl_currentRoot (ew_pool (mi_world m))))),
     chain_nextLeaf := (\<lambda>_ m. Inr (uint (pl_nextLeafIndex (ew_pool (mi_world m))))),
     chain_deposited := (\<lambda>_ m. Inr (uint (pl_totalDeposited (ew_pool (mi_world m))))),
     chain_paused := (\<lambda>_ m. Inr (pl_isPaused (ew_pool (mi_world m)))),
     chain_epoch := (\<lambda>_ m. Inr (uint (pl_epoch (ew_pool (mi_world m))))),
     chain_token := (\<lambda>_ m. Inr (ab_address ab (pl_token (ew_pool (mi_world m))))),
     chain_logs := (\<lambda>_ lo hi m. Inr (commitment_logs ab m lo hi))\<rparr>"

text \<open>Every transaction so far has the hash of its place.\<close>

definition hashes_ok :: "abi \<Rightarrow> 'tok mined \<Rightarrow> bool" where
  "hashes_ok ab m \<longleftrightarrow> map fst (mi_txs m) = map (ab_hash ab) [0..<length (mi_txs m)]"

section \<open>Lemmas\<close>

lemma find_last_tx:
  assumes "abi_ok ab" "hashes_ok ab m"
  shows "find (\<lambda>t. fst t = ab_hash ab (length (mi_txs m))) (mi_txs m @ [(ab_hash ab (length (mi_txs m)), es)])
    = Some (ab_hash ab (length (mi_txs m)), es)"
proof -
  have "ab_hash ab (length (mi_txs m)) \<notin> set (map fst (mi_txs m))"
    using assms unfolding hashes_ok_def by (auto simp: abi_ok_def inj_eq)
  then have "find (\<lambda>t. fst t = ab_hash ab (length (mi_txs m))) (mi_txs m) = None"
    by (force simp: find_None_iff)
  then show ?thesis
    by (simp add: find_app)
qed

lemma block_logs_old: "b < length (mi_txs m) \<Longrightarrow> mi_txs m' = mi_txs m @ rest \<Longrightarrow> block_logs ab m' b = block_logs ab m b"
  by (simp add: block_logs_def)

text \<open>A transaction without \<open>NewCommitment\<close> adds nothing to any range.\<close>

lemma commitment_logs_silent:
  assumes "mi_txs m' = mi_txs m @ [(hash, es)]" "\<forall>e \<in> set es. \<forall>b. commitment_log ab hash b e = []"
  shows "commitment_logs ab m' lo hi = commitment_logs ab m lo hi"
proof -
  have old: "map (block_logs ab m') (filter P [0..<length (mi_txs m)]) = map (block_logs ab m) (filter P [0..<length (mi_txs m)])" for P
    using assms(1) by (auto intro: block_logs_old)
  have "block_logs ab m' (length (mi_txs m)) = []"
    using assms by (simp add: block_logs_def)
  then show ?thesis
    unfolding commitment_logs_def assms(1) by (simp add: old)
qed

lemma uint_sum:
  assumes "unat (x :: 'a::len word) + unat y < 2 ^ LENGTH('a)"
  shows "uint (x + y) = uint x + uint y"
proof -
  have "int (unat x + unat y) < 2 ^ LENGTH('a)"
    using assms by (metis of_nat_less_iff of_nat_numeral of_nat_power)
  then have "uint x + uint y < 2 ^ LENGTH('a)"
    by simp
  then show ?thesis
    using uint_add_lem by blast
qed

lemma deposit_logs:
  assumes "deposit_evm env sender a c nt w = Inr w'"
  shows "drop (length (pl_log (ew_pool w))) (pl_log (ew_pool w')) = [DepositEvent (pl_nextLeafIndex (ew_pool w)) c a nt]"
    "uint (pl_nextLeafIndex (ew_pool w')) = uint (pl_nextLeafIndex (ew_pool w)) + 1"
    "uint (pl_totalDeposited (ew_pool w')) = uint (pl_totalDeposited (ew_pool w)) + uint a"
proof -
  have bounds: "unat (pl_nextLeafIndex (ew_pool w)) + 1 < 2 ^ 64" "unat (pl_totalDeposited (ew_pool w)) + unat a < 2 ^ 256"
    using assms unfolding deposit_Inr by blast+
  obtain tok filled rt where w': "w' = w\<lparr>ew_token := tok, ew_pool := (ew_pool w)\<lparr>pl_nextLeafIndex := pl_nextLeafIndex (ew_pool w) + 1,
      pl_totalDeposited := pl_totalDeposited (ew_pool w) + a, pl_lastCommitment := c, pl_filledSubtrees := filled, pl_sha256Root := rt,
      pl_log := pl_log (ew_pool w) @ [DepositEvent (pl_nextLeafIndex (ew_pool w)) c a nt]\<rparr>\<rparr>"
    using assms unfolding deposit_Inr by blast
  show "drop (length (pl_log (ew_pool w))) (pl_log (ew_pool w')) = [DepositEvent (pl_nextLeafIndex (ew_pool w)) c a nt]"
    by (simp add: w')
  show "uint (pl_nextLeafIndex (ew_pool w')) = uint (pl_nextLeafIndex (ew_pool w)) + 1"
    using uint_sum [of "pl_nextLeafIndex (ew_pool w)" 1] bounds(1) by (simp add: w')
  show "uint (pl_totalDeposited (ew_pool w')) = uint (pl_totalDeposited (ew_pool w)) + uint a"
    using uint_sum [of "pl_totalDeposited (ew_pool w)" a] bounds(2) by (simp add: w')
qed

section \<open>A deposit through the adapter\<close>

text \<open>The result the adapter gives for a deposit, and the chain after it, from what the contract does.\<close>

definition deposit_promise :: "'tok outside \<Rightarrow> abi \<Rightarrow> DepositParams \<Rightarrow> 'tok mined \<Rightarrow> 'tok mined \<times> (js_error + DepositResult)" where
  "deposit_promise env ab ps m =
     (case deposit_args ab (dp_amount ps) (evm_hexToBytes32 (dp_commitment ps)) of
        None \<Rightarrow> (m, Inl TypeError)
      | Some (a, c) \<Rightarrow>
          (case deposit_evm env (ab_sender ab) a c (dp_encryptedNote ps) (mi_world m) of
             Inl _ \<Rightarrow> (m, Inl (Error ''execution reverted''))
           | Inr w \<Rightarrow>
               let next = pl_nextLeafIndex (ew_pool (mi_world m)); hash = ab_hash ab (length (mi_txs m)) in
               (m\<lparr>mi_world := w, mi_txs := mi_txs m @ [(hash, [DepositEvent next c a (dp_encryptedNote ps)])]\<rparr>,
                Inr \<lparr>dr_commitment = dp_commitment ps, dr_leafIndex = number_of_bigint (uint next), dr_txSignature = hash\<rparr>)))"

lemma pool_chain_simps [simp]:
  "has_provider (pool_chain env ab other)"
  "chain_root (pool_chain env ab other) p m = Inr (ab_text ab (pl_currentRoot (ew_pool (mi_world m))))"
  "chain_nextLeaf (pool_chain env ab other) p m = Inr (uint (pl_nextLeafIndex (ew_pool (mi_world m))))"
  "chain_deposited (pool_chain env ab other) p m = Inr (uint (pl_totalDeposited (ew_pool (mi_world m))))"
  "chain_paused (pool_chain env ab other) p m = Inr (pl_isPaused (ew_pool (mi_world m)))"
  "chain_epoch (pool_chain env ab other) p m = Inr (uint (pl_epoch (ew_pool (mi_world m))))"
  "chain_token (pool_chain env ab other) p m = Inr (ab_address ab (pl_token (ew_pool (mi_world m))))"
  "chain_logs (pool_chain env ab other) p lo hi m = Inr (commitment_logs ab m lo hi)"
  by (simp_all add: pool_chain_def)

lemma pool_chain_deposit:
  "to = ab_pool ab \<Longrightarrow> send_call (pool_chain env ab other) (PoolDeposit to amount cm nt) m =
     (case deposit_args ab amount cm of None \<Rightarrow> (m, Inl TypeError)
      | Some (a, c) \<Rightarrow> mine ab (deposit_evm env (ab_sender ab) a c nt) m)"
  by (simp add: pool_chain_def)

lemma pool_chain_wait:
  "find (\<lambda>t. fst t = hash) (mi_txs m) = Some t \<Longrightarrow>
    wait_tx (pool_chain env ab other) hash m = (m, Inr (Some \<lparr>logs = map parse_pool_event (snd t)\<rparr>))"
  by (simp add: pool_chain_def)

lemma adapter_deposit:
  assumes "abi_ok ab" "hashes_ok ab m" "skipApproval cfg" "ec_poolAddress cfg = ab_pool ab"
  shows "evm_deposit (pool_chain env ab other) cfg ps m = deposit_promise env ab ps m"
proof -
  let ?hash = "ab_hash ab (length (mi_txs m))"
  have run: "evm_deposit (pool_chain env ab other) cfg ps m = mined_deposit (pool_chain env ab other) cfg ps m"
    using assms(3) by (simp add: evm_deposit_def eff_defs)
  show ?thesis
  proof (cases "deposit_args ab (dp_amount ps) (evm_hexToBytes32 (dp_commitment ps))")
    case None
    then show ?thesis
      by (simp add: run mined_deposit_def send_and_wait_def eff_defs pool_chain_deposit assms(4) deposit_promise_def)
  next
    case (Some ac)
    obtain a c where args: "deposit_args ab (dp_amount ps) (evm_hexToBytes32 (dp_commitment ps)) = Some (a, c)"
      using Some by (cases ac) blast
    show ?thesis
    proof (cases "deposit_evm env (ab_sender ab) a c (dp_encryptedNote ps) (mi_world m)")
      case (Inl e)
      then show ?thesis
        by (simp add: run mined_deposit_def send_and_wait_def eff_defs pool_chain_deposit assms(4) deposit_promise_def args mine_def)
    next
      case (Inr w)
      let ?es = "[DepositEvent (pl_nextLeafIndex (ew_pool (mi_world m))) c a (dp_encryptedNote ps)]"
      let ?m = "m\<lparr>mi_world := w, mi_txs := mi_txs m @ [(?hash, ?es)]\<rparr>"
      have "wait_tx (pool_chain env ab other) ?hash ?m = (?m, Inr (Some \<lparr>logs = map parse_pool_event ?es\<rparr>))"
        by (rule pool_chain_wait [of _ _ "(?hash, ?es)", simplified snd_conv]) (simp add: find_last_tx [OF assms(1,2)])
      then show ?thesis
        by (simp add: run mined_deposit_def send_and_wait_def eff_defs pool_chain_deposit assms(4) deposit_promise_def args mine_def
            Inr deposit_logs [OF Inr] Let_def)
    qed
  qed
qed

section \<open>A transfer through the adapter\<close>

definition transfer_promise :: "'tok outside \<Rightarrow> abi \<Rightarrow> TransferParams \<Rightarrow> 'tok mined \<Rightarrow> 'tok mined \<times> (js_error + TransferResult)" where
  "transfer_promise env ab ps m =
     (case formatProofForEvm (tf_proof ps) of
        Inl e \<Rightarrow> (m, Inl e)
      | Inr p \<Rightarrow>
          (case transfer_args ab (evm_hexToBytes32 (tf_merkleRoot ps)) (map evm_hexToBytes32 (tf_nullifiers ps))
              (map evm_hexToBytes32 (tf_outputCommitments ps)) (tf_fee ps) (tf_encryptedNotes ps) p of
             None \<Rightarrow> (m, Inl TypeError)
           | Some c \<Rightarrow>
               (case mine ab (transfer_evm env c) m of
                  (m', Inl e) \<Rightarrow> (m', Inl e)
                | (m', Inr hash) \<Rightarrow>
                    (m', Inr \<lparr>tr_nullifiers = map Some (tf_nullifiers ps),
                             tr_outputCommitments = map Some (tf_outputCommitments ps), tr_txSignature = hash\<rparr>))))"

lemma pool_chain_transfer:
  "to = ab_pool ab \<Longrightarrow> send_call (pool_chain env ab other) (PoolTransfer to rt nfs outs fee nts p) m =
     (case transfer_args ab rt nfs outs fee nts p of None \<Rightarrow> (m, Inl TypeError) | Some c \<Rightarrow> mine ab (transfer_evm env c) m)"
  by (simp add: pool_chain_def)

lemma mined_found:
  assumes "abi_ok ab" "hashes_ok ab m" "mine ab f m = (m', Inr hash)"
  shows "\<exists>es. wait_tx (pool_chain env ab other) hash m' = (m', Inr (Some \<lparr>logs = map parse_pool_event es\<rparr>))"
proof -
  obtain w where hash: "hash = ab_hash ab (length (mi_txs m))"
    and m': "m' = m\<lparr>mi_world := w, mi_txs := mi_txs m @ [(hash, drop (length (pl_log (ew_pool (mi_world m)))) (pl_log (ew_pool w)))]\<rparr>"
    using assms(3) by (auto simp: mine_def Let_def split: sum.splits)
  have "find (\<lambda>t. fst t = hash) (mi_txs m') = Some (hash, drop (length (pl_log (ew_pool (mi_world m)))) (pl_log (ew_pool w)))"
    using find_last_tx [OF assms(1,2)] by (simp add: m' hash)
  from pool_chain_wait [OF this] show ?thesis
    by auto
qed

lemma adapter_transfer:
  assumes "abi_ok ab" "hashes_ok ab m" "ec_poolAddress cfg = ab_pool ab"
  shows "evm_transfer (pool_chain env ab other) cfg ps m = transfer_promise env ab ps m"
proof (cases "formatProofForEvm (tf_proof ps)")
  case (Inl e)
  then show ?thesis
    by (simp add: evm_transfer_def transfer_promise_def eff_defs)
next
  case (Inr p)
  let ?args = "transfer_args ab (evm_hexToBytes32 (tf_merkleRoot ps)) (map evm_hexToBytes32 (tf_nullifiers ps))
    (map evm_hexToBytes32 (tf_outputCommitments ps)) (tf_fee ps) (tf_encryptedNotes ps) p"
  show ?thesis
  proof (cases ?args)
    case None
    then show ?thesis
      by (simp add: evm_transfer_def transfer_promise_def eff_defs send_and_wait_def pool_chain_transfer assms(3) Inr)
  next
    case (Some c)
    obtain m' r where mined: "mine ab (transfer_evm env c) m = (m', r)" by fastforce
    show ?thesis
    proof (cases r)
      case (Inl e)
      then show ?thesis
        using mined by (simp add: evm_transfer_def transfer_promise_def eff_defs send_and_wait_def pool_chain_transfer assms(3) Inr Some)
    next
      case (Inr hash)
      with mined_found [OF assms(1,2)] mined obtain es
        where "wait_tx (pool_chain env ab other) hash m' = (m', Inr (Some \<lparr>logs = map parse_pool_event es\<rparr>))"
        by blast
      then show ?thesis
        using mined Inr \<open>formatProofForEvm (tf_proof ps) = Inr p\<close>
        by (simp add: evm_transfer_def transfer_promise_def eff_defs send_and_wait_def pool_chain_transfer assms(3) Some)
    qed
  qed
qed

section \<open>Runs of the chain\<close>

text \<open>The events of the leaves: their numbers, and what \<open>getCommitments\<close> asks for.\<close>

fun leaf_of :: "pool_event \<Rightarrow> int list" where
  "leaf_of (DepositEvent i _ _ _) = [uint i]"
| "leaf_of (NewCommitment i _ _) = [uint i]"
| "leaf_of _ = []"

fun output_of :: "pool_event \<Rightarrow> (int \<times> bytes32 \<times> byte list) list" where
  "output_of (NewCommitment i cm nt) = [(uint i, cm, nt)]"
| "output_of _ = []"

definition leaves_of :: "pool_event list \<Rightarrow> int list" where
  "leaves_of es = concat (map leaf_of es)"

definition outputs_of :: "pool_event list \<Rightarrow> (int \<times> bytes32 \<times> byte list) list" where
  "outputs_of es = concat (map output_of es)"

lemma listing_simps [simp]:
  "leaves_of [] = []" "leaves_of (e # es) = leaf_of e @ leaves_of es" "leaves_of (es @ fs) = leaves_of es @ leaves_of fs"
  "outputs_of [] = []" "outputs_of (e # es) = output_of e @ outputs_of es" "outputs_of (es @ fs) = outputs_of es @ outputs_of fs"
  "leaves_of (fee_events fee) = []" "outputs_of (fee_events fee) = []" "deposited (fee_events fee) = []"
  by (simp_all add: leaves_of_def outputs_of_def fee_events_def)

text \<open>Any call of any contract is mined with the events it made the pool emit.\<close>

inductive chain_step :: "'tok outside \<Rightarrow> abi \<Rightarrow> 'tok mined \<Rightarrow> 'tok mined \<Rightarrow> bool" for env ab where
  mined_step: "world_step env (mi_world m) w \<Longrightarrow> pl_log (ew_pool w) = pl_log (ew_pool (mi_world m)) @ es \<Longrightarrow>
    chain_step env ab m (m\<lparr>mi_world := w, mi_txs := mi_txs m @ [(ab_hash ab (length (mi_txs m)), es)]\<rparr>)"

definition chain_start :: "'tok outside \<Rightarrow> 'tok mined \<Rightarrow> bool" where
  "chain_start env m \<longleftrightarrow> deployed env (mi_world m) \<and> mi_txs m = []"

definition leaves_ok :: "'tok world \<Rightarrow> bool" where
  "leaves_ok w \<longleftrightarrow> leaves_of (pl_log (ew_pool w)) = map int [0..<unat (pl_nextLeafIndex (ew_pool w))]
     \<and> length (outputs_of (pl_log (ew_pool w))) + length (deposited (pl_log (ew_pool w))) = unat (pl_nextLeafIndex (ew_pool w))"

definition listing_ok :: "abi \<Rightarrow> 'tok mined \<Rightarrow> bool" where
  "listing_ok ab m \<longleftrightarrow> hashes_ok ab m
     \<and> (\<exists>a b. pl_log (ew_pool (mi_world m)) = PoolInitialized a b # concat (map snd (mi_txs m)))
     \<and> leaves_ok (mi_world m)"

lemma hashes_ok_snoc: "hashes_ok ab m \<Longrightarrow> hashes_ok ab (m\<lparr>mi_world := w, mi_txs := mi_txs m @ [(ab_hash ab (length (mi_txs m)), es)]\<rparr>)"
  by (simp add: hashes_ok_def)

text \<open>Two outputs take the next two leaves.\<close>

lemma two_outputs:
  assumes "length outs = 2" "unat i + 2 < 2 ^ 64"
  shows "leaves_of (output_events i outs) = map int [unat i..<unat (i + 2)]" "length (outputs_of (output_events i outs)) = 2"
    "deposited (output_events i outs) = []" "unat (i + 2) = unat i + 2"
proof -
  obtain c n c' n' where outs: "outs = [(c, n), (c', n')]"
    using assms(1) by (auto simp: length_Suc_conv numeral_2_eq_2)
  have "unat (i + 1) = unat i + 1" and two: "unat (i + 2) = unat i + 2"
    using assms(2) by (simp_all add: unat_word_ariths)
  moreover have "uint (i + 1) = uint i + 1"
    using uint_sum [of i 1] assms(2) by simp
  ultimately show "leaves_of (output_events i outs) = map int [unat i..<unat (i + 2)]"
    by (simp add: outs upt_rec)
  show "length (outputs_of (output_events i outs)) = 2" "deposited (output_events i outs) = []" "unat (i + 2) = unat i + 2"
    by (simp_all add: outs two)
qed

lemma upto_app: "a \<le> b \<Longrightarrow> map int [0..<a] @ map int [a..<b] = map int [0..<b]"
  using upt_add_eq_append [of 0 a "b - a"] by simp

lemma leaves_ok_two:
  assumes "leaves_ok w" "length outs = 2" "unat (pl_nextLeafIndex (ew_pool w)) + 2 < 2 ^ 64"
    "pl_nextLeafIndex (ew_pool w') = pl_nextLeafIndex (ew_pool w) + 2"
    "pl_log (ew_pool w') = pl_log (ew_pool w) @ output_events (pl_nextLeafIndex (ew_pool w)) outs @ fee_events fee @ [e]"
    "leaf_of e = []" "output_of e = []" "deposited_of e = []"
  shows "leaves_ok w'"
  using assms(1) two_outputs [OF assms(2,3)] unfolding leaves_ok_def assms(4,5)
  by (simp add: assms(6-8) upto_app)

lemma leaves_ok_step:
  assumes "leaves_ok w" "world_step env w w'"
  shows "leaves_ok w'"
  using assms(2)
proof (cases rule: world_step_kinds)
  case (dep sender amount cm nt)
  from deposit_logs(2) [OF dep(2)] have "unat (pl_nextLeafIndex (ew_pool w')) = unat (pl_nextLeafIndex (ew_pool w)) + 1"
    by (metis nat_uint_eq of_nat_1 of_nat_add nat_int uint_nat)
  moreover have "pl_log (ew_pool w') = pl_log (ew_pool w) @ [DepositEvent (pl_nextLeafIndex (ew_pool w)) cm amount nt]"
    using dep(2) by (auto simp: deposit_Inr)
  ultimately show ?thesis
    using assms(1) by (simp add: leaves_ok_def)
next
  case (tra c)
  show ?thesis
    by (rule leaves_ok_two [OF assms(1), of "paired_outputs c" _ "tc_fee c" "TransferEvent (tc_nullifiers c) (tc_outputs c) (tc_fee c)"])
      (use tra in \<open>auto simp: transfer_Inr\<close>)
next
  case (wit c)
  show ?thesis
    by (rule leaves_ok_two [OF assms(1), of "paired_outputs c" _ "tc_fee c"
          "WithdrawEvent (tc_nullifiers c) (wc_exitAmount c) (wc_recipient c) (tc_fee c)"])
      (use wit in \<open>auto simp: withdraw_Inr\<close>)
next
  case (admin sender st)
  then show ?thesis
    using assms(1) by (auto simp: leaves_ok_def)
next
  case other
  then show ?thesis
    using assms(1) by (simp add: leaves_ok_def)
qed

lemma chain_log_grows:
  "world_step env w w' \<Longrightarrow> \<exists>es. pl_log (ew_pool w') = pl_log (ew_pool w) @ es"
  by (erule world_step_kinds) (auto simp: deposit_Inr transfer_Inr withdraw_Inr)

lemma chain_start_ok: "chain_start env m \<Longrightarrow> listing_ok ab m"
  using deployed_facts(6) [of env "mi_world m"]
  by (auto simp: chain_start_def listing_ok_def hashes_ok_def leaves_ok_def new_pool_def)

lemma chain_step_ok: "listing_ok ab m \<Longrightarrow> chain_step env ab m m' \<Longrightarrow> listing_ok ab m'"
  by (erule chain_step.cases) (auto simp: listing_ok_def hashes_ok_snoc intro: leaves_ok_step)

interpretation listing: invariant_system "chain_start env" "chain_step env ab" "listing_ok ab" for env ab
  by unfold_locales (auto intro: chain_start_ok chain_step_ok)

text \<open>What a log says of its note, and the logs of one transaction.\<close>

definition listed :: "abi \<Rightarrow> int \<times> bytes32 \<times> byte list \<Rightarrow> int \<times> string \<times> byte list" where
  "listed ab = (\<lambda>(i, cm, nt). (number_of_bigint i, ab_text ab cm, nt))"

definition listed_log :: "evm_log \<Rightarrow> int \<times> string \<times> byte list" where
  "listed_log l = (number_of_bigint (log_leaf l), log_commitment l, log_data l)"

lemma block_listed:
  "map listed_log (concat (map (commitment_log ab hash blk) es)) = map (listed ab) (outputs_of es)"
proof (induction es)
  case (Cons e es)
  then show ?case
    by (cases e) (simp_all add: listed_log_def listed_def)
qed simp

lemma block_named: "l \<in> set (concat (map (commitment_log ab hash blk) es)) \<Longrightarrow> log_txHash l = hash \<and> log_blockNumber l = int blk"
proof (induction es)
  case (Cons e es)
  then show ?case
    by (cases e) auto
qed simp

lemma all_listed:
  assumes "lo \<le> 0" "int (length (mi_txs m)) \<le> hi + 1"
  shows "map listed_log (commitment_logs ab m lo hi) = map (listed ab) (outputs_of (concat (map snd (mi_txs m))))"
proof -
  have all: "filter (\<lambda>b. lo \<le> int b \<and> int b \<le> hi) [0..<length (mi_txs m)] = [0..<length (mi_txs m)]"
    using assms by (auto simp: filter_id_conv)
  have "map listed_log (concat (map (block_logs ab m) [0..<k])) = map (listed ab) (outputs_of (concat (map snd (take k (mi_txs m)))))"
    if "k \<le> length (mi_txs m)" for k
    using that by (induction k) (simp_all add: block_logs_def block_listed take_Suc_conv_app_nth)
  from this [of "length (mi_txs m)"] show ?thesis
    unfolding commitment_logs_def all by simp
qed

lemma logs_named:
  assumes "hashes_ok ab m" "l \<in> set (commitment_logs ab m lo hi)"
  shows "lo \<le> log_blockNumber l \<and> log_blockNumber l \<le> hi \<and> log_txHash l = ab_hash ab (nat (log_blockNumber l))"
proof -
  obtain b where b: "b < length (mi_txs m)" "lo \<le> int b" "int b \<le> hi" "l \<in> set (block_logs ab m b)"
    using assms(2) by (auto simp: commitment_logs_def)
  have "log_txHash l = fst (mi_txs m ! b) \<and> log_blockNumber l = int b"
    using b(4) unfolding block_logs_def by (rule block_named)
  moreover have "fst (mi_txs m ! b) = ab_hash ab b"
    using assms(1) b(1) unfolding hashes_ok_def by (metis add_0 nth_map nth_map_upt length_map length_upt minus_nat.diff_0)
  ultimately show ?thesis
    using b(2,3) by simp
qed

lemma deposit_promise_kept:
  assumes "deposit_promise env ab ps m = (m', Inr r)" "ab_sender ab \<noteq> oe_self env"
  shows "chain_step env ab m m'" "dr_leafIndex r = number_of_bigint (uint (pl_nextLeafIndex (ew_pool (mi_world m))))"
    "uint (pl_nextLeafIndex (ew_pool (mi_world m'))) = uint (pl_nextLeafIndex (ew_pool (mi_world m))) + 1"
    "uint (pl_totalDeposited (ew_pool (mi_world m'))) = uint (pl_totalDeposited (ew_pool (mi_world m))) + dp_amount ps"
    "\<exists>a c. pl_log (ew_pool (mi_world m')) = pl_log (ew_pool (mi_world m))
       @ [DepositEvent (pl_nextLeafIndex (ew_pool (mi_world m))) c a (dp_encryptedNote ps)]"
proof -
  obtain a c w where args: "deposit_args ab (dp_amount ps) (evm_hexToBytes32 (dp_commitment ps)) = Some (a, c)"
    and w: "deposit_evm env (ab_sender ab) a c (dp_encryptedNote ps) (mi_world m) = Inr w"
    and m': "m' = m\<lparr>mi_world := w, mi_txs := mi_txs m @ [(ab_hash ab (length (mi_txs m)),
      [DepositEvent (pl_nextLeafIndex (ew_pool (mi_world m))) c a (dp_encryptedNote ps)])]\<rparr>"
    and r: "dr_leafIndex r = number_of_bigint (uint (pl_nextLeafIndex (ew_pool (mi_world m))))"
    using assms(1) unfolding deposit_promise_def by (auto simp: Let_def split: option.splits sum.splits prod.splits)
  have amount: "uint a = dp_amount ps"
    using args by (auto simp: deposit_args_def u256_of_int_def uint_word_of_int take_bit_int_eq_self split: option.splits if_splits)
  have "world_step env (mi_world m) w"
    by (rule pool_call [of "ab_sender ab" _ "CallDeposit a c (dp_encryptedNote ps)"]) (use assms(2) w in simp_all)
  moreover have log: "pl_log (ew_pool w) = pl_log (ew_pool (mi_world m))
      @ [DepositEvent (pl_nextLeafIndex (ew_pool (mi_world m))) c a (dp_encryptedNote ps)]"
    using w by (auto simp: deposit_Inr)
  ultimately show "chain_step env ab m m'"
    unfolding m' by (rule mined_step)
  show "dr_leafIndex r = number_of_bigint (uint (pl_nextLeafIndex (ew_pool (mi_world m))))"
    by (rule r)
  show "uint (pl_nextLeafIndex (ew_pool (mi_world m'))) = uint (pl_nextLeafIndex (ew_pool (mi_world m))) + 1"
    "uint (pl_totalDeposited (ew_pool (mi_world m'))) = uint (pl_totalDeposited (ew_pool (mi_world m))) + dp_amount ps"
    using deposit_logs(2,3) [OF w] by (simp_all add: m' amount)
  show "\<exists>a c. pl_log (ew_pool (mi_world m')) = pl_log (ew_pool (mi_world m))
       @ [DepositEvent (pl_nextLeafIndex (ew_pool (mi_world m))) c a (dp_encryptedNote ps)]"
    using log by (auto simp: m')
qed

lemma commitments_read:
  assumes "listing_ok ab m" "from \<le> 0" "int (length (mi_txs m)) \<le> to + 1"
  shows "\<exists>evs. evm_getCommitments (pool_chain env ab other) cfg from to m = (m, Inr evs)
    \<and> map (\<lambda>e. (ev_leafIndex e, ev_commitment e, ev_encryptedNote e)) evs = map (listed ab) (outputs_of (pl_log (ew_pool (mi_world m))))
    \<and> (\<forall>e \<in> set evs. ev_txHash e = ab_hash ab (nat (ev_blockNumber e)))"
proof -
  have "outputs_of (pl_log (ew_pool (mi_world m))) = outputs_of (concat (map snd (mi_txs m)))"
    using assms(1) by (auto simp: listing_ok_def)
  with all_listed [OF assms(2,3)]
  have "map listed_log (commitment_logs ab m from to) = map (listed ab) (outputs_of (pl_log (ew_pool (mi_world m))))"
    by simp
  moreover have "\<forall>l \<in> set (commitment_logs ab m from to). log_txHash l = ab_hash ab (nat (log_blockNumber l))"
    using logs_named [of ab m] assms(1) by (metis listing_ok_def)
  ultimately show ?thesis
    by (simp add: evm_getCommitments_def requireProvider_def listed_log_def [abs_def] comp_def)
qed

section \<open>A small chain\<close>

text \<open>The small pool on a chain, one deposit of ten.\<close>

definition small_abi :: abi where
  "small_abi = \<lparr>ab_bytes32 = (\<lambda>_. Some 5), ab_text = (\<lambda>_. ''0x''), ab_hash = (\<lambda>n. replicate n (CHR ''a'')), ab_address = (\<lambda>_. []),
     ab_sender = 5, ab_pool = ''0xp''\<rparr>"

definition small_mined :: "nat mined" where
  "small_mined = \<lparr>mi_world = small_world, mi_txs = []\<rparr>"

definition small_adapter :: EvmAdapterConfig where
  "small_adapter = \<lparr>ec_rpcUrl = [], ec_poolAddress = ''0xp'', ec_verifierAddress = None, ec_nullifierAddress = None, skipApproval = True\<rparr>"

definition ten_in :: DepositParams where
  "ten_in = \<lparr>dp_amount = 10, dp_commitment = ''0xcc'', dp_encryptedNote = [], dp_tokenAddress = ''0xt''\<rparr>"

definition silent_chain :: "'m evm_chain" where
  "silent_chain = \<lparr>signer_address = Inl TypeError, has_provider = False, token_allowance = (\<lambda>_ _ _ _. Inl TypeError),
      send_call = (\<lambda>_ m. (m, Inl TypeError)), wait_tx = (\<lambda>_ m. (m, Inl TypeError)),
      chain_root = (\<lambda>_ _. Inl TypeError), chain_nextLeaf = (\<lambda>_ _. Inl TypeError), chain_deposited = (\<lambda>_ _. Inl TypeError),
      chain_paused = (\<lambda>_ _. Inl TypeError), chain_epoch = (\<lambda>_ _. Inl TypeError), chain_token = (\<lambda>_ _. Inl TypeError),
      chain_spent = (\<lambda>_ _ _ _. Inl TypeError), chain_logs = (\<lambda>_ _ _ _. Inl TypeError)\<rparr>"

lemma small_abi_simps [simp]: "abi_ok small_abi" "ab_sender small_abi = 5" "ab_pool small_abi = ''0xp''"
  "skipApproval small_adapter" "ec_poolAddress small_adapter = ''0xp''"
proof -
  show "abi_ok small_abi"
    unfolding abi_ok_def small_abi_def by (rule injI) simp
qed (simp_all add: small_abi_def small_adapter_def)

lemma small_mined_reachable: "reachable (chain_start small_env) (chain_step small_env small_abi) small_mined"
  by (rule reach_init) (simp add: chain_start_def small_mined_def small_deployed)

lemma small_deposit_mined: "\<exists>m r. deposit_promise small_env small_abi ten_in small_mined = (m, Inr r) \<and> length (mi_txs m) = 1
    \<and> pl_nextLeafIndex (ew_pool (mi_world m)) = 1"
proof -
  obtain filled rt where ins: "insertLeaf front_hash (zero_hashes front_hash) 0 5 (replicate TREE_DEPTH 0) = (filled, rt)"
    by (cases "insertLeaf front_hash (zero_hashes front_hash) 0 5 (replicate TREE_DEPTH 0)")
  let ?w = "small_world\<lparr>ew_token := 10, ew_pool := (ew_pool small_world)\<lparr>pl_nextLeafIndex := 1, pl_totalDeposited := 10,
    pl_lastCommitment := 5, pl_filledSubtrees := filled, pl_sha256Root := rt,
    pl_log := pl_log (ew_pool small_world) @ [DepositEvent 0 5 10 []]\<rparr>\<rparr>"
  have "deposit_evm small_env 5 10 5 [] small_world = Inr ?w"
    using ins by (simp add: deposit_Inr small_world_def new_pool_def)
  then show ?thesis
    by (simp add: deposit_promise_def ten_in_def small_abi_def small_mined_def deposit_args_def u256_of_int_def Let_def)
qed

section \<open>What the adapter promises and gives\<close>





end
