(* ===== verification/Spec2Isabelle.thy ===== *)
theory Spec2Isabelle
  imports Sdk_Wallet_Session Sdk_Prover Sdk_Rpc Relayer_Server Indexer_Server Indexer_Scanner Indexer_Evm
    Sdk_Stealth Sdk_Client_Flows Sdk_Compliance
    Sync_With_Indexer App_Pages Circuit_Wallet Circuit_Stealth
    Evm_Drain Evm_Compliance Evm_Adapter
begin

text \<open>
  Holanc is a shielded pool on Solana, with an EVM counterpart. A user holds notes; a note is a value
  under a Poseidon commitment, and spending it publishes a nullifier and a Groth16 proof. This
  development verifies the TypeScript that runs off chain, the circuits its proofs are for, and the EVM
  contracts that check these proofs.

  \<^bold>\<open>The parts and how they meet.\<close> The SDK (src/sdk/typescript/src) keeps the notes of a wallet, chooses
  inputs, builds proofs and instructions. The web application (src/app/src) calls it from one hook for
  each chain. The indexer (src/indexer/src) reads the events of the pool into a note table and serves
  it over HTTP, from which the wallet synchronises. The relayer (src/relayer/src) takes signed
  transactions over HTTP and sends them in padded batches. The circuits (src/circuits) say what a proof
  proves. The EVM contracts (src/contracts/evm/src) hold the tokens, the note tree and the set of spent notes, and take
  the calls the web application and the SDK send.

  \<^bold>\<open>Foundations.\<close>
  \<^item> \<open>Holanc_Prelude\<close>: results of code that throws (a sum, \<open>Inl\<close> the error), state-passing effects with an
    error, reachability over a step relation, the locale \<open>invariant_system\<close> that every state machine of
    the development interprets, and the list lemmas the components share.
  \<^item> \<open>Js_Text\<close>, \<open>Js_Number\<close>: the string and number functions of the runtime, written out: BigInt literals,
    \<open>toString\<close>, \<open>padStart\<close>, \<open>parseInt\<close>, \<open>split\<close>, the rounding of a bigint to a double.
  \<^item> \<open>Byte_Codec\<close>: fixed-width integers in buffers, and the locales \<open>codec\<close> and \<open>fixed_codec\<close> of an encoding
    that reads back; every encoding of the development interprets one of them.

  \<^bold>\<open>SDK.\<close>
  \<^item> \<open>Sdk_Poseidon\<close> (poseidon.ts): field elements as 64 hexadecimal digits.
  \<^item> \<open>Sdk_Wallet\<close>, \<open>Sdk_Wallet_Session\<close>, \<open>Sdk_Wallet_Types\<close> (wallet.ts, types.ts): the wallet record and every
    method of \<open>HolancWallet\<close>. A session interleaves deposits, preparations, synchronisation, confirmations
    and unlocks (\<open>wallet_step\<close>). Shown: transfers and withdrawals conserve value and are refused only when no one
    or two spendable notes cover the amount; reservations of transactions in flight are disjoint; every
    note opens its commitment and nullifier; a saved wallet loads as it was; a synchronisation appends what it counts.
  \<^item> \<open>Sdk_Encryption\<close> (encryption.ts), \<open>Sdk_Stealth\<close> (stealth.ts): note encryption and one-time addresses over a
    curve and a cipher given as records. Shown: what is encrypted to a key is read with it, and a scan finds its own payments.
  \<^item> \<open>Sdk_Prover\<close> (prover.ts): the input objects of all circuits, in the order of their properties. Shown: the padded
    inputs conserve value; the three oldest circuits do not declare the names the objects use.
  \<^item> \<open>Sdk_Rpc\<close> (rpc.ts): endpoints with circuit breakers; which endpoint answers, and that tripped breakers recover.
  \<^item> \<open>Sdk_Client\<close>, \<open>Sdk_Client_Flows\<close> (client.ts), \<open>Sdk_Bridge\<close> (bridge.ts), \<open>Sdk_Compliance\<close> (compliance.ts): instruction data byte by byte,
    derived addresses, account readers, and the flows that compose wallet, prover and connection. The argument
    lists and account layouts of the Rust programs are defined beside them, and the data is compared with these.
  \<^item> \<open>Sdk_Adapters\<close> (adapters/*.ts): the two chain adapters over what ethers.js and the client answer, with the locale \<open>chain_adapter\<close>.

  \<^bold>\<open>Relayer.\<close> \<open>Relayer_Batcher\<close> (batcher.ts: queue, batches, retries; each await is a step, so tasks, flushes and requests
  interleave), \<open>Relayer_Fees\<close>, \<open>Relayer_Jitter\<close>, \<open>Relayer_Evm\<close>, \<open>Relayer_Server\<close> (server.ts: rate limiter and routes).
  Shown: no accepted transaction is lost or sent twice by a flush, a status only moves forward, every task
  ends, a window admits at most its limit.

  \<^bold>\<open>Indexer.\<close> \<open>Indexer_Store\<close> (store.ts, with the locale \<open>note_index\<close>), \<open>Indexer_Replicated\<close> (replicated-store.ts, refining the primary),
  \<open>Indexer_Scanner\<close> (scanner.ts), \<open>Indexer_Evm\<close> (evm-scanner.ts), \<open>Indexer_Server\<close> (server.ts). Shown: a batch is atomic and may be
  replayed, a read of a healthy replica is a read of the primary, a poll stores what it read before its
  checkpoint moves, the catch-up scan covers its range.

  \<^bold>\<open>Composition.\<close> \<open>Sync_With_Indexer\<close> runs the wallet's synchronisation and the Solana adapter against the indexer's request
  handler over one table: rounds of synchronisation take in every readable note. \<open>App_Solana\<close>, \<open>App_Flows\<close>, \<open>App_Evm\<close> (the two
  hooks) and \<open>App_Pages\<close> (chain selection and page handlers) run wallet, prover and transaction sending in
  the order of the callbacks, with the state of the interface. \<open>Evm_Adapter\<close> puts the modelled pool behind the EVM adapter:
  a deposit or a transfer of the adapter is the one of the contract, and its list of notes holds every output and no deposit.

  \<^bold>\<open>Circuits.\<close> \<open>Circuit_Common\<close> and \<open>Circuits\<close> (lib/common.circom and the twelve circuit files) are predicates over the signals, in any field.
  \<open>Circuit_Soundness\<close>: an accepted withdrawal conserves value over the natural numbers; membership and ownership
  are not enforced. \<open>Circuit_Wallet\<close>: the circuit accepts what the wallet prepares. \<open>Circuit_Stealth\<close>: SDK and circuit derive the
  same stealth address.

  \<^bold>\<open>EVM contracts.\<close> A call is a function from the state to a revert or a new state; arithmetic is on words of the
  width the contract declares and reverts on overflow. \<open>Evm_Base\<close>: values, reverts, \<open>Ownable\<close>.
  \<^item> \<open>Evm_Tree\<close> (the incremental tree of HolancPool.sol): its root is the root of the complete tree padded with the zero leaf.
  \<^item> \<open>Evm_Nullifier\<close> (HolancNullifier.sol): the bitmap pages refine a set of slots. \<open>Evm_Verifier\<close> (HolancVerifier.sol): the
    pairing check over curve operations that are arguments. \<open>Evm_Bridge\<close> (HolancBridge.sol): epoch roots and locked commitments. \<open>Evm_Compliance\<close>
    (HolancCompliance.sol): oracles, disclosures and attestations.
  \<^item> \<open>Evm_Pool\<close>, \<open>Evm_Pool_Calls\<close>, \<open>Evm_Pool_Run\<close> (HolancPool.sol): every external function of the pool, what each succeeds with, and
    the world of pool, registry, bridge and token under \<open>world_step\<close>, the calls anyone may make in any order. \<open>Evm_Pool_Instance\<close> is
    a small world that runs, for the witnesses.
  \<^item> \<open>Evm_Pool_Safety\<close>: totals, the last hundred roots, and that the fees of transfers are not paid out and not counted. \<open>Evm_Pool_Spends\<close>: a slot
    of the registry is spent once, yet a withdrawal pays twice, as a nullifier plus the group order is another slot with the same proof;
    a proof does not bind its recipient.
    \<open>Evm_Drain\<close>: pool and withdrawal circuit together pay for notes that were never deposited, as membership is not enforced.

  \<^bold>\<open>Arguments of the model.\<close> Code that is not in the repository is an argument: Poseidon, BabyJubJub, BIP-39,
  HKDF and AES-GCM, snarkjs, web3.js, ethers.js, SQLite's file, the network and the clock. What is used of it is a named hypothesis
  (\<open>field_hash\<close>, \<open>curve_ok\<close>, \<open>cipher_ok\<close>, \<open>same_hash\<close>, \<open>wide_field\<close>; for the contracts \<open>token_ok\<close>, \<open>mul_mod_order\<close>,
  \<open>complete_for_withdraw\<close> and \<open>writes_numbers\<close>), and each property with one has a witness that
  instantiates it. \<open>wide_field\<close> says that the field's characteristic exceeds \<open>2 ^ 68\<close>, as that of BN254 does.

  \<^bold>\<open>Bounds.\<close> A relay task runs at most \<open>2 * maxRetries + 2\<close> steps. A page of the indexer holds at most 500 notes, and a
  synchronisation gains 499 of them, as the first note of a page is the last one of the page before; \<open>sync_rounds\<close> counts the rounds.
  The search for an encryption scalar consumes a list of draws and gives \<open>None\<close> when all are zero. Every
  other loop of the code ends by its data and is a total function.

  \<^bold>\<open>Not modelled.\<close> The rounding of 64-bit floats in fees, delays and human amounts (their exact values are used). Process
  start, listening on ports, environment variables of the services, timers (a timer is the step it triggers) and log output.
  The JSON text of requests and of the wallet file (their values are). The markup of the pages and the wallet
  connection components. The deployment script src/migrations/deploy.ts, which prints and changes no
  state. The Rust programs, of which only argument lists and account layouts appear; reentrancy into the contracts (the
  token is a function that does not call back), gas, and the proxy that holds their code; the vendored OpenZeppelin scripts, which are no part of the system; tests.
\<close>

end
